(* ===== verification/Hort_Prelude.thy ===== *)
theory Hort_Prelude
  imports Main "HOL-Library.Word" "HOL-Library.Multiset" "HOL-Library.Sublist"
begin

text \<open>
  Shared vocabulary of the development: the result type of fallible Rust functions, the
  mutable-state shape of \<^verbatim>\<open>&mut self\<close> methods, the machine types the sources use
  (UTF-8 strings, \<^verbatim>\<open>u32\<close>, \<^verbatim>\<open>u64\<close>, \<^verbatim>\<open>i64\<close>, \<^verbatim>\<open>f32\<close>), chrono
  instants, \<^verbatim>\<open>serde_json\<close> values, and the generic lemmas and interfaces the components
  instantiate.

  Conventions.
  \<^item> A Rust \<^verbatim>\<open>Result<T, E>\<close> is \<open>'e + 'a\<close>: \<open>Inl\<close> is \<^verbatim>\<open>Err\<close>, \<open>Inr\<close> is \<^verbatim>\<open>Ok\<close>.
  \<^item> A \<^verbatim>\<open>&mut self\<close> method returns the pair of its result and the object it leaves behind,
    on the error paths too, so that ``the error leaves the object alone'' is a theorem.
  \<^item> A Rust string is its list of UTF-8 bytes (\<^typ>\<open>string\<close>), so \<^verbatim>\<open>len()\<close> is \<open>length\<close>.
  \<^item> An instant is its number of nanoseconds since the epoch; a duration is a number of
    nanoseconds. chrono's range limits are not modelled.
  \<^item> An error message is a constructor of the component's message datatype that carries the
    interpolated values, one constructor per format string.
\<close>

named_theorems hort_defs \<open>definitions unfolded when an operation is executed symbolically\<close>
named_theorems hort_frame \<open>what an operation leaves unchanged\<close>

section \<open>Results and mutable state\<close>

type_synonym u8 = "8 word"
type_synonym u32 = "32 word"
type_synonym u64 = "64 word"
type_synonym uuid = "128 word"
type_synonym timestamp = int
type_synonym duration = int

datatype fetch_class = FetchMetadata | FetchManifest

record exclusion_candidate =
  cand_exclusion_id :: uuid
  cand_package_pattern :: "string option"

datatype 'm domain_error =
    NotFound string string
  | Conflict 'm
  | Contended 'm
  | Validation 'm
  | Forbidden 'm
  | Invariant 'm
  | InvalidState 'm
  | ManagedByConfiguration string string
  | CurationBlocked string uuid string
  | UpstreamBodyTooLarge fetch_class u64 u64
  | UpstreamMetadataInvalid
  | AmbiguousExclusion string "exclusion_candidate list"

text \<open>The \<^verbatim>\<open>?\<close> operator.\<close>

definition and_then :: "'e + 'a \<Rightarrow> ('a \<Rightarrow> 'e + 'b) \<Rightarrow> 'e + 'b" where
  "and_then r f = (case r of Inl e \<Rightarrow> Inl e | Inr a \<Rightarrow> f a)"

lemma and_then_simps [simp]:
  "and_then (Inl e) f = Inl e"
  "and_then (Inr a) f = f a"
  by (simp_all add: and_then_def)

lemma and_then_Inr_iff [simp]:
  "and_then r f = Inr b \<longleftrightarrow> (\<exists>a. r = Inr a \<and> f a = Inr b)"
  by (cases r) auto

lemma and_then_assoc: "and_then (and_then r f) g = and_then r (\<lambda>x. and_then (f x) g)"
  by (cases r) auto

definition is_ok :: "'e + 'a \<Rightarrow> bool" where
  "is_ok r = (case r of Inl _ \<Rightarrow> False | Inr _ \<Rightarrow> True)"

lemma is_ok_simps [simp]: "is_ok (Inl e) = False" "is_ok (Inr a) = True"
  by (simp_all add: is_ok_def)

lemma is_ok_iff: "is_ok r \<longleftrightarrow> (\<exists>a. r = Inr a)"
  by (cases r) auto

text \<open>A \<^verbatim>\<open>for\<close> loop whose body threads a state and may leave through \<^verbatim>\<open>?\<close>.\<close>

fun try_fold :: "('s \<Rightarrow> 'x \<Rightarrow> 'e + 's) \<Rightarrow> 's \<Rightarrow> 'x list \<Rightarrow> 'e + 's" where
  "try_fold f s [] = Inr s"
| "try_fold f s (x # xs) = and_then (f s x) (\<lambda>s'. try_fold f s' xs)"

lemma try_fold_append:
  "try_fold f s (xs @ ys) = and_then (try_fold f s xs) (\<lambda>s'. try_fold f s' ys)"
  by (induction xs arbitrary: s) (simp_all add: and_then_assoc)

lemma try_fold_invariant:
  assumes "try_fold f s xs = Inr s'" and "P s"
    and "\<And>a x b. x \<in> set xs \<Longrightarrow> P a \<Longrightarrow> f a x = Inr b \<Longrightarrow> P b"
  shows "P s'"
  using assms
proof (induction xs arbitrary: s)
  case (Cons x xs)
  from Cons.prems(1) obtain s1 where s1: "f s x = Inr s1" "try_fold f s1 xs = Inr s'"
    by auto
  have "P s1" using Cons.prems(3) [OF _ Cons.prems(2) s1(1)] by simp
  show ?case
    by (rule Cons.IH [OF s1(2) \<open>P s1\<close>]) (use Cons.prems(3) in auto)
qed simp

text \<open>\<^verbatim>\<open>Iterator::min_by\<close>: the first of the smallest elements.\<close>

fun min_by :: "('a \<Rightarrow> 'a \<Rightarrow> bool) \<Rightarrow> 'a list \<Rightarrow> 'a option" where
  "min_by lt [] = None"
| "min_by lt (x # xs) = Some (foldl (\<lambda>best y. if lt y best then y else best) x xs)"

lemma foldl_min_by:
  assumes "\<And>a. \<not> lt a a" and "\<And>a b c. lt a b \<Longrightarrow> lt b c \<Longrightarrow> lt a c"
    and "\<And>a b c. lt a b \<Longrightarrow> lt a c \<or> lt c b"
  shows "foldl (\<lambda>best y. if lt y best then y else best) x xs \<in> set (x # xs) \<and>
    (\<forall>y\<in>set (x # xs). \<not> lt y (foldl (\<lambda>best y. if lt y best then y else best) x xs))"
proof (induction xs arbitrary: x)
  case (Cons y ys)
  define m where "m = foldl (\<lambda>best y. if lt y best then y else best) (if lt y x then y else x) ys"
  have m: "m \<in> set ((if lt y x then y else x) # ys)" "\<forall>z\<in>set ((if lt y x then y else x) # ys). \<not> lt z m"
    using Cons.IH [of "if lt y x then y else x"] by (simp_all add: m_def)
  have "\<not> lt x m" "\<not> lt y m"
    using m(2) assms(2) [of y x m] assms(3) [of y m x] by (auto split: if_splits)
  with m show ?case by (auto simp: m_def split: if_splits)
qed (simp add: assms(1))

text \<open>A loop of checks: every element passes, or the first failure is the result.\<close>

fun check_each :: "('x \<Rightarrow> 'e + unit) \<Rightarrow> 'x list \<Rightarrow> 'e + unit" where
  "check_each f [] = Inr ()"
| "check_each f (x # xs) = and_then (f x) (\<lambda>_. check_each f xs)"

lemma check_each_ok: "is_ok (check_each f xs) \<longleftrightarrow> (\<forall>x\<in>set xs. is_ok (f x))"
proof (induction xs)
  case (Cons a xs)
  then show ?case by (cases "f a") auto
qed simp

lemma check_each_cong [fundef_cong]:
  "xs = ys \<Longrightarrow> (\<And>x. x \<in> set ys \<Longrightarrow> f x = g x) \<Longrightarrow> check_each f xs = check_each g ys"
  by (induction xs arbitrary: ys) (auto simp: and_then_def)

section \<open>Machine integers and instants\<close>


definition i64_max :: int where "i64_max = 9223372036854775807"
definition i64_min :: int where "i64_min = - 9223372036854775808"
definition i32_max :: int where "i32_max = 2147483647"
definition i32_min :: int where "i32_min = - 2147483648"

definition sat_i64 :: "int \<Rightarrow> int" where
  "sat_i64 x = max i64_min (min i64_max x)"

definition saturating_mul_i64 :: "int \<Rightarrow> int \<Rightarrow> int" where
  "saturating_mul_i64 a b = sat_i64 (a * b)"

lemma sat_i64_bounds: "i64_min \<le> sat_i64 x \<and> sat_i64 x \<le> i64_max"
  by (simp add: sat_i64_def i64_min_def i64_max_def)

lemma sat_i64_id: "i64_min \<le> x \<Longrightarrow> x \<le> i64_max \<Longrightarrow> sat_i64 x = x"
  by (simp add: sat_i64_def)

lemma sat_i64_mono: "x \<le> y \<Longrightarrow> sat_i64 x \<le> sat_i64 y"
  by (simp add: sat_i64_def)

definition nanos_per_sec :: int where "nanos_per_sec = 1000000000"

text \<open>\<^verbatim>\<open>TimeDelta::num_seconds\<close>: whole seconds, truncated towards zero.\<close>

definition num_seconds :: "duration \<Rightarrow> int" where
  "num_seconds d = (if 0 \<le> d then d div nanos_per_sec else - ((- d) div nanos_per_sec))"

lemma num_seconds_mono: "d \<le> d' \<Longrightarrow> num_seconds d \<le> num_seconds d'"
proof -
  assume le: "d \<le> d'"
  have neg: "num_seconds x \<le> 0" if "x < 0" for x
    using that by (simp add: num_seconds_def nanos_per_sec_def)
  have pos: "0 \<le> num_seconds x" if "0 \<le> x" for x
    using that by (simp add: num_seconds_def nanos_per_sec_def pos_imp_zdiv_nonneg_iff)
  show "num_seconds d \<le> num_seconds d'"
  proof (cases "0 \<le> d")
    case True
    with le show ?thesis by (simp add: num_seconds_def nanos_per_sec_def zdiv_mono1)
  next
    case False
    show ?thesis
    proof (cases "0 \<le> d'")
      case True
      with False show ?thesis using neg [of d] pos [of d'] by simp
    next
      case d': False
      with le False show ?thesis by (simp add: num_seconds_def nanos_per_sec_def zdiv_mono1)
    qed
  qed
qed

text \<open>The \<^verbatim>\<open>to_be_bytes\<close> of the integer types, at \<open>n\<close> bytes.\<close>

fun be_bytes :: "nat \<Rightarrow> nat \<Rightarrow> string" where
  "be_bytes 0 x = []"
| "be_bytes (Suc n) x = be_bytes n (x div 256) @ [char_of (x mod 256)]"

lemma length_be_bytes [simp]: "length (be_bytes n x) = n"
  by (induction n arbitrary: x) simp_all

section \<open>UTF-8 strings\<close>

definition byte_of :: "char \<Rightarrow> nat" where "byte_of c = of_char c"

definition char_to_lower :: "char \<Rightarrow> char" where
  "char_to_lower c = (if 65 \<le> byte_of c \<and> byte_of c \<le> 90 then char_of (byte_of c + 32) else c)"

definition char_to_upper :: "char \<Rightarrow> char" where
  "char_to_upper c = (if 97 \<le> byte_of c \<and> byte_of c \<le> 122 then char_of (byte_of c - 32) else c)"

definition to_ascii_lowercase :: "string \<Rightarrow> string" where
  "to_ascii_lowercase s = map char_to_lower s"

definition to_ascii_uppercase :: "string \<Rightarrow> string" where
  "to_ascii_uppercase s = map char_to_upper s"

definition eq_ignore_ascii_case :: "string \<Rightarrow> string \<Rightarrow> bool" where
  "eq_ignore_ascii_case a b \<longleftrightarrow> to_ascii_lowercase a = to_ascii_lowercase b"

definition is_ascii :: "string \<Rightarrow> bool" where
  "is_ascii s = list_all (\<lambda>c. byte_of c < 128) s"

text \<open>
  \<^verbatim>\<open>str::to_lowercase\<close> and \<^verbatim>\<open>str::to_uppercase\<close> are the ASCII mappings on ASCII strings;
  on any other string they consult Unicode's case tables, which are the parameter \<open>uni\<close>.
\<close>

definition to_lowercase :: "(string \<Rightarrow> string) \<Rightarrow> string \<Rightarrow> string" where
  "to_lowercase uni s = (if is_ascii s then to_ascii_lowercase s else uni s)"

definition to_uppercase :: "(string \<Rightarrow> string) \<Rightarrow> string \<Rightarrow> string" where
  "to_uppercase uni s = (if is_ascii s then to_ascii_uppercase s else uni s)"

lemma char_to_lower_idem: "char_to_lower (char_to_lower c) = char_to_lower c"
  by (simp add: char_to_lower_def byte_of_def)

lemma to_ascii_lowercase_idem [simp]:
  "to_ascii_lowercase (to_ascii_lowercase s) = to_ascii_lowercase s"
  by (simp add: to_ascii_lowercase_def char_to_lower_idem)

lemma length_to_ascii_lowercase [simp]: "length (to_ascii_lowercase s) = length s"
  by (simp add: to_ascii_lowercase_def)

lemma eq_ignore_ascii_case_refl [simp]: "eq_ignore_ascii_case s s"
  by (simp add: eq_ignore_ascii_case_def)

lemma eq_ignore_ascii_case_sym: "eq_ignore_ascii_case a b \<longleftrightarrow> eq_ignore_ascii_case b a"
  by (auto simp: eq_ignore_ascii_case_def)

lemma is_ascii_lower: "is_ascii s \<Longrightarrow> is_ascii (to_ascii_lowercase s)"
  by (auto simp: is_ascii_def to_ascii_lowercase_def list.pred_map char_to_lower_def byte_of_def
      elim!: list.pred_mono_strong)

text \<open>
  \<^verbatim>\<open>str::trim\<close> strips the code points with the Unicode property White\_Space from both ends;
  these are their UTF-8 encodings. UTF-8 is self-synchronising, so stripping an encoding at the
  end of a well-formed string strips a code point.
\<close>

definition whitespace_encodings :: "string list" where
  "whitespace_encodings =
     [[CHR 0x09], [CHR 0x0A], [CHR 0x0B], [CHR 0x0C], [CHR 0x0D], [CHR 0x20],
      [CHR 0xC2, CHR 0x85], [CHR 0xC2, CHR 0xA0], [CHR 0xE1, CHR 0x9A, CHR 0x80],
      [CHR 0xE2, CHR 0x80, CHR 0x80], [CHR 0xE2, CHR 0x80, CHR 0x81],
      [CHR 0xE2, CHR 0x80, CHR 0x82], [CHR 0xE2, CHR 0x80, CHR 0x83],
      [CHR 0xE2, CHR 0x80, CHR 0x84], [CHR 0xE2, CHR 0x80, CHR 0x85],
      [CHR 0xE2, CHR 0x80, CHR 0x86], [CHR 0xE2, CHR 0x80, CHR 0x87],
      [CHR 0xE2, CHR 0x80, CHR 0x88], [CHR 0xE2, CHR 0x80, CHR 0x89],
      [CHR 0xE2, CHR 0x80, CHR 0x8A], [CHR 0xE2, CHR 0x80, CHR 0xA8],
      [CHR 0xE2, CHR 0x80, CHR 0xA9], [CHR 0xE2, CHR 0x80, CHR 0xAF],
      [CHR 0xE2, CHR 0x81, CHR 0x9F], [CHR 0xE3, CHR 0x80, CHR 0x80]]"

fun is_prefix_of :: "string \<Rightarrow> string \<Rightarrow> bool" where
  "is_prefix_of [] s = True"
| "is_prefix_of (c # cs) [] = False"
| "is_prefix_of (c # cs) (d # ds) = (c = d \<and> is_prefix_of cs ds)"

function strip_leading :: "string list \<Rightarrow> string \<Rightarrow> string" where
  "strip_leading ws s =
     (case find (\<lambda>w. w \<noteq> [] \<and> is_prefix_of w s) ws of
        None \<Rightarrow> s
      | Some w \<Rightarrow> strip_leading ws (drop (length w) s))"
  by pat_completeness auto
termination
proof (relation "measure (\<lambda>(ws, s). length s)")
  fix ws s w
  assume "find (\<lambda>w. w \<noteq> [] \<and> is_prefix_of w s) ws = Some w"
  then have "w \<noteq> [] \<and> is_prefix_of w s"
    by (auto simp: find_Some_iff)
  then have "w \<noteq> []" and "s \<noteq> []"
    by (cases w; cases s; simp)+
  then show "((ws, drop (length w) s), ws, s) \<in> measure (\<lambda>(ws, s). length s)"
    by (cases s; cases w) auto
qed simp

declare strip_leading.simps [simp del]

definition trim :: "string \<Rightarrow> string" where
  "trim s = rev (strip_leading (map rev whitespace_encodings)
                   (rev (strip_leading whitespace_encodings s)))"

text \<open>\<^verbatim>\<open>char::is_control\<close> over a string: a C0 control, DEL, or a C1 control.\<close>

fun has_control :: "string \<Rightarrow> bool" where
  "has_control [] = False"
| "has_control (c # cs) =
     (byte_of c < 32 \<or> byte_of c = 127
      \<or> (byte_of c = 194 \<and> cs \<noteq> [] \<and> 128 \<le> byte_of (hd cs) \<and> byte_of (hd cs) < 160)
      \<or> has_control cs)"

section \<open>Single-precision floats\<close>

text \<open>
  An \<^verbatim>\<open>f32\<close> is its bit pattern. The comparison operators are false on NaN and identify the
  two zeros; \<^verbatim>\<open>total_cmp\<close> orders all bit patterns.
\<close>

type_synonym f32 = u32

definition f32_negative :: "f32 \<Rightarrow> bool" where
  "f32_negative x \<longleftrightarrow> 2147483648 \<le> unat x"

definition f32_magnitude :: "f32 \<Rightarrow> nat" where
  "f32_magnitude x = unat x mod 2147483648"

definition f32_is_finite :: "f32 \<Rightarrow> bool" where
  "f32_is_finite x \<longleftrightarrow> f32_magnitude x < 2139095040"

definition f32_is_nan :: "f32 \<Rightarrow> bool" where
  "f32_is_nan x \<longleftrightarrow> 2139095040 < f32_magnitude x"

definition f32_key :: "f32 \<Rightarrow> int" where
  "f32_key x = (if f32_negative x then - int (f32_magnitude x) else int (f32_magnitude x))"

definition f32_total_key :: "f32 \<Rightarrow> int" where
  "f32_total_key x = (if f32_negative x then - 1 - int (f32_magnitude x) else int (f32_magnitude x))"

definition f32_le :: "f32 \<Rightarrow> f32 \<Rightarrow> bool" where
  "f32_le x y \<longleftrightarrow> \<not> f32_is_nan x \<and> \<not> f32_is_nan y \<and> f32_key x \<le> f32_key y"

definition f32_lt :: "f32 \<Rightarrow> f32 \<Rightarrow> bool" where
  "f32_lt x y \<longleftrightarrow> \<not> f32_is_nan x \<and> \<not> f32_is_nan y \<and> f32_key x < f32_key y"

definition f32_zero :: f32 where "f32_zero = 0"
definition f32_ten :: f32 where "f32_ten = 0x41200000"
definition f32_neg_infinity :: f32 where "f32_neg_infinity = 0xFF800000"

text \<open>\<^verbatim>\<open>f32::max\<close>: the other operand when one is NaN.\<close>

definition f32_max :: "f32 \<Rightarrow> f32 \<Rightarrow> f32" where
  "f32_max x y = (if f32_is_nan x then y else if f32_is_nan y then x
                  else if f32_key x < f32_key y then y else x)"

lemmas f32_defs = f32_negative_def f32_magnitude_def f32_is_finite_def f32_is_nan_def
  f32_key_def f32_total_key_def f32_le_def f32_lt_def

lemma f32_total_key_inj: "f32_total_key x = f32_total_key y \<Longrightarrow> x = y"
proof -
  assume eq: "f32_total_key x = f32_total_key y"
  have split: "unat z = f32_magnitude z + (if f32_negative z then 2147483648 else 0)" for z :: f32
    using unsigned_less [of z, where 'a = nat] by (auto simp: f32_defs le_mod_geq)
  have "f32_negative x \<longleftrightarrow> f32_negative y" and "f32_magnitude x = f32_magnitude y"
    using eq by (auto simp: f32_total_key_def split: if_splits)
  then have "unat x = unat y" by (simp add: split)
  then show "x = y" by (rule unsigned_word_eqI)
qed

section \<open>JSON values\<close>

datatype json_number = PosInt u64 | NegInt int | Float u64

datatype json =
    JNull
  | JBool bool
  | JNumber json_number
  | JString string
  | JArray "json list"
  | JObject "(string \<times> json) list"

definition json_is_null :: "json \<Rightarrow> bool" where
  "json_is_null v = (case v of JNull \<Rightarrow> True | _ \<Rightarrow> False)"

definition json_as_bool :: "json \<Rightarrow> bool option" where
  "json_as_bool v = (case v of JBool b \<Rightarrow> Some b | _ \<Rightarrow> None)"

definition json_as_str :: "json \<Rightarrow> string option" where
  "json_as_str v = (case v of JString s \<Rightarrow> Some s | _ \<Rightarrow> None)"

definition json_as_array :: "json \<Rightarrow> json list option" where
  "json_as_array v = (case v of JArray xs \<Rightarrow> Some xs | _ \<Rightarrow> None)"

definition json_as_object :: "json \<Rightarrow> (string \<times> json) list option" where
  "json_as_object v = (case v of JObject m \<Rightarrow> Some m | _ \<Rightarrow> None)"

definition json_as_i64 :: "json \<Rightarrow> int option" where
  "json_as_i64 v =
     (case v of
        JNumber (PosInt n) \<Rightarrow> (if int (unat n) \<le> i64_max then Some (int (unat n)) else None)
      | JNumber (NegInt i) \<Rightarrow> Some i
      | _ \<Rightarrow> None)"

definition json_of_i64 :: "int \<Rightarrow> json" where
  "json_of_i64 i = JNumber (if i < 0 then NegInt i else PosInt (word_of_int i))"

definition json_get :: "json \<Rightarrow> string \<Rightarrow> json option" where
  "json_get v k = (case v of JObject m \<Rightarrow> map_of m k | _ \<Rightarrow> None)"

lemma json_i64_roundtrip:
  "i64_min \<le> i \<Longrightarrow> i \<le> i64_max \<Longrightarrow> json_as_i64 (json_of_i64 i) = Some i"
  by (auto simp: json_as_i64_def json_of_i64_def i64_max_def unsigned_of_int take_bit_int_eq_self)

section \<open>Shared interfaces\<close>

subsection \<open>Display and FromStr pairs\<close>

text \<open>
  The \<^verbatim>\<open>Display\<close> and \<^verbatim>\<open>FromStr\<close> implementations of an enum: \<open>show_wire\<close> writes the wire
  token, \<open>parse_wire\<close> lowercases its input and matches it against the tokens.
\<close>

locale wire_enum =
  fixes show_wire :: "'a \<Rightarrow> string"
    and parse_wire :: "(string \<Rightarrow> string) \<Rightarrow> string \<Rightarrow> 'e + 'a"
  assumes show_lower: "is_ascii (show_wire x) \<and> to_ascii_lowercase (show_wire x) = show_wire x"
    and parse_iff: "parse_wire uni s = Inr x \<longleftrightarrow> to_lowercase uni s = show_wire x"
begin

lemma parse_show: "parse_wire uni (show_wire x) = Inr x"
  using show_lower [of x] by (simp add: parse_iff to_lowercase_def)

lemma show_inj: "show_wire x = show_wire y \<Longrightarrow> x = y"
  by (metis parse_show sum.inject(2))

lemma parse_ignores_case:
  "is_ascii s \<Longrightarrow> eq_ignore_ascii_case s (show_wire x) \<Longrightarrow> parse_wire uni s = Inr x"
  using show_lower [of x] by (simp add: parse_iff to_lowercase_def eq_ignore_ascii_case_def)

lemma parse_normalises: "parse_wire uni s = Inr x \<Longrightarrow> show_wire x = to_lowercase uni s"
  by (simp add: parse_iff)

end

subsection \<open>Choosing the higher-ranked of two values\<close>

locale ranked_choice =
  fixes rank :: "'a \<Rightarrow> nat"
    and pick :: "'a \<Rightarrow> 'a \<Rightarrow> 'a"
  assumes pick_def: "pick x y = (if rank y \<le> rank x then x else y)"
    and rank_inj: "rank x = rank y \<Longrightarrow> x = y"
begin

lemma rank_pick: "rank (pick x y) = max (rank x) (rank y)"
  by (simp add: pick_def)

lemma pick_commute: "pick x y = pick y x"
  by (rule rank_inj) (simp add: rank_pick max.commute)

lemma pick_assoc: "pick (pick x y) z = pick x (pick y z)"
  by (rule rank_inj) (simp add: rank_pick max.assoc)

lemma pick_idem: "pick x x = x"
  by (simp add: pick_def)

lemma rank_fold: "rank (foldl pick x xs) = Max (rank ` set (x # xs))"
proof (induction xs arbitrary: x)
  case (Cons y ys)
  have "rank (foldl pick x (y # ys)) = Max (insert (max (rank x) (rank y)) (rank ` set ys))"
    using Cons.IH by (simp add: rank_pick)
  also have "\<dots> = Max (rank ` set (x # y # ys))"
    by (cases "ys = []") (simp_all add: max.assoc)
  finally show ?case .
qed simp

lemma fold_in_set: "foldl pick x xs \<in> set (x # xs)"
proof (induction xs arbitrary: x)
  case (Cons y ys)
  have "pick x y = x \<or> pick x y = y" by (simp add: pick_def)
  then show ?case using Cons.IH [of "pick x y"] by auto
qed simp

lemma fold_set_determined:
  "set (x # xs) = set (y # ys) \<Longrightarrow> foldl pick x xs = foldl pick y ys"
  by (rule rank_inj) (simp only: rank_fold)

end

subsection \<open>Escalating an action\<close>

text \<open>
  An accumulator that only ever rises: each new observation lifts the action to at least the
  level the observation carries.
\<close>

locale escalation =
  fixes level :: "'a \<Rightarrow> nat"
    and weight :: "'b \<Rightarrow> nat"
    and escalate :: "'a \<Rightarrow> 'b \<Rightarrow> 'a"
  assumes level_escalate: "level (escalate a b) = max (level a) (weight b)"
begin

lemma escalate_increasing: "level a \<le> level (escalate a b)"
  by (simp add: level_escalate)

lemma level_foldl: "level (foldl escalate a bs) = Max (insert (level a) (weight ` set bs))"
proof (induction bs arbitrary: a)
  case (Cons b bs)
  have "level (foldl escalate a (b # bs)) = Max (insert (max (level a) (weight b)) (weight ` set bs))"
    using Cons.IH by (simp add: level_escalate)
  also have "\<dots> = Max (insert (level a) (weight ` set (b # bs)))"
    by (cases "bs = []") (simp_all add: max.assoc)
  finally show ?case .
qed simp

lemma level_foldl_ge_iff:
  "k \<le> level (foldl escalate a bs) \<longleftrightarrow> k \<le> level a \<or> (\<exists>b\<in>set bs. k \<le> weight b)"
  by (simp add: level_foldl Max_ge_iff)

end

section \<open>Integers as text\<close>

text \<open>The decimal digits \<^verbatim>\<open>format!\<close> prints for an integer, and \<^verbatim>\<open>str::parse\<close> reading them back.\<close>

fun decimal :: "nat \<Rightarrow> string" where
  "decimal n = (if n < 10 then [char_of (48 + n)] else decimal (n div 10) @ [char_of (48 + n mod 10)])"

declare decimal.simps [simp del]

definition decimal_int :: "int \<Rightarrow> string" where
  "decimal_int n = (if n < 0 then CHR ''-'' # decimal (nat (- n)) else decimal (nat n))"

definition push_digit :: "nat option \<Rightarrow> char \<Rightarrow> nat option" where
  "push_digit acc c =
     (case acc of
        None \<Rightarrow> None
      | Some a \<Rightarrow> let d = of_char c :: nat in if 48 \<le> d \<and> d \<le> 57 then Some (a * 10 + (d - 48)) else None)"

definition parse_digits :: "string \<Rightarrow> nat option" where
  "parse_digits s = (if s = [] then None else foldl push_digit (Some 0) s)"

definition parse_u64 :: "string \<Rightarrow> u64 option" where
  "parse_u64 s =
     (case parse_digits (case s of c # r \<Rightarrow> if c = CHR ''+'' then r else s | [] \<Rightarrow> []) of
        None \<Rightarrow> None
      | Some n \<Rightarrow> if n < 2 ^ 64 then Some (of_nat n) else None)"

definition parse_i64 :: "string \<Rightarrow> int option" where
  "parse_i64 s =
     (case s of
        c # r \<Rightarrow>
          if c = CHR ''-'' then
            (case parse_digits r of None \<Rightarrow> None | Some n \<Rightarrow> if n \<le> 2 ^ 63 then Some (- int n) else None)
          else
            (case parse_digits (if c = CHR ''+'' then r else s) of
               None \<Rightarrow> None
             | Some n \<Rightarrow> if n < 2 ^ 63 then Some (int n) else None)
      | [] \<Rightarrow> None)"

lemma decimal_small: "n < 10 \<Longrightarrow> decimal n = [char_of (48 + n)]"
  by (simp add: decimal.simps)

lemma decimal_large: "\<not> n < 10 \<Longrightarrow> decimal n = decimal (n div 10) @ [char_of (48 + n mod 10)]"
  by (subst decimal.simps) simp

lemma decimal_not_nil [simp]: "decimal n \<noteq> []"
  by (cases "n < 10") (simp_all add: decimal_small decimal_large)

lemma push_digit_char [simp]: "d < 10 \<Longrightarrow> push_digit (Some a) (char_of (48 + d)) = Some (a * 10 + d)"
  by (simp add: push_digit_def)

lemma parse_decimal [simp]: "parse_digits (decimal n) = Some n"
proof -
  have "foldl push_digit (Some 0) (decimal n) = Some n"
  proof (induction n rule: decimal.induct)
    case (1 n)
    show ?case using 1 by (cases "n < 10") (simp_all add: decimal_small decimal_large)
  qed
  then show ?thesis by (simp add: parse_digits_def)
qed

lemma decimal_inj: "decimal m = decimal n \<Longrightarrow> m = n"
  by (metis option.inject parse_decimal)

lemma decimal_digits: "c \<in> set (decimal n) \<Longrightarrow> 48 \<le> (of_char c :: nat) \<and> (of_char c :: nat) \<le> 57"
proof (induction n rule: decimal.induct)
  case (1 n)
  then show ?case by (cases "n < 10") (auto simp: decimal_small decimal_large)
qed

lemma decimal_no_dash: "CHR ''-'' \<notin> set (decimal n)"
  using decimal_digits [of "CHR ''-''" n] by auto

lemma decimal_cases:
  obtains c r where "decimal n = c # r" and "c \<noteq> CHR ''+''" and "c \<noteq> CHR ''-''" and "parse_digits (c # r) = Some n"
proof (cases "decimal n")
  case (Cons c r)
  have "48 \<le> (of_char c :: nat)" using decimal_digits [of c n] Cons by simp
  then have "c \<noteq> CHR ''+''" "c \<noteq> CHR ''-''" by auto
  moreover have "parse_digits (c # r) = Some n" using parse_decimal [of n] Cons by simp
  ultimately show thesis using that Cons by blast
qed simp

lemma parse_u64_decimal [simp]:
  assumes "n < 2 ^ 64"
  shows "parse_u64 (decimal n) = Some (of_nat n)"
proof -
  obtain c r where "decimal n = c # r" "c \<noteq> CHR ''+''" "parse_digits (c # r) = Some n" by (rule decimal_cases)
  then show ?thesis using assms by (simp add: parse_u64_def)
qed

lemma parse_i64_decimal_int:
  assumes "- (2 ^ 63) \<le> n" and "n < 2 ^ 63"
  shows "parse_i64 (decimal_int n) = Some n"
proof (cases "n < 0")
  case True
  then show ?thesis using assms by (simp add: decimal_int_def parse_i64_def nat_le_iff)
next
  case False
  obtain c r where "decimal (nat n) = c # r" "c \<noteq> CHR ''+''" "c \<noteq> CHR ''-''" "parse_digits (c # r) = Some (nat n)"
    by (rule decimal_cases)
  then show ?thesis using False assms by (simp add: decimal_int_def parse_i64_def nat_less_iff)
qed

section \<open>Bounded retries\<close>

text \<open>
  The shape of a retry loop: an attempt is made at a configuration, which counts the attempts; a
  retryable outcome leads to the next configuration. The law is the loop's own equation. The outcome
  is that of the last of at most \<open>attempts\<close> attempts, each but the last was retryable, and if the last
  one was, too, the budget is spent.
\<close>

locale bounded_retry =
  fixes run :: "nat \<Rightarrow> 'c \<Rightarrow> 'r" and counter :: "'c \<Rightarrow> nat" and attempt_at :: "'c \<Rightarrow> 'r"
    and retryable :: "'r \<Rightarrow> bool" and following :: "'c \<Rightarrow> 'c"
  assumes run_eq: "run attempts c =
      (if retryable (attempt_at c) \<and> counter c < attempts then run attempts (following c) else attempt_at c)"
    and counts: "counter (following c) = counter c + 1"
begin

lemma run_attempts:
  assumes "counter c \<le> attempts"
  shows "\<exists>k. counter c + k \<le> attempts \<and> run attempts c = attempt_at ((following ^^ k) c) \<and>
    (\<forall>i<k. retryable (attempt_at ((following ^^ i) c))) \<and>
    (retryable (attempt_at ((following ^^ k) c)) \<longrightarrow> counter c + k = attempts)"
  using assms
proof (induction "attempts - counter c" arbitrary: c)
  case 0
  then have "run attempts c = attempt_at c" by (subst run_eq) simp
  then show ?case using 0 by (intro exI [of _ 0]) simp
next
  case (Suc n)
  show ?case
  proof (cases "retryable (attempt_at c)")
    case False
    then have "run attempts c = attempt_at c" by (subst run_eq) simp
    then show ?thesis using Suc.prems False by (intro exI [of _ 0]) simp
  next
    case True
    have "n = attempts - counter (following c)" "counter (following c) \<le> attempts" using Suc.hyps(2) counts by simp_all
    from Suc.hyps(1) [OF this] obtain k where k: "counter c + Suc k \<le> attempts"
        "run attempts (following c) = attempt_at ((following ^^ Suc k) c)"
        "\<forall>i<k. retryable (attempt_at ((following ^^ Suc i) c))"
        "retryable (attempt_at ((following ^^ Suc k) c)) \<longrightarrow> counter c + Suc k = attempts"
      by (auto simp: counts funpow_swap1)
    have "retryable (attempt_at ((following ^^ i) c))" if "i < Suc k" for i
      using that k(3) True by (cases i) (simp_all del: funpow.simps(2))
    moreover have "run attempts c = run attempts (following c)" using True k(1) by (subst run_eq) simp
    ultimately show ?thesis using k by (intro exI [of _ "Suc k"]) (simp del: funpow.simps(2))
  qed
qed

end

end
