(* ===== verification/Quarantine_Transitions.thy ===== *)
theory Quarantine_Transitions
  imports Hort_Prelude
begin

text \<open>
  The quarantine status of an artifact (\<^verbatim>\<open>entities/artifact.rs\<close>) and the declared transition
  table of its lifecycle (\<^verbatim>\<open>entities/quarantine_transitions.rs\<close>): the exhaustive match
  \<^verbatim>\<open>classify\<close>, the row table \<^verbatim>\<open>QUARANTINE_TRANSITIONS\<close> with its first-match lookup
  \<^verbatim>\<open>allowed_targets\<close>, and the edge list of the rendered lifecycle graph. The rows' prose
  column \<^verbatim>\<open>required_triggers\<close> is documentation and is left out.

  The interface \<open>lifecycle_table\<close> states what the table promises a state machine that consults
  it; the aggregate of \<^verbatim>\<open>entities/artifact.rs\<close> instantiates it.
\<close>

section \<open>QuarantineStatus\<close>

datatype quarantine_status = QNone | Quarantined | Released | Rejected | ScanIndeterminate

datatype status_msg = UnknownQuarantineStatus string

fun quarantine_status_to_string :: "quarantine_status \<Rightarrow> string" where
  "quarantine_status_to_string QNone = ''none''"
| "quarantine_status_to_string Quarantined = ''quarantined''"
| "quarantine_status_to_string Released = ''released''"
| "quarantine_status_to_string Rejected = ''rejected''"
| "quarantine_status_to_string ScanIndeterminate = ''scan_indeterminate''"

definition quarantine_status_from_str ::
    "(string \<Rightarrow> string) \<Rightarrow> string \<Rightarrow> status_msg domain_error + quarantine_status" where
  "quarantine_status_from_str uni s =
     (let t = to_lowercase uni s in
      if t = ''none'' then Inr QNone
      else if t = ''quarantined'' then Inr Quarantined
      else if t = ''released'' then Inr Released
      else if t = ''rejected'' then Inr Rejected
      else if t = ''scan_indeterminate'' then Inr ScanIndeterminate
      else Inl (Validation (UnknownQuarantineStatus s)))"

fun status_rank :: "quarantine_status \<Rightarrow> nat" where
  "status_rank Rejected = 4"
| "status_rank Quarantined = 3"
| "status_rank ScanIndeterminate = 2"
| "status_rank Released = 1"
| "status_rank QNone = 0"

definition worst_of :: "quarantine_status \<Rightarrow> quarantine_status \<Rightarrow> quarantine_status" where
  "worst_of self other = (if status_rank self \<ge> status_rank other then self else other)"

fun is_terminal :: "quarantine_status \<Rightarrow> bool" where
  "is_terminal Rejected = True"
| "is_terminal ScanIndeterminate = True"
| "is_terminal QNone = False"
| "is_terminal Quarantined = False"
| "is_terminal Released = False"

definition all_statuses :: "quarantine_status list" where
  "all_statuses = [QNone, Quarantined, Released, Rejected, ScanIndeterminate]"

section \<open>QuarantineEvent\<close>

datatype quarantine_event =
    EvQuarantine
  | EvRecordCleanScan
  | EvRejectFromScan
  | EvRejectFromRetroactiveCuration
  | EvRejectFromScanPolicyRetroactive
  | EvBlockByCurator
  | EvTombstoneFromCorruption
  | EvRelease
  | EvCascadeProvenanceClearance
  | EvFailScanIndeterminate
  | EvReEvaluate
  | EvRepairProvenanceMisrejection
  | EvCompleteProvenance

definition all_quarantine_events :: "quarantine_event list" where
  "all_quarantine_events =
     [EvQuarantine, EvRecordCleanScan, EvRejectFromScan, EvRejectFromRetroactiveCuration,
      EvRejectFromScanPolicyRetroactive, EvBlockByCurator, EvTombstoneFromCorruption, EvRelease,
      EvCascadeProvenanceClearance, EvFailScanIndeterminate, EvReEvaluate, EvCompleteProvenance,
      EvRepairProvenanceMisrejection]"

fun event_label :: "quarantine_event \<Rightarrow> string" where
  "event_label EvQuarantine = ''quarantine''"
| "event_label EvRecordCleanScan = ''record_clean_scan''"
| "event_label EvRejectFromScan = ''reject_from_scan''"
| "event_label EvRejectFromRetroactiveCuration = ''reject_from_retroactive_curation''"
| "event_label EvRejectFromScanPolicyRetroactive = ''reject_from_scan_policy_retroactive''"
| "event_label EvBlockByCurator = ''block_by_curator''"
| "event_label EvTombstoneFromCorruption = ''tombstone_from_corruption''"
| "event_label EvRelease = ''release''"
| "event_label EvCascadeProvenanceClearance = ''cascade_provenance_clearance''"
| "event_label EvFailScanIndeterminate = ''fail_scan_indeterminate''"
| "event_label EvReEvaluate = ''re_evaluate''"
| "event_label EvCompleteProvenance = ''complete_provenance''"
| "event_label EvRepairProvenanceMisrejection = ''repair_provenance_misrejection''"

section \<open>Classification of the cells\<close>

datatype cell = CellForbidden | CellAllowed "quarantine_status list"

definition classify :: "quarantine_event \<Rightarrow> quarantine_status \<Rightarrow> cell" where
  "classify event state =
    (case event of
       EvQuarantine \<Rightarrow>
         (case state of QNone \<Rightarrow> CellAllowed [Quarantined] | _ \<Rightarrow> CellForbidden)
     | EvRecordCleanScan \<Rightarrow>
         (case state of
            QNone \<Rightarrow> CellAllowed [QNone]
          | Quarantined \<Rightarrow> CellAllowed [Quarantined]
          | _ \<Rightarrow> CellForbidden)
     | EvRejectFromScan \<Rightarrow>
         (case state of
            QNone \<Rightarrow> CellAllowed [Rejected]
          | Quarantined \<Rightarrow> CellAllowed [Rejected]
          | Released \<Rightarrow> CellAllowed [Rejected]
          | _ \<Rightarrow> CellForbidden)
     | EvRejectFromRetroactiveCuration \<Rightarrow>
         (case state of
            Quarantined \<Rightarrow> CellAllowed [Rejected]
          | Released \<Rightarrow> CellAllowed [Rejected]
          | _ \<Rightarrow> CellForbidden)
     | EvRejectFromScanPolicyRetroactive \<Rightarrow>
         (case state of
            Quarantined \<Rightarrow> CellAllowed [Quarantined, Rejected]
          | Released \<Rightarrow> CellAllowed [Released, Rejected]
          | _ \<Rightarrow> CellForbidden)
     | EvBlockByCurator \<Rightarrow>
         (case state of
            QNone \<Rightarrow> CellAllowed [Rejected]
          | Quarantined \<Rightarrow> CellAllowed [Rejected]
          | Released \<Rightarrow> CellAllowed [Rejected]
          | _ \<Rightarrow> CellForbidden)
     | EvTombstoneFromCorruption \<Rightarrow>
         (case state of
            QNone \<Rightarrow> CellAllowed [Rejected]
          | Quarantined \<Rightarrow> CellAllowed [Rejected]
          | Released \<Rightarrow> CellAllowed [Rejected]
          | ScanIndeterminate \<Rightarrow> CellAllowed [Rejected]
          | Rejected \<Rightarrow> CellForbidden)
     | EvRelease \<Rightarrow>
         (case state of
            Quarantined \<Rightarrow> CellAllowed [Released]
          | ScanIndeterminate \<Rightarrow> CellAllowed [Released]
          | Rejected \<Rightarrow> CellAllowed [Released]
          | _ \<Rightarrow> CellForbidden)
     | EvCascadeProvenanceClearance \<Rightarrow>
         (case state of Quarantined \<Rightarrow> CellAllowed [Quarantined] | _ \<Rightarrow> CellForbidden)
     | EvFailScanIndeterminate \<Rightarrow>
         (case state of
            QNone \<Rightarrow> CellAllowed [ScanIndeterminate]
          | Quarantined \<Rightarrow> CellAllowed [ScanIndeterminate]
          | _ \<Rightarrow> CellForbidden)
     | EvReEvaluate \<Rightarrow>
         (case state of Rejected \<Rightarrow> CellAllowed [Quarantined, Released] | _ \<Rightarrow> CellForbidden)
     | EvCompleteProvenance \<Rightarrow>
         (case state of
            QNone \<Rightarrow> CellAllowed [QNone, Rejected]
          | Quarantined \<Rightarrow> CellAllowed [Quarantined, Rejected]
          | Released \<Rightarrow> CellAllowed [Released, Rejected]
          | Rejected \<Rightarrow> CellAllowed [Rejected]
          | ScanIndeterminate \<Rightarrow> CellAllowed [ScanIndeterminate, Rejected])
     | EvRepairProvenanceMisrejection \<Rightarrow>
         (case state of Rejected \<Rightarrow> CellAllowed [Quarantined] | _ \<Rightarrow> CellForbidden))"

section \<open>The row table and its lookup\<close>

record transition_row =
  row_event :: quarantine_event
  row_from :: quarantine_status
  row_to :: "quarantine_status list"

definition row :: "quarantine_event \<Rightarrow> quarantine_status \<Rightarrow> quarantine_status list \<Rightarrow> transition_row" where
  "row e f t = \<lparr>row_event = e, row_from = f, row_to = t\<rparr>"

definition quarantine_transitions :: "transition_row list" where
  "quarantine_transitions =
     [row EvQuarantine QNone [Quarantined],
      row EvRecordCleanScan QNone [QNone],
      row EvRecordCleanScan Quarantined [Quarantined],
      row EvRejectFromScan QNone [Rejected],
      row EvRejectFromScan Quarantined [Rejected],
      row EvRejectFromScan Released [Rejected],
      row EvRejectFromRetroactiveCuration Quarantined [Rejected],
      row EvRejectFromRetroactiveCuration Released [Rejected],
      row EvRejectFromScanPolicyRetroactive Quarantined [Quarantined, Rejected],
      row EvRejectFromScanPolicyRetroactive Released [Released, Rejected],
      row EvBlockByCurator QNone [Rejected],
      row EvBlockByCurator Quarantined [Rejected],
      row EvBlockByCurator Released [Rejected],
      row EvTombstoneFromCorruption QNone [Rejected],
      row EvTombstoneFromCorruption Quarantined [Rejected],
      row EvTombstoneFromCorruption Released [Rejected],
      row EvTombstoneFromCorruption ScanIndeterminate [Rejected],
      row EvRelease Quarantined [Released],
      row EvRelease ScanIndeterminate [Released],
      row EvRelease Rejected [Released],
      row EvCascadeProvenanceClearance Quarantined [Quarantined],
      row EvFailScanIndeterminate QNone [ScanIndeterminate],
      row EvFailScanIndeterminate Quarantined [ScanIndeterminate],
      row EvReEvaluate Rejected [Quarantined, Released],
      row EvCompleteProvenance QNone [QNone, Rejected],
      row EvCompleteProvenance Quarantined [Quarantined, Rejected],
      row EvCompleteProvenance Released [Released, Rejected],
      row EvCompleteProvenance Rejected [Rejected],
      row EvCompleteProvenance ScanIndeterminate [ScanIndeterminate, Rejected],
      row EvRepairProvenanceMisrejection Rejected [Quarantined]]"

definition allowed_targets ::
    "quarantine_event \<Rightarrow> quarantine_status \<Rightarrow> quarantine_status list option" where
  "allowed_targets event from =
     map_option row_to
       (find (\<lambda>r. row_event r = event \<and> row_from r = from) quarantine_transitions)"

section \<open>The edges of the rendered graph\<close>

text \<open>The edge loop of \<^verbatim>\<open>render_lifecycle_dot\<close>: source, target and label, self-loops skipped.\<close>

definition cell_edges ::
    "quarantine_event \<Rightarrow> quarantine_status \<Rightarrow> (quarantine_status \<times> quarantine_status \<times> string) list" where
  "cell_edges event from =
     (case classify event from of
        CellForbidden \<Rightarrow> []
      | CellAllowed targets \<Rightarrow>
          map (\<lambda>to. (from, to, event_label event)) (filter (\<lambda>to. to \<noteq> from) targets))"

definition lifecycle_edges :: "(quarantine_status \<times> quarantine_status \<times> string) list" where
  "lifecycle_edges =
     concat (map (\<lambda>event. concat (map (\<lambda>from. cell_edges event from) all_statuses))
       all_quarantine_events)"

section \<open>Lemmas\<close>

interpretation status_wire: wire_enum quarantine_status_to_string quarantine_status_from_str
proof unfold_locales
  show "is_ascii (quarantine_status_to_string x) \<and>
      to_ascii_lowercase (quarantine_status_to_string x) = quarantine_status_to_string x" for x
    by (cases x) (simp_all add: is_ascii_def to_ascii_lowercase_def char_to_lower_def byte_of_def)
  show "quarantine_status_from_str uni s = Inr x \<longleftrightarrow> to_lowercase uni s = quarantine_status_to_string x" for uni s x
    by (cases x) (auto simp: quarantine_status_from_str_def Let_def)
qed

interpretation worst: ranked_choice status_rank worst_of
proof unfold_locales
  show "worst_of x y = (if status_rank y \<le> status_rank x then x else y)" for x y
    by (simp add: worst_of_def)
  show "status_rank x = status_rank y \<Longrightarrow> x = y" for x y
    by (cases x; cases y) simp_all
qed

text \<open>The statuses a download may be served from.\<close>

definition servable :: "quarantine_status \<Rightarrow> bool" where
  "servable s \<longleftrightarrow> s = QNone \<or> s = Released"

lemma servable_rank: "servable s \<longleftrightarrow> status_rank s \<le> 1"
  by (cases s) (simp_all add: servable_def)

lemma worst_of_servable: "servable (foldl worst_of s ss) \<longleftrightarrow> (\<forall>x\<in>set (s # ss). servable x)"
  unfolding servable_rank worst.rank_fold by (subst Max_le_iff) auto

text \<open>The lookup, evaluated on every cell.\<close>

lemma allowed_targets_cells:
  "allowed_targets event from =
     (case classify event from of CellForbidden \<Rightarrow> None | CellAllowed ts \<Rightarrow> Some ts)"
  by (cases event; cases "from";
      simp add: allowed_targets_def quarantine_transitions_def row_def classify_def)

lemma in_all_statuses [simp]: "s \<in> set all_statuses"
  by (cases s) (simp_all add: all_statuses_def)

lemma in_all_quarantine_events [simp]: "e \<in> set all_quarantine_events"
  by (cases e) (simp_all add: all_quarantine_events_def)

lemma cell_edges_iff:
  "(a, b, l) \<in> set (cell_edges event from) \<longleftrightarrow>
     a = from \<and> b \<noteq> from \<and> l = event_label event \<and>
     (\<exists>ts. allowed_targets event from = Some ts \<and> b \<in> set ts)"
  by (auto simp: cell_edges_def allowed_targets_cells split: cell.split)

lemma lifecycle_edges_iff:
  "(a, b, l) \<in> set lifecycle_edges \<longleftrightarrow>
     a \<noteq> b \<and> (\<exists>event ts. l = event_label event \<and> allowed_targets event a = Some ts \<and> b \<in> set ts)"
proof -
  have "(a, b, l) \<in> set lifecycle_edges \<longleftrightarrow>
      (\<exists>event\<in>set all_quarantine_events. \<exists>from\<in>set all_statuses. (a, b, l) \<in> set (cell_edges event from))"
    by (simp add: lifecycle_edges_def)
  then show ?thesis by (auto simp: cell_edges_iff)
qed

section \<open>What the table promises a state machine\<close>

text \<open>
  \<open>status\<close> projects the state of an object, \<open>run\<close> executes a command and returns its result
  together with the object it leaves behind, \<open>event_of\<close> names the command's row group.
\<close>

locale lifecycle_table =
  fixes status :: "'obj \<Rightarrow> quarantine_status"
    and event_of :: "'cmd \<Rightarrow> quarantine_event"
    and run :: "'cmd \<Rightarrow> 'obj \<Rightarrow> ('err + 'out) \<times> 'obj"
  assumes ok_follows_table:
      "run c x = (Inr out, x') \<Longrightarrow>
       \<exists>ts. allowed_targets (event_of c) (status x) = Some ts \<and> status x' \<in> set ts"
    and err_leaves_object: "run c x = (Inl e, x') \<Longrightarrow> x' = x"
begin

lemma forbidden_refuses:
  "allowed_targets (event_of c) (status x) = None \<Longrightarrow> \<exists>e. run c x = (Inl e, x)"
proof -
  assume none: "allowed_targets (event_of c) (status x) = None"
  obtain r x' where r: "run c x = (r, x')" by force
  show ?thesis
  proof (cases r)
    case (Inl e)
    with r err_leaves_object show ?thesis by auto
  next
    case (Inr out)
    with r ok_follows_table [of c x out x'] none show ?thesis by simp
  qed
qed

lemma status_step:
  "status (snd (run c x)) = status x \<or>
   (\<exists>ts. allowed_targets (event_of c) (status x) = Some ts \<and> status (snd (run c x)) \<in> set ts)"
proof -
  obtain r x' where r: "run c x = (r, x')" by force
  show ?thesis
    using ok_follows_table [of c x _ x'] err_leaves_object [of c x _ x'] r by (cases r) auto
qed

definition run_all :: "'cmd list \<Rightarrow> 'obj \<Rightarrow> 'obj" where
  "run_all cs x = foldl (\<lambda>y c. snd (run c y)) x cs"

text \<open>A set of statuses that no row of the issued commands leaves is never left.\<close>

lemma run_all_closed:
  assumes "status x \<in> S"
    and "\<And>c s ts. c \<in> set cs \<Longrightarrow> s \<in> S \<Longrightarrow> allowed_targets (event_of c) s = Some ts \<Longrightarrow> set ts \<subseteq> S"
  shows "status (run_all cs x) \<in> S"
  using assms
proof (induction cs arbitrary: x)
  case (Cons c cs)
  have "status (snd (run c x)) \<in> S"
    using status_step [of c x] Cons.prems(1) Cons.prems(2) [of c "status x"] by auto
  then have "status (run_all cs (snd (run c x))) \<in> S"
    by (rule Cons.IH) (use Cons.prems(2) in auto)
  then show ?case by (simp add: run_all_def)
qed (simp add: run_all_def)

end

section \<open>Properties\<close>

text \<open>
  The row table and the exhaustive classification of the cells are the same relation: a lookup
  in the table finds the targets of exactly the cells classified as allowed, and the rendered
  lifecycle diagram has an edge for exactly the state-changing targets of those cells.
\<close>

theorem table_matches_classification:
  "allowed_targets event src =
     (case classify event src of CellForbidden \<Rightarrow> None | CellAllowed ts \<Rightarrow> Some ts) \<and>
   ((src, tgt, label) \<in> set lifecycle_edges \<longleftrightarrow>
      src \<noteq> tgt \<and> (\<exists>ev ts. label = event_label ev \<and> classify ev src = CellAllowed ts \<and> tgt \<in> set ts))"
proof -
  have "allowed_targets ev src = Some ts \<longleftrightarrow> classify ev src = CellAllowed ts" for ev ts
    by (cases "classify ev src") (simp_all add: allowed_targets_cells)
  then show ?thesis by (simp add: lifecycle_edges_iff) (simp add: allowed_targets_cells)
qed

text \<open>
  The status of a composed artifact does not depend on the order or the multiplicity in which
  its parts' statuses are combined, is the status of one of the parts, and allows serving exactly
  when every part does.
\<close>

theorem worst_of_order_independent:
  "(set (s # ss) = set (t # ts) \<longrightarrow> foldl worst_of s ss = foldl worst_of t ts) \<and>
   foldl worst_of s ss \<in> set (s # ss) \<and>
   (servable (foldl worst_of s ss) \<longleftrightarrow> (\<forall>x\<in>set (s # ss). servable x))"
  using worst.fold_set_determined worst.fold_in_set worst_of_servable by blast

theorem worst_of_order_independent_witness:
  "foldl worst_of Released [Rejected, QNone] = foldl worst_of QNone [Released, Rejected, Released]"
  using worst_of_order_independent [of Released "[Rejected, QNone]" QNone "[Released, Rejected, Released]"]
  by auto

end
