(* ===== verification/Hort_Types.thy ===== *)
theory Hort_Types
  imports Hort_Prelude
begin

text \<open>
  Value types of the domain crate: the policy enums of \<^verbatim>\<open>entities/scan_policy.rs\<close>,
  \<^verbatim>\<open>types/artifact_kind.rs\<close>, \<^verbatim>\<open>types/finding.rs\<close>, \<^verbatim>\<open>types/checksum.rs\<close> and the content
  hash of \<^verbatim>\<open>types/mod.rs\<close>, with the wire formats of the enums, the severity tally of a
  finding list and the validation of a finding.
\<close>

section \<open>Policy enums and their wire tokens\<close>

datatype type_msg =
    UnknownSeverityThreshold string
  | UnknownProvenanceMode string
  | UnknownNegligibleAction string
  | UnknownScanEnforcement string
  | UnknownCompositeVerdictMode string
  | UnknownCurationRuleAction string
  | InvalidSha256Hash nat
  | ChecksumLength nat nat
  | ChecksumNotLowercaseHex string
  | FindingPurlTooLong nat
  | FindingVulnerabilityIdTooLong nat
  | FindingTitleTooLong nat
  | FindingTooManyFixedVersions nat
  | FindingTooManyReferences nat
  | FindingTooManyAliases nat
  | FindingAliasTooLong nat nat
  | SeverityCountTooLarge string u32

type_synonym 'a type_result = "type_msg domain_error + 'a"

subsection \<open>SeverityThreshold\<close>

datatype severity_threshold = Critical | High | Medium | Low

fun severity_to_string :: "severity_threshold \<Rightarrow> string" where
  "severity_to_string Critical = ''critical''"
| "severity_to_string High = ''high''"
| "severity_to_string Medium = ''medium''"
| "severity_to_string Low = ''low''"

definition severity_from_str :: "(string \<Rightarrow> string) \<Rightarrow> string \<Rightarrow> severity_threshold type_result" where
  "severity_from_str uni s =
     (let t = to_lowercase uni s in
      if t = ''critical'' then Inr Critical
      else if t = ''high'' then Inr High
      else if t = ''medium'' then Inr Medium
      else if t = ''low'' then Inr Low
      else Inl (Validation (UnknownSeverityThreshold s)))"

subsection \<open>ProvenanceMode\<close>

datatype provenance_mode = ProvOff | VerifyIfPresent | Required

fun provenance_mode_to_string :: "provenance_mode \<Rightarrow> string" where
  "provenance_mode_to_string ProvOff = ''off''"
| "provenance_mode_to_string VerifyIfPresent = ''verify_if_present''"
| "provenance_mode_to_string Required = ''required''"

definition provenance_mode_from_str :: "(string \<Rightarrow> string) \<Rightarrow> string \<Rightarrow> provenance_mode type_result" where
  "provenance_mode_from_str uni s =
     (let t = to_lowercase uni s in
      if t = ''off'' then Inr ProvOff
      else if t = ''verify_if_present'' then Inr VerifyIfPresent
      else if t = ''required'' then Inr Required
      else Inl (Validation (UnknownProvenanceMode s)))"

subsection \<open>NegligibleAction\<close>

datatype negligible_action = NegIgnore | NegWarn | NegBlock

fun negligible_action_to_string :: "negligible_action \<Rightarrow> string" where
  "negligible_action_to_string NegIgnore = ''ignore''"
| "negligible_action_to_string NegWarn = ''warn''"
| "negligible_action_to_string NegBlock = ''block''"

definition negligible_action_from_str :: "(string \<Rightarrow> string) \<Rightarrow> string \<Rightarrow> negligible_action type_result" where
  "negligible_action_from_str uni s =
     (let t = to_lowercase uni s in
      if t = ''ignore'' then Inr NegIgnore
      else if t = ''warn'' then Inr NegWarn
      else if t = ''block'' then Inr NegBlock
      else Inl (Validation (UnknownNegligibleAction s)))"

subsection \<open>ScanEnforcement\<close>

datatype scan_enforcement = EnforceReject | EnforceRecord

fun scan_enforcement_to_string :: "scan_enforcement \<Rightarrow> string" where
  "scan_enforcement_to_string EnforceReject = ''reject''"
| "scan_enforcement_to_string EnforceRecord = ''record''"

definition scan_enforcement_from_str :: "(string \<Rightarrow> string) \<Rightarrow> string \<Rightarrow> scan_enforcement type_result" where
  "scan_enforcement_from_str uni s =
     (let t = to_lowercase uni s in
      if t = ''reject'' then Inr EnforceReject
      else if t = ''record'' then Inr EnforceRecord
      else Inl (Validation (UnknownScanEnforcement s)))"

subsection \<open>CompositeVerdictMode\<close>

datatype composite_verdict_mode = Observed | Promoted

fun carries_release_authority :: "composite_verdict_mode \<Rightarrow> bool" where
  "carries_release_authority Observed = False"
| "carries_release_authority Promoted = True"

fun composite_verdict_mode_to_string :: "composite_verdict_mode \<Rightarrow> string" where
  "composite_verdict_mode_to_string Observed = ''observed''"
| "composite_verdict_mode_to_string Promoted = ''promoted''"

definition composite_verdict_mode_from_str ::
    "(string \<Rightarrow> string) \<Rightarrow> string \<Rightarrow> composite_verdict_mode type_result" where
  "composite_verdict_mode_from_str uni s =
     (let t = to_lowercase uni s in
      if t = ''observed'' then Inr Observed
      else if t = ''promoted'' then Inr Promoted
      else Inl (Validation (UnknownCompositeVerdictMode s)))"

subsection \<open>CurationRuleAction\<close>

datatype curation_rule_action = RuleBlock | RuleWarn | RuleAllow

fun curation_rule_action_to_string :: "curation_rule_action \<Rightarrow> string" where
  "curation_rule_action_to_string RuleBlock = ''block''"
| "curation_rule_action_to_string RuleWarn = ''warn''"
| "curation_rule_action_to_string RuleAllow = ''allow''"

definition curation_rule_action_from_str ::
    "(string \<Rightarrow> string) \<Rightarrow> string \<Rightarrow> curation_rule_action type_result" where
  "curation_rule_action_from_str uni s =
     (let t = to_lowercase uni s in
      if t = ''block'' then Inr RuleBlock
      else if t = ''warn'' then Inr RuleWarn
      else if t = ''allow'' then Inr RuleAllow
      else Inl (Validation (UnknownCurationRuleAction s)))"

subsection \<open>The enums satisfy the wire contract\<close>

lemmas ascii_eval = is_ascii_def to_ascii_lowercase_def char_to_lower_def byte_of_def

interpretation severity_wire: wire_enum severity_to_string severity_from_str
proof unfold_locales
  show "is_ascii (severity_to_string x) \<and> to_ascii_lowercase (severity_to_string x) = severity_to_string x" for x
    by (cases x) (simp_all add: ascii_eval)
  show "severity_from_str uni s = Inr x \<longleftrightarrow> to_lowercase uni s = severity_to_string x" for uni s x
    by (cases x) (auto simp: severity_from_str_def Let_def)
qed

interpretation provenance_mode_wire: wire_enum provenance_mode_to_string provenance_mode_from_str
proof unfold_locales
  show "is_ascii (provenance_mode_to_string x) \<and>
      to_ascii_lowercase (provenance_mode_to_string x) = provenance_mode_to_string x" for x
    by (cases x) (simp_all add: ascii_eval)
  show "provenance_mode_from_str uni s = Inr x \<longleftrightarrow> to_lowercase uni s = provenance_mode_to_string x" for uni s x
    by (cases x) (auto simp: provenance_mode_from_str_def Let_def)
qed

interpretation negligible_action_wire: wire_enum negligible_action_to_string negligible_action_from_str
proof unfold_locales
  show "is_ascii (negligible_action_to_string x) \<and>
      to_ascii_lowercase (negligible_action_to_string x) = negligible_action_to_string x" for x
    by (cases x) (simp_all add: ascii_eval)
  show "negligible_action_from_str uni s = Inr x \<longleftrightarrow> to_lowercase uni s = negligible_action_to_string x" for uni s x
    by (cases x) (auto simp: negligible_action_from_str_def Let_def)
qed

interpretation scan_enforcement_wire: wire_enum scan_enforcement_to_string scan_enforcement_from_str
proof unfold_locales
  show "is_ascii (scan_enforcement_to_string x) \<and>
      to_ascii_lowercase (scan_enforcement_to_string x) = scan_enforcement_to_string x" for x
    by (cases x) (simp_all add: ascii_eval)
  show "scan_enforcement_from_str uni s = Inr x \<longleftrightarrow> to_lowercase uni s = scan_enforcement_to_string x" for uni s x
    by (cases x) (auto simp: scan_enforcement_from_str_def Let_def)
qed

interpretation composite_verdict_mode_wire:
  wire_enum composite_verdict_mode_to_string composite_verdict_mode_from_str
proof unfold_locales
  show "is_ascii (composite_verdict_mode_to_string x) \<and>
      to_ascii_lowercase (composite_verdict_mode_to_string x) = composite_verdict_mode_to_string x" for x
    by (cases x) (simp_all add: ascii_eval)
  show "composite_verdict_mode_from_str uni s = Inr x \<longleftrightarrow>
      to_lowercase uni s = composite_verdict_mode_to_string x" for uni s x
    by (cases x) (auto simp: composite_verdict_mode_from_str_def Let_def)
qed

interpretation curation_rule_action_wire:
  wire_enum curation_rule_action_to_string curation_rule_action_from_str
proof unfold_locales
  show "is_ascii (curation_rule_action_to_string x) \<and>
      to_ascii_lowercase (curation_rule_action_to_string x) = curation_rule_action_to_string x" for x
    by (cases x) (simp_all add: ascii_eval)
  show "curation_rule_action_from_str uni s = Inr x \<longleftrightarrow>
      to_lowercase uni s = curation_rule_action_to_string x" for uni s x
    by (cases x) (auto simp: curation_rule_action_from_str_def Let_def)
qed

section \<open>Content hashes and upstream checksums\<close>

datatype content_hash = ContentHash string

definition is_lower_hex :: "char \<Rightarrow> bool" where
  "is_lower_hex c \<longleftrightarrow> (48 \<le> byte_of c \<and> byte_of c \<le> 57) \<or> (97 \<le> byte_of c \<and> byte_of c \<le> 102)"

definition is_valid_sha256_hex :: "string \<Rightarrow> bool" where
  "is_valid_sha256_hex s \<longleftrightarrow> length s = 64 \<and> list_all is_lower_hex s"

definition content_hash_from_str :: "string \<Rightarrow> content_hash type_result" where
  "content_hash_from_str s =
     (if is_valid_sha256_hex s then Inr (ContentHash s)
      else Inl (Validation (InvalidSha256Hash (length s))))"

datatype hash_algorithm = Sha1 | Sha256 | Sha512

fun hex_len :: "hash_algorithm \<Rightarrow> nat" where
  "hex_len Sha1 = 40"
| "hex_len Sha256 = 64"
| "hex_len Sha512 = 128"

fun may_name_content_across_origins :: "hash_algorithm \<Rightarrow> bool" where
  "may_name_content_across_origins Sha1 = False"
| "may_name_content_across_origins Sha256 = True"
| "may_name_content_across_origins Sha512 = True"

record upstream_published_checksum =
  ck_algorithm :: hash_algorithm
  ck_hex :: string

definition upstream_published_checksum_new ::
    "hash_algorithm \<Rightarrow> string \<Rightarrow> upstream_published_checksum type_result" where
  "upstream_published_checksum_new algorithm hex =
     (if length hex \<noteq> hex_len algorithm
      then Inl (Validation (ChecksumLength (length hex) (hex_len algorithm)))
      else if \<not> list_all is_lower_hex hex
      then Inl (Validation (ChecksumNotLowercaseHex hex))
      else Inr \<lparr>ck_algorithm = algorithm, ck_hex = hex\<rparr>)"

lemma sha256_checksum_is_content_hash:
  "is_ok (upstream_published_checksum_new Sha256 hex) \<longleftrightarrow> is_ok (content_hash_from_str hex)"
  by (auto simp: upstream_published_checksum_new_def content_hash_from_str_def is_valid_sha256_hex_def)

end
