(* ===== verification/Findings.thy ===== *)
theory Findings
  imports Hort_Types
begin

text \<open>
  Scanner findings (\<^verbatim>\<open>types/finding.rs\<close>, \<^verbatim>\<open>types/artifact_kind.rs\<close>) and the severity
  summary they are counted into (\<^verbatim>\<open>events/artifact_events.rs\<close>). The tally runs on
  \<^verbatim>\<open>u32\<close> counters; the lemmas state each counter as the number of findings of its tier in
  32-bit arithmetic.
\<close>

section \<open>Artifact kinds\<close>

datatype artifact_kind =
    MavenJar | MavenPom | NpmTarball | CargoCrate | PyWheel | PySdist | OciBlob | OciManifest
  | OtherKind

fun is_composition_constituent :: "artifact_kind \<Rightarrow> bool" where
  "is_composition_constituent OciBlob = True"
| "is_composition_constituent OciManifest = False"
| "is_composition_constituent MavenJar = False"
| "is_composition_constituent MavenPom = False"
| "is_composition_constituent NpmTarball = False"
| "is_composition_constituent CargoCrate = False"
| "is_composition_constituent PyWheel = False"
| "is_composition_constituent PySdist = False"
| "is_composition_constituent OtherKind = False"

fun artifact_kind_as_str :: "artifact_kind \<Rightarrow> string" where
  "artifact_kind_as_str MavenJar = ''maven_jar''"
| "artifact_kind_as_str MavenPom = ''maven_pom''"
| "artifact_kind_as_str NpmTarball = ''npm_tarball''"
| "artifact_kind_as_str CargoCrate = ''cargo_crate''"
| "artifact_kind_as_str PyWheel = ''py_wheel''"
| "artifact_kind_as_str PySdist = ''py_sdist''"
| "artifact_kind_as_str OciBlob = ''oci_blob''"
| "artifact_kind_as_str OciManifest = ''oci_manifest''"
| "artifact_kind_as_str OtherKind = ''other''"

section \<open>Findings\<close>

datatype severity_basis = Assessed | Unassessed

datatype component_relation = Subject | Contained | NotContained | NotEstablished

datatype finding_statement = StatesBytes | StatesFilesystem | Unstated

record finding =
  f_purl :: string
  f_vulnerability_id :: string
  f_severity :: severity_threshold
  f_cvss_score :: "f32 option"
  f_title :: string
  f_fixed_versions :: "string list"
  f_source_scanner :: string
  f_references :: "string list"
  f_aliases :: "string list"
  f_informational_class :: "string option"
  f_severity_basis :: severity_basis
  f_component_relation :: component_relation
  f_statement :: finding_statement
  f_advisory_published_at :: "timestamp option"

fun containment_claim_rank :: "component_relation \<Rightarrow> nat" where
  "containment_claim_rank Subject = 3"
| "containment_claim_rank Contained = 2"
| "containment_claim_rank NotEstablished = 1"
| "containment_claim_rank NotContained = 0"

definition more_condemning :: "component_relation \<Rightarrow> component_relation \<Rightarrow> component_relation" where
  "more_condemning self other =
     (if containment_claim_rank other > containment_claim_rank self then other else self)"

definition is_informational_class :: "string \<Rightarrow> bool" where
  "is_informational_class s =
     (let t = to_ascii_lowercase (trim s) in
      t = ''unmaintained'' \<or> t = ''unsound'' \<or> t = ''notice'')"

definition is_informational :: "finding \<Rightarrow> bool" where
  "is_informational f =
     (f_cvss_score f = None \<and>
      (case f_informational_class f of None \<Rightarrow> False | Some c \<Rightarrow> is_informational_class c))"

definition is_informed :: "finding \<Rightarrow> bool" where
  "is_informed f =
     (f_severity_basis f = Assessed \<or> f_cvss_score f \<noteq> None \<or> is_informational f)"

definition may_condemn_artifact ::
    "finding \<Rightarrow> artifact_kind \<Rightarrow> composite_verdict_mode \<Rightarrow> bool" where
  "may_condemn_artifact f kind composite_verdict =
     (let carries_the_component =
            (case f_component_relation f of
               Subject \<Rightarrow> True | Contained \<Rightarrow> True | NotContained \<Rightarrow> False | NotEstablished \<Rightarrow> True);
          decides_this_artifact =
            (case f_statement f of
               StatesBytes \<Rightarrow> True
             | Unstated \<Rightarrow> True
             | StatesFilesystem \<Rightarrow>
                 \<not> (is_composition_constituent kind \<and> carries_release_authority composite_verdict))
      in carries_the_component \<and> decides_this_artifact)"

fun severity_tier :: "severity_threshold \<Rightarrow> nat" where
  "severity_tier Critical = 0"
| "severity_tier High = 1"
| "severity_tier Medium = 2"
| "severity_tier Low = 3"

definition highest_severity :: "finding list \<Rightarrow> severity_threshold option" where
  "highest_severity findings =
     foldl (\<lambda>best f.
        (case best of
           None \<Rightarrow> Some (f_severity f)
         | Some b \<Rightarrow> if severity_tier (f_severity f) < severity_tier b then Some (f_severity f) else best))
       None findings"

section \<open>The severity summary\<close>

record severity_summary =
  s_critical :: u32
  s_high :: u32
  s_medium :: u32
  s_low :: u32
  s_negligible :: u32

definition empty_summary :: severity_summary where
  "empty_summary = \<lparr>s_critical = 0, s_high = 0, s_medium = 0, s_low = 0, s_negligible = 0\<rparr>"

definition tally_finding :: "severity_summary \<Rightarrow> finding \<Rightarrow> severity_summary" where
  "tally_finding s f =
     (if is_informational f then s\<lparr>s_negligible := s_negligible s + 1\<rparr>
      else (case f_severity f of
              Critical \<Rightarrow> s\<lparr>s_critical := s_critical s + 1\<rparr>
            | High \<Rightarrow> s\<lparr>s_high := s_high s + 1\<rparr>
            | Medium \<Rightarrow> s\<lparr>s_medium := s_medium s + 1\<rparr>
            | Low \<Rightarrow> s\<lparr>s_low := s_low s + 1\<rparr>))"

definition severity_summary_from_findings :: "finding list \<Rightarrow> severity_summary" where
  "severity_summary_from_findings findings = foldl tally_finding empty_summary findings"

definition max_severity_count :: u32 where "max_severity_count = 100000"

definition severity_summary_validate :: "severity_summary \<Rightarrow> unit type_result" where
  "severity_summary_validate s =
     check_each (\<lambda>(name, val).
         if val > max_severity_count
         then Inl (Validation (SeverityCountTooLarge name val)) else Inr ())
       [(''critical'', s_critical s), (''high'', s_high s), (''medium'', s_medium s),
        (''low'', s_low s), (''negligible'', s_negligible s)]"

text \<open>\<^verbatim>\<open>SeveritySummary::sum\<close> adds the five counters with \<^verbatim>\<open>checked_add\<close>.\<close>

definition checked_add_u32 :: "u32 \<Rightarrow> u32 \<Rightarrow> u32 option" where
  "checked_add_u32 a b = (if unat a + unat b < 4294967296 then Some (a + b) else None)"

definition severity_summary_sum :: "severity_summary \<Rightarrow> u32 option" where
  "severity_summary_sum s =
     Option.bind (checked_add_u32 (s_critical s) (s_high s)) (\<lambda>a.
     Option.bind (checked_add_u32 a (s_medium s)) (\<lambda>b.
     Option.bind (checked_add_u32 b (s_low s)) (\<lambda>c.
     checked_add_u32 c (s_negligible s))))"

section \<open>Validation and the title cap\<close>

definition max_purl_len :: nat where "max_purl_len = 512"
definition max_vulnerability_id_len :: nat where "max_vulnerability_id_len = 128"
definition max_title_len :: nat where "max_title_len = 1024"
definition max_fixed_versions :: nat where "max_fixed_versions = 32"
definition max_references :: nat where "max_references = 32"
definition max_aliases :: nat where "max_aliases = 16"

lemmas finding_limits = max_purl_len_def max_vulnerability_id_len_def max_title_len_def
  max_fixed_versions_def max_references_def max_aliases_def

fun check_aliases :: "nat \<Rightarrow> string list \<Rightarrow> unit type_result" where
  "check_aliases idx [] = Inr ()"
| "check_aliases idx (alias # rest) =
     (if length alias > max_vulnerability_id_len
      then Inl (Validation (FindingAliasTooLong idx (length alias)))
      else check_aliases (Suc idx) rest)"

definition finding_validate :: "finding \<Rightarrow> unit type_result" where
  "finding_validate f =
     (if length (f_purl f) > max_purl_len
      then Inl (Validation (FindingPurlTooLong (length (f_purl f))))
      else if length (f_vulnerability_id f) > max_vulnerability_id_len
      then Inl (Validation (FindingVulnerabilityIdTooLong (length (f_vulnerability_id f))))
      else if length (f_title f) > max_title_len
      then Inl (Validation (FindingTitleTooLong (length (f_title f))))
      else if length (f_fixed_versions f) > max_fixed_versions
      then Inl (Validation (FindingTooManyFixedVersions (length (f_fixed_versions f))))
      else if length (f_references f) > max_references
      then Inl (Validation (FindingTooManyReferences (length (f_references f))))
      else if length (f_aliases f) > max_aliases
      then Inl (Validation (FindingTooManyAliases (length (f_aliases f))))
      else check_aliases 0 (f_aliases f))"

definition is_char_boundary_byte :: "char \<Rightarrow> bool" where
  "is_char_boundary_byte c \<longleftrightarrow> \<not> (128 \<le> byte_of c \<and> byte_of c < 192)"

text \<open>\<^verbatim>\<open>str::floor_char_boundary\<close>: walk back from the index to the start of a code point.\<close>

fun floor_boundary :: "string \<Rightarrow> nat \<Rightarrow> nat" where
  "floor_boundary s 0 = 0"
| "floor_boundary s (Suc i) =
     (if is_char_boundary_byte (s ! Suc i) then Suc i else floor_boundary s i)"

definition floor_char_boundary :: "string \<Rightarrow> nat \<Rightarrow> nat" where
  "floor_char_boundary s index = (if length s \<le> index then length s else floor_boundary s index)"

definition title_marker :: string where
  "title_marker = [CHR 0xE2, CHR 0x80, CHR 0xA6]"

definition cap_finding_title :: "string \<Rightarrow> string" where
  "cap_finding_title title =
     (if length title \<le> max_title_len then title
      else (let cut = floor_char_boundary title (max_title_len - length title_marker)
            in take cut title @ title_marker))"

section \<open>Lemmas\<close>

interpretation containment: ranked_choice containment_claim_rank more_condemning
proof unfold_locales
  show "more_condemning x y = (if containment_claim_rank y \<le> containment_claim_rank x then x else y)" for x y
    by (simp add: more_condemning_def)
  show "containment_claim_rank x = containment_claim_rank y \<Longrightarrow> x = y" for x y
    by (cases x; cases y) simp_all
qed

abbreviation of_tier :: "severity_threshold \<Rightarrow> finding \<Rightarrow> bool" where
  "of_tier t f \<equiv> \<not> is_informational f \<and> f_severity f = t"

text \<open>The counter of a tier, and the counters as 32-bit numbers of findings.\<close>

fun tier_count :: "severity_summary \<Rightarrow> severity_threshold \<Rightarrow> u32" where
  "tier_count s Critical = s_critical s"
| "tier_count s High = s_high s"
| "tier_count s Medium = s_medium s"
| "tier_count s Low = s_low s"

lemma tally_tier_count:
  "tier_count (tally_finding s f) t = tier_count s t + (if of_tier t f then 1 else 0)"
  by (cases t) (auto simp: tally_finding_def split: severity_threshold.split)

lemma tally_negligible:
  "s_negligible (tally_finding s f) = s_negligible s + (if is_informational f then 1 else 0)"
  by (auto simp: tally_finding_def split: severity_threshold.split)

lemma foldl_tally_tier_count:
  "tier_count (foldl tally_finding s fs) t = tier_count s t + of_nat (length (filter (of_tier t) fs))"
  by (induction fs arbitrary: s) (simp_all add: tally_tier_count)

lemma foldl_tally_negligible:
  "s_negligible (foldl tally_finding s fs)
     = s_negligible s + of_nat (length (filter is_informational fs))"
  by (induction fs arbitrary: s) (simp_all add: tally_negligible)

lemma summary_tier_count:
  "tier_count (severity_summary_from_findings fs) t = of_nat (length (filter (of_tier t) fs))"
  by (cases t) (simp_all add: severity_summary_from_findings_def empty_summary_def
      foldl_tally_tier_count [where t = Critical, simplified]
      foldl_tally_tier_count [where t = High, simplified]
      foldl_tally_tier_count [where t = Medium, simplified]
      foldl_tally_tier_count [where t = Low, simplified])

lemma summary_negligible:
  "s_negligible (severity_summary_from_findings fs) = of_nat (length (filter is_informational fs))"
  by (simp add: severity_summary_from_findings_def empty_summary_def foldl_tally_negligible)

text \<open>Below \<open>2^32\<close> findings no counter wraps, so a counter is positive iff its tier occurs.\<close>

lemma of_nat_u32_positive: "n < 4294967296 \<Longrightarrow> (0 :: u32) < of_nat n \<longleftrightarrow> 0 < n"
  by (simp add: word_less_nat_alt unat_of_nat)

lemma length_filter_small: "length fs < 4294967296 \<Longrightarrow> length (filter P fs) < 4294967296"
  by (rule le_less_trans [OF length_filter_le])

lemma summary_tier_positive:
  "length fs < 4294967296 \<Longrightarrow>
   0 < tier_count (severity_summary_from_findings fs) t \<longleftrightarrow> (\<exists>f\<in>set fs. of_tier t f)"
  by (simp add: summary_tier_count of_nat_u32_positive length_filter_small filter_empty_conv)

lemma summary_negligible_zero:
  "length fs < 4294967296 \<Longrightarrow>
   s_negligible (severity_summary_from_findings fs) = 0 \<longleftrightarrow> (\<forall>f\<in>set fs. \<not> is_informational f)"
  using of_nat_u32_positive [OF length_filter_small [of fs is_informational]]
  by (auto simp: summary_negligible filter_empty_conv word_neq_0_conv [symmetric])

text \<open>A summary that passes validation is summed without overflow.\<close>

lemma checked_add_u32_bounded:
  "unat a \<le> m \<Longrightarrow> unat b \<le> n \<Longrightarrow> m + n < 4294967296 \<Longrightarrow>
   \<exists>c. checked_add_u32 a b = Some c \<and> unat c = unat a + unat b"
  by (simp add: checked_add_u32_def unat_word_ariths)

lemma severity_summary_sum_validated:
  assumes "is_ok (severity_summary_validate s)"
  shows "\<exists>t. severity_summary_sum s = Some t \<and>
    unat t = unat (s_critical s) + unat (s_high s) + unat (s_medium s) + unat (s_low s) + unat (s_negligible s)"
proof -
  have bound: "unat (s_critical s) \<le> 100000" "unat (s_high s) \<le> 100000" "unat (s_medium s) \<le> 100000"
    "unat (s_low s) \<le> 100000" "unat (s_negligible s) \<le> 100000"
    using assms
    by (auto simp: severity_summary_validate_def check_each_ok max_severity_count_def
        word_less_nat_alt split: if_splits)
  obtain a where a: "checked_add_u32 (s_critical s) (s_high s) = Some a"
      "unat a = unat (s_critical s) + unat (s_high s)"
    using checked_add_u32_bounded [OF bound(1,2)] by auto
  obtain b where b: "checked_add_u32 a (s_medium s) = Some b" "unat b = unat a + unat (s_medium s)"
    using checked_add_u32_bounded [of a 200000, OF _ bound(3)] a(2) bound by auto
  obtain c where c: "checked_add_u32 b (s_low s) = Some c" "unat c = unat b + unat (s_low s)"
    using checked_add_u32_bounded [of b 300000, OF _ bound(4)] a(2) b(2) bound by auto
  obtain d where d: "checked_add_u32 c (s_negligible s) = Some d" "unat d = unat c + unat (s_negligible s)"
    using checked_add_u32_bounded [of c 400000, OF _ bound(5)] a(2) b(2) c(2) bound by auto
  show ?thesis
    using a b c d by (simp add: severity_summary_sum_def)
qed

lemma check_aliases_ok:
  "is_ok (check_aliases idx as) \<longleftrightarrow> (\<forall>a\<in>set as. length a \<le> max_vulnerability_id_len)"
  by (induction idx as rule: check_aliases.induct) auto

lemma finding_validate_ok:
  "is_ok (finding_validate f) \<longleftrightarrow>
     length (f_purl f) \<le> 512 \<and> length (f_vulnerability_id f) \<le> 128 \<and> length (f_title f) \<le> 1024 \<and>
     length (f_fixed_versions f) \<le> 32 \<and> length (f_references f) \<le> 32 \<and> length (f_aliases f) \<le> 16 \<and>
     (\<forall>a\<in>set (f_aliases f). length a \<le> 128)"
  by (simp add: finding_validate_def check_aliases_ok finding_limits)

lemma floor_boundary_le: "floor_boundary s i \<le> i"
  by (induction s i rule: floor_boundary.induct) auto

lemma floor_boundary_starts_code_point:
  "0 < floor_boundary s i \<Longrightarrow> is_char_boundary_byte (s ! floor_boundary s i)"
  by (induction s i rule: floor_boundary.induct) (auto split: if_splits)

lemma length_cap_finding_title: "length (cap_finding_title title) \<le> 1024"
proof (cases "length title \<le> 1024")
  case True
  then show ?thesis by (simp add: cap_finding_title_def max_title_len_def)
next
  case False
  have "floor_char_boundary title 1021 \<le> 1021"
    using False floor_boundary_le [of title 1021] by (simp add: floor_char_boundary_def)
  with False show ?thesis
    by (simp add: cap_finding_title_def max_title_len_def title_marker_def)
qed

lemma highest_severity_foldl:
  "foldl (\<lambda>best f.
        (case best of
           None \<Rightarrow> Some (f_severity f)
         | Some b \<Rightarrow> if severity_tier (f_severity f) < severity_tier b then Some (f_severity f) else best))
       (Some b) fs = Some m \<Longrightarrow>
   m \<in> insert b (f_severity ` set fs) \<and> (\<forall>x\<in>insert b (f_severity ` set fs). severity_tier m \<le> severity_tier x)"
proof (induction fs arbitrary: b)
  case (Cons f fs)
  show ?case
  proof (cases "severity_tier (f_severity f) < severity_tier b")
    case True
    with Cons.prems have "m \<in> insert (f_severity f) (f_severity ` set fs) \<and>
        (\<forall>x\<in>insert (f_severity f) (f_severity ` set fs). severity_tier m \<le> severity_tier x)"
      by (intro Cons.IH) simp
    with True show ?thesis by auto
  next
    case False
    with Cons.prems have "m \<in> insert b (f_severity ` set fs) \<and>
        (\<forall>x\<in>insert b (f_severity ` set fs). severity_tier m \<le> severity_tier x)"
      by (intro Cons.IH) simp
    with False show ?thesis by auto
  qed
qed simp

section \<open>Properties\<close>

text \<open>
  The severity summary of a finding list counts it. Below \<open>2^32\<close> findings, each tier's counter
  is the number of non-informational findings of that severity, the negligible counter is the
  number of informational ones, and the five add up to the number of findings.
\<close>

theorem summary_counts_findings:
  assumes "length fs < 4294967296"
  shows "(\<forall>t. unat (tier_count (severity_summary_from_findings fs) t)
              = length (filter (\<lambda>f. \<not> is_informational f \<and> f_severity f = t) fs)) \<and>
    unat (s_negligible (severity_summary_from_findings fs)) = length (filter is_informational fs) \<and>
    unat (s_critical (severity_summary_from_findings fs)) + unat (s_high (severity_summary_from_findings fs))
      + unat (s_medium (severity_summary_from_findings fs)) + unat (s_low (severity_summary_from_findings fs))
      + unat (s_negligible (severity_summary_from_findings fs)) = length fs"
proof -
  have small: "unat (of_nat (length (filter P fs)) :: u32) = length (filter P fs)" for P
    using length_filter_small [OF assms, of P] by (simp add: unat_of_nat)
  have tiers: "unat (tier_count (severity_summary_from_findings fs) t) = length (filter (of_tier t) fs)" for t
    by (simp add: summary_tier_count small)
  have split: "length (filter (of_tier Critical) gs) + length (filter (of_tier High) gs)
      + length (filter (of_tier Medium) gs) + length (filter (of_tier Low) gs)
      + length (filter is_informational gs) = length gs" for gs
  proof (induction gs)
    case (Cons g gs)
    then show ?case by (cases "f_severity g") auto
  qed simp
  show ?thesis
    using split [of fs] tiers [of Critical] tiers [of High] tiers [of Medium] tiers [of Low]
    by (simp add: tiers summary_negligible small)
qed

theorem summary_counts_findings_witness:
  "unat (s_negligible (severity_summary_from_findings [])) = length (filter is_informational [])"
  using summary_counts_findings [of "[]"] by simp

text \<open>
  C34. A summary that passes validation never overflows when its counters are added, and a title
  that has been capped always satisfies the length limit the finding validator enforces; a title
  within the limit is kept as it is, and a cut never splits a code point.
\<close>

theorem validated_sizes_are_safe:
  "(is_ok (severity_summary_validate s) \<longrightarrow>
      (\<exists>t. severity_summary_sum s = Some t \<and>
         unat t = unat (s_critical s) + unat (s_high s) + unat (s_medium s) + unat (s_low s) + unat (s_negligible s))) \<and>
   length (cap_finding_title title) \<le> 1024 \<and>
   (length title \<le> 1024 \<longrightarrow> cap_finding_title title = title) \<and>
   (1024 < length title \<longrightarrow>
      (\<exists>cut. cap_finding_title title = take cut title @ title_marker \<and>
             (cut = 0 \<or> is_char_boundary_byte (title ! cut))))"
proof (intro conjI impI)
  assume "1024 < length title"
  then have cut: "floor_char_boundary title 1021 = floor_boundary title 1021"
    and cap: "cap_finding_title title = take (floor_char_boundary title 1021) title @ title_marker"
    by (simp_all add: floor_char_boundary_def cap_finding_title_def max_title_len_def title_marker_def Let_def)
  show "\<exists>cut. cap_finding_title title = take cut title @ title_marker \<and>
             (cut = 0 \<or> is_char_boundary_byte (title ! cut))"
    using cap cut floor_boundary_starts_code_point [of title 1021] by auto
next
  show "length (cap_finding_title title) \<le> 1024" by (rule length_cap_finding_title)
qed (auto simp: severity_summary_sum_validated cap_finding_title_def max_title_len_def)

theorem validated_sizes_are_safe_witness:
  "cap_finding_title ''remote code execution'' = ''remote code execution'' \<and>
   (\<exists>t. severity_summary_sum empty_summary = Some t \<and> unat t = 0)"
  using validated_sizes_are_safe [of empty_summary "''remote code execution''"]
  by (simp add: severity_summary_validate_def empty_summary_def max_severity_count_def)

end
