(* ===== verification/Policy_Primitives.thy ===== *)
theory Policy_Primitives
  imports Findings
begin

text \<open>
  The building blocks of policy evaluation: the severity threshold
  (\<^verbatim>\<open>policy/threshold.rs\<close>), the CVE evaluator (\<^verbatim>\<open>policy/cve.rs\<close>), the age gate
  (\<^verbatim>\<open>policy/age.rs\<close>), the license evaluator (\<^verbatim>\<open>policy/license.rs\<close>) and the accumulator
  that escalates an action through a list of violations (\<^verbatim>\<open>policy/primitives.rs\<close>).
\<close>

section \<open>Violations and actions\<close>

datatype violation_message =
    CveMessage u32 severity_threshold severity_threshold
  | AgeMessage int int
  | LicensePolicyNotObject string
  | DeniedLicenses nat "string list"
  | LicensesNotAllowed nat "string list"
  | NegligibleMessage u32 negligible_action

record policy_violation =
  pv_rule :: string
  pv_severity :: severity_threshold
  pv_message :: violation_message
  pv_details :: json

datatype policy_action = ActAllow | ActWarn | ActBlock

definition json_of_u32 :: "u32 \<Rightarrow> json" where
  "json_of_u32 n = JNumber (PosInt (ucast n))"

section \<open>Threshold\<close>

fun severity_rank :: "severity_threshold \<Rightarrow> nat" where
  "severity_rank Critical = 4"
| "severity_rank High = 3"
| "severity_rank Medium = 2"
| "severity_rank Low = 1"

definition finding_exceeds_threshold :: "severity_threshold \<Rightarrow> severity_threshold \<Rightarrow> bool" where
  "finding_exceeds_threshold sev threshold \<longleftrightarrow> severity_rank sev \<ge> severity_rank threshold"

definition severity_tiers :: "severity_summary \<Rightarrow> (severity_threshold \<times> u32) list" where
  "severity_tiers summary =
     [(Critical, s_critical summary), (High, s_high summary), (Medium, s_medium summary),
      (Low, s_low summary)]"

definition count_findings_above_threshold :: "severity_summary \<Rightarrow> severity_threshold \<Rightarrow> u32" where
  "count_findings_above_threshold summary threshold =
     sum_list (map snd (filter (\<lambda>(tier, _). finding_exceeds_threshold tier threshold)
       (severity_tiers summary)))"

section \<open>CVE severity evaluator\<close>

definition cve_rule :: string where "cve_rule = ''cve-severity-threshold''"

definition evaluate_cve_thresholds ::
    "severity_summary \<Rightarrow> severity_threshold \<Rightarrow> policy_violation list" where
  "evaluate_cve_thresholds filtered threshold =
     map (\<lambda>(tier, count).
        \<lparr>pv_rule = cve_rule,
         pv_severity = tier,
         pv_message = CveMessage count tier threshold,
         pv_details = JObject [(''count'', json_of_u32 count),
                               (''tier'', JString (severity_to_string tier)),
                               (''threshold'', JString (severity_to_string threshold))]\<rparr>)
       (filter (\<lambda>(tier, count). count > 0 \<and> finding_exceeds_threshold tier threshold)
         (severity_tiers filtered))"

section \<open>Age gate\<close>

definition age_rule :: string where "age_rule = ''max-artifact-age''"

definition evaluate_age_gates :: "timestamp \<Rightarrow> timestamp \<Rightarrow> int option \<Rightarrow> policy_violation list" where
  "evaluate_age_gates artifact_ingested_at now max_age_secs =
     (case max_age_secs of
        None \<Rightarrow> []
      | Some cap \<Rightarrow>
          let age_secs = num_seconds (now - artifact_ingested_at) in
          if age_secs \<le> cap then []
          else [\<lparr>pv_rule = age_rule,
                 pv_severity = Medium,
                 pv_message = AgeMessage age_secs cap,
                 pv_details = JObject [(''age_secs'', json_of_i64 age_secs),
                                       (''max_age_secs'', json_of_i64 cap)]\<rparr>])"

section \<open>License evaluator\<close>

definition license_rule :: string where "license_rule = ''license-compliance''"
definition license_rule_shape :: string where "license_rule_shape = ''license-policy-shape''"
definition max_license_len :: nat where "max_license_len = 256"

fun json_kind :: "json \<Rightarrow> string" where
  "json_kind JNull = ''null''"
| "json_kind (JBool _) = ''bool''"
| "json_kind (JNumber _) = ''number''"
| "json_kind (JString _) = ''string''"
| "json_kind (JArray _) = ''array''"
| "json_kind (JObject _) = ''object''"

definition parse_action :: "json option \<Rightarrow> policy_action option" where
  "parse_action v =
     Option.bind v (\<lambda>j. Option.bind (json_as_str j) (\<lambda>s.
       let t = to_ascii_lowercase s in
       if t = ''allow'' then Some ActAllow
       else if t = ''warn'' then Some ActWarn
       else if t = ''block'' then Some ActBlock
       else None))"

definition parse_string_list :: "json option \<Rightarrow> string list" where
  "parse_string_list v =
     (case Option.bind v json_as_array of
        None \<Rightarrow> []
      | Some arr \<Rightarrow> List.map_filter json_as_str arr)"

fun classify_licenses ::
    "(string \<Rightarrow> string) \<Rightarrow> string list \<Rightarrow> string list \<Rightarrow> bool \<Rightarrow> string list \<Rightarrow> string list \<times> string list" where
  "classify_licenses uni allowed denied allow_unknown [] = ([], [])"
| "classify_licenses uni allowed denied allow_unknown (license # rest) =
     (let (denied_found, unknown_found) = classify_licenses uni allowed denied allow_unknown rest in
      if length license > max_license_len then (denied_found, unknown_found)
      else let normalised = to_uppercase uni license in
        if list_ex (\<lambda>d. to_uppercase uni d = normalised) denied
        then (license # denied_found, unknown_found)
        else if allowed \<noteq> [] \<and> \<not> list_ex (\<lambda>a. to_uppercase uni a = normalised) allowed \<and> \<not> allow_unknown
        then (denied_found, license # unknown_found)
        else (denied_found, unknown_found))"

definition evaluate_license_policy ::
    "(string \<Rightarrow> string) \<Rightarrow> string list \<Rightarrow> json \<Rightarrow> policy_violation list \<times> policy_action" where
  "evaluate_license_policy uni licenses policy =
     (if json_is_null policy then ([], ActAllow)
      else case json_as_object policy of
        None \<Rightarrow>
          ([\<lparr>pv_rule = license_rule_shape,
             pv_severity = Medium,
             pv_message = LicensePolicyNotObject (json_kind policy),
             pv_details = JObject [(''kind'', JString (json_kind policy))]\<rparr>], ActWarn)
      | Some obj \<Rightarrow>
          let action = (case parse_action (map_of obj ''action'') of None \<Rightarrow> ActWarn | Some a \<Rightarrow> a);
              allowed = parse_string_list (map_of obj ''allowed_licenses'');
              denied = parse_string_list (map_of obj ''denied_licenses'');
              allow_unknown =
                (case Option.bind (map_of obj ''allow_unknown'') json_as_bool of
                   None \<Rightarrow> False | Some b \<Rightarrow> b);
              policy_name =
                (case Option.bind (map_of obj ''name'') json_as_str of
                   None \<Rightarrow> ''<unnamed>'' | Some n \<Rightarrow> n);
              (denied_found, unknown_found) = classify_licenses uni allowed denied allow_unknown licenses;
              denied_violations =
                (if denied_found = [] then []
                 else [\<lparr>pv_rule = license_rule,
                        pv_severity = Medium,
                        pv_message = DeniedLicenses (length denied_found) denied_found,
                        pv_details = JObject [(''denied_licenses'', JArray (map JString denied_found)),
                                              (''policy_name'', JString policy_name)]\<rparr>]);
              unknown_violations =
                (if unknown_found = [] then []
                 else [\<lparr>pv_rule = license_rule,
                        pv_severity = Medium,
                        pv_message = LicensesNotAllowed (length unknown_found) unknown_found,
                        pv_details = JObject [(''unknown_licenses'', JArray (map JString unknown_found)),
                                              (''policy_name'', JString policy_name)]\<rparr>])
          in (denied_violations @ unknown_violations, action))"

section \<open>Escalation and the accumulator\<close>

fun escalate_action_by_severity :: "policy_action \<Rightarrow> severity_threshold \<Rightarrow> policy_action" where
  "escalate_action_by_severity current Critical = ActBlock"
| "escalate_action_by_severity current High = ActBlock"
| "escalate_action_by_severity current Medium = (if current = ActBlock then ActBlock else ActWarn)"
| "escalate_action_by_severity current Low = (if current = ActBlock then ActBlock else ActWarn)"

fun escalate_action_by_policy :: "policy_action \<Rightarrow> policy_action \<Rightarrow> policy_action" where
  "escalate_action_by_policy current ActBlock = ActBlock"
| "escalate_action_by_policy current ActWarn = (if current = ActBlock then ActBlock else ActWarn)"
| "escalate_action_by_policy current ActAllow = current"

record violations_accumulator =
  acc_violations :: "policy_violation list"
  acc_action :: policy_action

definition accumulator_new :: violations_accumulator where
  "accumulator_new = \<lparr>acc_violations = [], acc_action = ActAllow\<rparr>"

definition push_with_severity :: "violations_accumulator \<Rightarrow> policy_violation \<Rightarrow> violations_accumulator" where
  "push_with_severity acc v =
     acc\<lparr>acc_action := escalate_action_by_severity (acc_action acc) (pv_severity v),
         acc_violations := acc_violations acc @ [v]\<rparr>"

definition collect_with_severity_escalation ::
    "violations_accumulator \<Rightarrow> policy_violation list \<Rightarrow> violations_accumulator" where
  "collect_with_severity_escalation acc new = foldl push_with_severity acc new"

definition collect_with_policy_action ::
    "violations_accumulator \<Rightarrow> policy_violation list \<Rightarrow> policy_action \<Rightarrow> violations_accumulator" where
  "collect_with_policy_action acc new action =
     (if new \<noteq> []
      then acc\<lparr>acc_action := escalate_action_by_policy (acc_action acc) action,
               acc_violations := acc_violations acc @ new\<rparr>
      else acc)"

definition into_outcome :: "violations_accumulator \<Rightarrow> policy_action \<times> policy_violation list" where
  "into_outcome acc = (acc_action acc, acc_violations acc)"

section \<open>Lemmas\<close>

fun action_level :: "policy_action \<Rightarrow> nat" where
  "action_level ActAllow = 0"
| "action_level ActWarn = 1"
| "action_level ActBlock = 2"

fun severity_weight :: "severity_threshold \<Rightarrow> nat" where
  "severity_weight Critical = 2"
| "severity_weight High = 2"
| "severity_weight Medium = 1"
| "severity_weight Low = 1"

interpretation by_severity: escalation action_level severity_weight escalate_action_by_severity
proof unfold_locales
  show "action_level (escalate_action_by_severity a s) = max (action_level a) (severity_weight s)" for a s
    by (cases a; cases s) simp_all
qed

interpretation by_policy: escalation action_level action_level escalate_action_by_policy
proof unfold_locales
  show "action_level (escalate_action_by_policy a b) = max (action_level a) (action_level b)" for a b
    by (cases a; cases b) simp_all
qed

lemma action_is_block: "a = ActBlock \<longleftrightarrow> 2 \<le> action_level a"
  by (cases a) simp_all

lemma collect_severity_action:
  "acc_action (collect_with_severity_escalation acc vs)
     = foldl escalate_action_by_severity (acc_action acc) (map pv_severity vs)"
  unfolding collect_with_severity_escalation_def
  by (induction vs arbitrary: acc) (simp_all add: push_with_severity_def)

lemma collect_severity_violations:
  "acc_violations (collect_with_severity_escalation acc vs) = acc_violations acc @ vs"
  unfolding collect_with_severity_escalation_def
  by (induction vs arbitrary: acc) (simp_all add: push_with_severity_def)

lemma collect_severity_block:
  "acc_action (collect_with_severity_escalation acc vs) = ActBlock \<longleftrightarrow>
     acc_action acc = ActBlock \<or> (\<exists>v\<in>set vs. pv_severity v = Critical \<or> pv_severity v = High)"
proof -
  have weight: "2 \<le> severity_weight s \<longleftrightarrow> s = Critical \<or> s = High" for s
    by (cases s) simp_all
  show ?thesis
    by (simp add: collect_severity_action action_is_block by_severity.level_foldl_ge_iff weight)
qed

lemma collect_policy_block:
  "acc_action (collect_with_policy_action acc vs action) = ActBlock \<longleftrightarrow>
     acc_action acc = ActBlock \<or> (vs \<noteq> [] \<and> action = ActBlock)"
  by (cases action) (auto simp: collect_with_policy_action_def)

lemma collect_policy_violations:
  "acc_violations (collect_with_policy_action acc vs action) = acc_violations acc @ vs"
  by (simp add: collect_with_policy_action_def)

lemma severity_tiers_tier_count:
  "set (severity_tiers s) = (\<lambda>t. (t, tier_count s t)) ` {Critical, High, Medium, Low}"
  by (auto simp: severity_tiers_def)

lemma cve_violation_tiers:
  "pv_severity ` set (evaluate_cve_thresholds s threshold) =
     {t. 0 < tier_count s t \<and> finding_exceeds_threshold t threshold}"
proof -
  have all: "{Critical, High, Medium, Low} = UNIV"
    using severity_threshold.exhaust by auto
  show ?thesis
    by (auto simp: evaluate_cve_thresholds_def severity_tiers_tier_count image_iff all)
qed

lemma exceeds_critical_or_high:
  "t = Critical \<or> t = High \<Longrightarrow>
   finding_exceeds_threshold t threshold \<longleftrightarrow> (threshold = Critical \<longrightarrow> t = Critical)"
  by (cases threshold) (auto simp: finding_exceeds_threshold_def)

text \<open>With no licenses to judge, the evaluator never produces a blocking outcome.\<close>

lemma license_policy_no_licenses:
  assumes "evaluate_license_policy uni [] policy = (vs, action)"
  shows "vs = [] \<or> action = ActWarn"
  using assms by (auto simp: evaluate_license_policy_def Let_def split: if_splits option.splits)

lemma age_gate_iff:
  "evaluate_age_gates ingested now (Some cap) \<noteq> [] \<longleftrightarrow> cap < num_seconds (now - ingested)"
  by (auto simp: evaluate_age_gates_def Let_def)

end
