(* ===== verification/Repository_Format.thy ===== *)
theory Repository_Format
  imports Hort_Prelude
begin

text \<open>
  The repository format enum of \<^verbatim>\<open>entities/repository.rs\<close>: its \<^verbatim>\<open>Display\<close> tokens, the
  \<^verbatim>\<open>KNOWN_FORMATS\<close> table and the infallible \<^verbatim>\<open>FromStr\<close> that searches it. The parser is not a
  partial inverse like that of the other enums: an unknown token becomes the carrier variant
  \<open>Other\<close>, so the interesting facts are which formats survive a print and parse.
\<close>

datatype repository_format =
    Maven | Gradle | Npm | Pypi | Nuget | Go | Rubygems | Docker | Oci | Helm | Rpm | Debian |
    Conan | Cargo | Generic | Podman | Buildx | Oras | WasmOci | HelmOci | Poetry | Conda |
    Yarn | Bower | Pnpm | Chocolatey | Powershell | Terraform | Opentofu | Alpine |
    CondaNative | Composer | Hex | Cocoapods | Swift | Pub | Sbt | Chef | Puppet | Ansible |
    Gitlfs | Vscode | Jetbrains | Huggingface | Mlmodel | Cran | Vagrant | Opkg | P2 | Bazel |
    Protobuf | Incus | Lxc | Other string

definition known_formats :: "(string \<times> repository_format) list" where
  "known_formats =
     [(''maven'', Maven), (''gradle'', Gradle), (''npm'', Npm), (''pypi'', Pypi),
      (''nuget'', Nuget), (''go'', Go), (''rubygems'', Rubygems), (''docker'', Docker),
      (''oci'', Oci), (''helm'', Helm), (''rpm'', Rpm), (''debian'', Debian),
      (''conan'', Conan), (''cargo'', Cargo), (''generic'', Generic), (''podman'', Podman),
      (''buildx'', Buildx), (''oras'', Oras), (''wasm_oci'', WasmOci), (''helm_oci'', HelmOci),
      (''poetry'', Poetry), (''conda'', Conda), (''yarn'', Yarn), (''bower'', Bower),
      (''pnpm'', Pnpm), (''chocolatey'', Chocolatey), (''powershell'', Powershell),
      (''terraform'', Terraform), (''opentofu'', Opentofu), (''alpine'', Alpine),
      (''conda_native'', CondaNative), (''composer'', Composer), (''hex'', Hex),
      (''cocoapods'', Cocoapods), (''swift'', Swift), (''pub'', Pub), (''sbt'', Sbt),
      (''chef'', Chef), (''puppet'', Puppet), (''ansible'', Ansible), (''gitlfs'', Gitlfs),
      (''vscode'', Vscode), (''jetbrains'', Jetbrains), (''huggingface'', Huggingface),
      (''mlmodel'', Mlmodel), (''cran'', Cran), (''vagrant'', Vagrant), (''opkg'', Opkg),
      (''p2'', P2), (''bazel'', Bazel), (''protobuf'', Protobuf), (''incus'', Incus),
      (''lxc'', Lxc)]"

fun repository_format_to_string :: "repository_format \<Rightarrow> string" where
  "repository_format_to_string Maven = ''maven''"
| "repository_format_to_string Gradle = ''gradle''"
| "repository_format_to_string Npm = ''npm''"
| "repository_format_to_string Pypi = ''pypi''"
| "repository_format_to_string Nuget = ''nuget''"
| "repository_format_to_string Go = ''go''"
| "repository_format_to_string Rubygems = ''rubygems''"
| "repository_format_to_string Docker = ''docker''"
| "repository_format_to_string Oci = ''oci''"
| "repository_format_to_string Helm = ''helm''"
| "repository_format_to_string Rpm = ''rpm''"
| "repository_format_to_string Debian = ''debian''"
| "repository_format_to_string Conan = ''conan''"
| "repository_format_to_string Cargo = ''cargo''"
| "repository_format_to_string Generic = ''generic''"
| "repository_format_to_string Podman = ''podman''"
| "repository_format_to_string Buildx = ''buildx''"
| "repository_format_to_string Oras = ''oras''"
| "repository_format_to_string WasmOci = ''wasm_oci''"
| "repository_format_to_string HelmOci = ''helm_oci''"
| "repository_format_to_string Poetry = ''poetry''"
| "repository_format_to_string Conda = ''conda''"
| "repository_format_to_string Yarn = ''yarn''"
| "repository_format_to_string Bower = ''bower''"
| "repository_format_to_string Pnpm = ''pnpm''"
| "repository_format_to_string Chocolatey = ''chocolatey''"
| "repository_format_to_string Powershell = ''powershell''"
| "repository_format_to_string Terraform = ''terraform''"
| "repository_format_to_string Opentofu = ''opentofu''"
| "repository_format_to_string Alpine = ''alpine''"
| "repository_format_to_string CondaNative = ''conda_native''"
| "repository_format_to_string Composer = ''composer''"
| "repository_format_to_string Hex = ''hex''"
| "repository_format_to_string Cocoapods = ''cocoapods''"
| "repository_format_to_string Swift = ''swift''"
| "repository_format_to_string Pub = ''pub''"
| "repository_format_to_string Sbt = ''sbt''"
| "repository_format_to_string Chef = ''chef''"
| "repository_format_to_string Puppet = ''puppet''"
| "repository_format_to_string Ansible = ''ansible''"
| "repository_format_to_string Gitlfs = ''gitlfs''"
| "repository_format_to_string Vscode = ''vscode''"
| "repository_format_to_string Jetbrains = ''jetbrains''"
| "repository_format_to_string Huggingface = ''huggingface''"
| "repository_format_to_string Mlmodel = ''mlmodel''"
| "repository_format_to_string Cran = ''cran''"
| "repository_format_to_string Vagrant = ''vagrant''"
| "repository_format_to_string Opkg = ''opkg''"
| "repository_format_to_string P2 = ''p2''"
| "repository_format_to_string Bazel = ''bazel''"
| "repository_format_to_string Protobuf = ''protobuf''"
| "repository_format_to_string Incus = ''incus''"
| "repository_format_to_string Lxc = ''lxc''"
| "repository_format_to_string (Other name) = name"

fun search_formats :: "(string \<times> repository_format) list \<Rightarrow> string \<Rightarrow> repository_format" where
  "search_formats [] lower = Other lower"
| "search_formats ((name, ctor) # rest) lower = (if lower = name then ctor else search_formats rest lower)"

definition repository_format_from_str :: "(string \<Rightarrow> string) \<Rightarrow> string \<Rightarrow> repository_format" where
  "repository_format_from_str uni s = search_formats known_formats (to_lowercase uni s)"

section \<open>Lemmas\<close>

lemma search_formats_map_of:
  "search_formats fs lower = (case map_of fs lower of None \<Rightarrow> Other lower | Some f \<Rightarrow> f)"
  by (induction fs lower rule: search_formats.induct) auto

text \<open>The table lists every format that is not a carrier, under its own printed token.\<close>

lemma known_formats_print: "(t, f) \<in> set known_formats \<Longrightarrow> repository_format_to_string f = t"
  by (auto simp: known_formats_def)

lemma known_formats_complete:
  "(\<forall>name. f \<noteq> Other name) \<Longrightarrow> (repository_format_to_string f, f) \<in> set known_formats"
  by (cases f) (simp_all add: known_formats_def)

lemma known_formats_distinct: "distinct (map fst known_formats)"
  by (simp add: known_formats_def)

lemma known_formats_lower:
  "list_all (\<lambda>(t, _). is_ascii t \<and> to_ascii_lowercase t = t) known_formats"
  by (simp add: known_formats_def is_ascii_def to_ascii_lowercase_def char_to_lower_def byte_of_def)

lemma format_roundtrip_known:
  assumes "\<forall>name. f \<noteq> Other name"
  shows "repository_format_from_str uni (repository_format_to_string f) = f"
proof -
  have mem: "(repository_format_to_string f, f) \<in> set known_formats"
    using assms by (rule known_formats_complete)
  then have "to_lowercase uni (repository_format_to_string f) = repository_format_to_string f"
    using known_formats_lower by (auto simp: to_lowercase_def list_all_iff)
  moreover have "map_of known_formats (repository_format_to_string f) = Some f"
    using mem known_formats_distinct by simp
  ultimately show ?thesis
    by (simp add: repository_format_from_str_def search_formats_map_of)
qed

lemma format_from_str_other:
  "repository_format_from_str uni s = Other t \<longleftrightarrow>
     t = to_lowercase uni s \<and> t \<notin> fst ` set known_formats"
proof (cases "map_of known_formats (to_lowercase uni s)")
  case None
  moreover from None have "to_lowercase uni s \<notin> fst ` set known_formats"
    by (simp add: map_of_eq_None_iff)
  ultimately show ?thesis
    by (auto simp: repository_format_from_str_def search_formats_map_of)
next
  case (Some f)
  then have mem: "(to_lowercase uni s, f) \<in> set known_formats"
    by (rule map_of_SomeD)
  then have "f \<noteq> Other t" by (auto simp: known_formats_def)
  moreover have "to_lowercase uni s \<in> fst ` set known_formats"
    using mem by force
  ultimately show ?thesis
    using Some by (auto simp: repository_format_from_str_def search_formats_map_of)
qed

section \<open>Properties\<close>

text \<open>
  Printing and parsing a repository format. Every built-in format parses back from its printed
  token; a carrier format parses back to itself exactly when its name is already in lower case and
  is not the token of a built-in format; and parsing is insensitive to ASCII case.
\<close>

theorem repository_format_roundtrip:
  "((\<forall>name. f \<noteq> Other name) \<longrightarrow> repository_format_from_str uni (repository_format_to_string f) = f) \<and>
   (repository_format_from_str uni (repository_format_to_string (Other name)) = Other name \<longleftrightarrow>
      to_lowercase uni name = name \<and> name \<notin> fst ` set known_formats) \<and>
   (is_ascii s \<longrightarrow> repository_format_from_str uni (to_ascii_lowercase s) = repository_format_from_str uni s)"
  using format_roundtrip_known [of f uni] format_from_str_other [of uni name name]
  by (auto simp: repository_format_from_str_def to_lowercase_def is_ascii_lower)

theorem repository_format_roundtrip_witness:
  "repository_format_from_str id (repository_format_to_string Npm) = Npm"
  using repository_format_roundtrip [of Npm id "[]" "[]"] by simp

end
