(* ===== verification/Glob.thy ===== *)
theory Glob
  imports Hort_Prelude
begin

text \<open>
  The package-name glob matcher. \<^verbatim>\<open>policy/exclusion.rs\<close> and \<^verbatim>\<open>policy/curation.rs\<close> each
  carry a copy of it; both are translated, and both are proved to implement the declarative
  matching relation \<open>glob\<close>, in which a star stands for any run of bytes and every other byte
  for itself.
\<close>

section \<open>The two matchers\<close>

fun exclusion_matches_inner :: "string \<Rightarrow> string \<Rightarrow> bool" where
  "exclusion_matches_inner [] name = (name = [])"
| "exclusion_matches_inner (p # ps) name =
     (if p = CHR ''*''
      then list_ex (\<lambda>split. exclusion_matches_inner ps (drop split name)) [0..<length name + 1]
      else case name of
             [] \<Rightarrow> False
           | n # ns \<Rightarrow> (if p \<noteq> n then False else exclusion_matches_inner ps ns))"

definition exclusion_pattern_matches :: "string \<Rightarrow> string \<Rightarrow> bool" where
  "exclusion_pattern_matches pattern name = exclusion_matches_inner pattern name"

fun curation_matches_inner :: "string \<Rightarrow> string \<Rightarrow> bool" where
  "curation_matches_inner [] name = (name = [])"
| "curation_matches_inner (p # ps) name =
     (if p = CHR ''*''
      then list_ex (\<lambda>split. curation_matches_inner ps (drop split name)) [0..<length name + 1]
      else case name of
             [] \<Rightarrow> False
           | n # ns \<Rightarrow> (if p \<noteq> n then False else curation_matches_inner ps ns))"

definition curation_pattern_matches :: "string \<Rightarrow> string \<Rightarrow> bool" where
  "curation_pattern_matches pattern name = curation_matches_inner pattern name"

section \<open>Declarative matching\<close>

inductive glob :: "string \<Rightarrow> string \<Rightarrow> bool" where
  glob_end: "glob [] []"
| glob_literal: "p \<noteq> CHR ''*'' \<Longrightarrow> glob ps ns \<Longrightarrow> glob (p # ps) (p # ns)"
| glob_star: "glob ps rest \<Longrightarrow> glob (CHR ''*'' # ps) (run @ rest)"

inductive_cases glob_NilE: "glob [] name"
inductive_cases glob_ConsE: "glob (p # ps) name"

lemma exclusion_star: "exclusion_matches_inner (CHR ''*'' # ps) name \<longleftrightarrow>
    (\<exists>k\<le>length name. exclusion_matches_inner ps (drop k name))"
  by (simp add: list_ex_iff Bex_def less_Suc_eq_le del: upt_Suc)

lemma glob_star_iff: "glob (CHR ''*'' # ps) name \<longleftrightarrow> (\<exists>k\<le>length name. glob ps (drop k name))"
proof
  assume "glob (CHR ''*'' # ps) name"
  then obtain run rest where "name = run @ rest" and "glob ps rest"
    by (auto elim: glob_ConsE)
  then show "\<exists>k\<le>length name. glob ps (drop k name)"
    by (intro exI [of _ "length run"]) simp
next
  assume "\<exists>k\<le>length name. glob ps (drop k name)"
  then obtain k where "glob ps (drop k name)" by blast
  then have "glob (CHR ''*'' # ps) (take k name @ drop k name)" by (rule glob_star)
  then show "glob (CHR ''*'' # ps) name" by simp
qed

lemma glob_literal_iff:
  "p \<noteq> CHR ''*'' \<Longrightarrow> glob (p # ps) name \<longleftrightarrow> (\<exists>ns. name = p # ns \<and> glob ps ns)"
  by (auto elim: glob_ConsE intro: glob_literal)

lemma exclusion_matches_glob: "exclusion_matches_inner pattern name \<longleftrightarrow> glob pattern name"
proof (induction pattern arbitrary: name)
  case Nil
  show ?case by (auto elim: glob_NilE intro: glob_end)
next
  case (Cons p ps)
  show ?case
  proof (cases "p = CHR ''*''")
    case True
    then show ?thesis
      by (simp only: exclusion_star glob_star_iff Cons.IH)
  next
    case False
    then show ?thesis
      by (auto simp: glob_literal_iff Cons.IH split: list.split)
  qed
qed

lemma curation_matches_same: "curation_matches_inner pattern name = exclusion_matches_inner pattern name"
proof (induction pattern arbitrary: name)
  case (Cons p ps)
  then show ?case by (simp split: list.split)
qed simp

section \<open>Consequences\<close>

lemma glob_exact: "CHR ''*'' \<notin> set pattern \<Longrightarrow> glob pattern name \<longleftrightarrow> name = pattern"
proof (induction pattern arbitrary: name)
  case Nil
  show ?case by (auto elim: glob_NilE intro: glob_end)
next
  case (Cons p ps)
  then have star: "p \<noteq> CHR ''*''" and IH: "\<And>ns. glob ps ns \<longleftrightarrow> ns = ps" by auto
  show ?case by (simp add: glob_literal_iff [OF star] IH)
qed

lemma glob_append: "glob p a \<Longrightarrow> glob q b \<Longrightarrow> glob (p @ q) (a @ b)"
proof (induction p a rule: glob.induct)
  case (glob_star ps rest run)
  then have "glob (CHR ''*'' # (ps @ q)) (run @ (rest @ b))" by (intro glob.glob_star) simp
  then show ?case by simp
next
  case (glob_literal p ps ns)
  then show ?case by (simp add: glob.glob_literal)
qed simp

lemma glob_any: "glob [CHR ''*''] name"
  using glob_star [OF glob_end, of name] by simp

section \<open>Properties\<close>

text \<open>
  C35. The exclusion matcher and the curation matcher are the same function, and both decide the
  declarative relation: a star matches any run of bytes, every other byte matches itself, and the
  whole name must be consumed.
\<close>

theorem matchers_decide_glob:
  "exclusion_pattern_matches pattern name = glob pattern name \<and>
   curation_pattern_matches pattern name = glob pattern name"
  by (simp add: exclusion_pattern_matches_def curation_pattern_matches_def curation_matches_same
      exclusion_matches_glob)

end
