(* ===== verification/Scan_Policy.thy ===== *)
theory Scan_Policy
  imports Hort_Types Glob
begin

text \<open>
  The scan policy and exclusion projections of \<^verbatim>\<open>entities/scan_policy.rs\<close>, with the signer
  identity patterns and the validation of a policy's provenance configuration.
\<close>

section \<open>Signer identity patterns\<close>

datatype signer_msg =
    SignerFieldEmpty string
  | SignerFieldTooLong string nat
  | SignerFieldControl string

record signer_identity_pattern =
  sip_issuer :: string
  sip_san :: string

definition max_signer_pattern_len :: nat where "max_signer_pattern_len = 512"

definition validate_field :: "string \<Rightarrow> string \<Rightarrow> signer_msg domain_error + unit" where
  "validate_field field v =
     (if v = [] then Inl (Validation (SignerFieldEmpty field))
      else if length v > max_signer_pattern_len
      then Inl (Validation (SignerFieldTooLong field (length v)))
      else if has_control v then Inl (Validation (SignerFieldControl field))
      else Inr ())"

definition signer_identity_pattern_new ::
    "string \<Rightarrow> string \<Rightarrow> signer_msg domain_error + signer_identity_pattern" where
  "signer_identity_pattern_new issuer san =
     and_then (validate_field ''issuer'' issuer) (\<lambda>_.
     and_then (validate_field ''san'' san) (\<lambda>_.
     Inr \<lparr>sip_issuer = issuer, sip_san = san\<rparr>))"

definition signer_matches :: "signer_identity_pattern \<Rightarrow> string \<Rightarrow> string \<Rightarrow> bool" where
  "signer_matches pat issuer san \<longleftrightarrow>
     exclusion_pattern_matches (sip_issuer pat) issuer \<and> exclusion_pattern_matches (sip_san pat) san"

section \<open>Projections\<close>

datatype policy_scope = ScopeGlobal | ScopeRepository uuid

record scan_policy_projection =
  pol_policy_id :: uuid
  pol_name :: string
  pol_scope :: policy_scope
  pol_severity_threshold :: severity_threshold
  pol_quarantine_duration_secs :: int
  pol_require_approval :: bool
  pol_provenance_mode :: provenance_mode
  pol_provenance_backends :: "string list"
  pol_provenance_identities :: "signer_identity_pattern list"
  pol_max_artifact_age_secs :: "int option"
  pol_license_policy :: json
  pol_archived :: bool
  pol_scan_backends :: "string list"
  pol_rescan_interval_hours :: int
  pol_negligible_action :: negligible_action
  pol_enforcement :: scan_enforcement
  pol_composite_verdict_mode :: composite_verdict_mode
  pol_stream_version :: u64
  pol_created_at :: timestamp
  pol_updated_at :: timestamp

record exclusion_projection =
  ex_exclusion_id :: uuid
  ex_policy_id :: uuid
  ex_cve_id :: string
  ex_package_pattern :: "string option"
  ex_scope :: policy_scope
  ex_reason :: string
  ex_added_by_actor_id :: "uuid option"
  ex_expires_at :: "timestamp option"

section \<open>Provenance configuration\<close>

datatype provenance_config_warning = VerifyIfPresentWithoutIdentities

datatype provenance_config_error =
    NonOffWithoutBackends
  | RequiredWithoutIdentities
  | KeyedBackendWithInertIdentities

definition cosign_key_backend :: string where "cosign_key_backend = ''cosign-key''"

definition validate_provenance_config ::
    "scan_policy_projection \<Rightarrow> provenance_config_error + provenance_config_warning list" where
  "validate_provenance_config p =
     (if pol_provenance_mode p \<noteq> ProvOff \<and> pol_provenance_backends p = []
      then Inl NonOffWithoutBackends
      else
        let has_identity_backend = list_ex (\<lambda>b. b \<noteq> cosign_key_backend) (pol_provenance_backends p);
            has_keyed_backend = list_ex (\<lambda>b. b = cosign_key_backend) (pol_provenance_backends p);
            identities_empty = (pol_provenance_identities p = [])
        in if has_keyed_backend \<and> \<not> has_identity_backend \<and> \<not> identities_empty
           then Inl KeyedBackendWithInertIdentities
           else (case pol_provenance_mode p of
                   Required \<Rightarrow>
                     (if has_identity_backend \<and> identities_empty
                      then Inl RequiredWithoutIdentities else Inr [])
                 | VerifyIfPresent \<Rightarrow>
                     (if has_identity_backend \<and> identities_empty
                      then Inr [VerifyIfPresentWithoutIdentities] else Inr [])
                 | ProvOff \<Rightarrow> Inr []))"

section \<open>Lemmas\<close>

lemma signer_identity_pattern_new_ok:
  "is_ok (signer_identity_pattern_new issuer san) \<longleftrightarrow>
     is_ok (validate_field ''issuer'' issuer) \<and> is_ok (validate_field ''san'' san)"
  by (auto simp: signer_identity_pattern_new_def is_ok_def and_then_def split: sum.splits)

text \<open>What an accepted configuration that demands a signature can rely on.\<close>

lemma required_config_checkable:
  assumes "pol_provenance_mode p = Required" and "is_ok (validate_provenance_config p)"
  shows "pol_provenance_backends p \<noteq> [] \<and>
    ((\<exists>b\<in>set (pol_provenance_backends p). b \<noteq> cosign_key_backend) \<longleftrightarrow> pol_provenance_identities p \<noteq> [])"
  using assms
  by (cases "pol_provenance_backends p = []")
    (auto simp: validate_provenance_config_def Let_def list_ex_iff neq_Nil_conv split: if_splits)

end
