(* ===== verification/Policy_Exclusion.thy ===== *)
theory Policy_Exclusion
  imports Findings Repository_Format Scan_Policy
begin

text \<open>
  Exclusion filtering (\<^verbatim>\<open>policy/exclusion.rs\<close>) and curation (\<^verbatim>\<open>policy/curation.rs\<close>):
  the findings an active exclusion suppresses, the older counter-only filter, and the
  first-match evaluation of a repository's curation rules.
\<close>

section \<open>Coordinates\<close>

record artifact_coords =
  co_name :: string
  co_name_as_published :: string
  co_version :: "string option"
  co_path :: string
  co_format :: repository_format
  co_metadata :: json

section \<open>Filtering findings\<close>

definition is_active :: "exclusion_projection \<Rightarrow> timestamp \<Rightarrow> bool" where
  "is_active ex now =
     (case ex_expires_at ex of None \<Rightarrow> True | Some expires_at \<Rightarrow> expires_at > now)"

definition cve_matches :: "exclusion_projection \<Rightarrow> finding \<Rightarrow> bool" where
  "cve_matches ex f =
     (if eq_ignore_ascii_case (ex_cve_id ex) (f_vulnerability_id f) then True
      else list_ex (\<lambda>alias. eq_ignore_ascii_case (ex_cve_id ex) alias) (f_aliases f))"

definition matches_coords :: "exclusion_projection \<Rightarrow> artifact_coords \<Rightarrow> bool" where
  "matches_coords ex coords =
     (case ex_package_pattern ex of
        None \<Rightarrow> True
      | Some pattern \<Rightarrow> exclusion_pattern_matches pattern (co_name coords))"

definition summary_of :: "finding list \<Rightarrow> severity_summary" where
  "summary_of findings =
     foldl (\<lambda>s f.
       if is_informational f then s\<lparr>s_negligible := s_negligible s + 1\<rparr>
       else (case f_severity f of
               Critical \<Rightarrow> s\<lparr>s_critical := s_critical s + 1\<rparr>
             | High \<Rightarrow> s\<lparr>s_high := s_high s + 1\<rparr>
             | Medium \<Rightarrow> s\<lparr>s_medium := s_medium s + 1\<rparr>
             | Low \<Rightarrow> s\<lparr>s_low := s_low s + 1\<rparr>))
       \<lparr>s_critical = 0, s_high = 0, s_medium = 0, s_low = 0, s_negligible = 0\<rparr> findings"

record filtered_findings =
  ff_remaining :: severity_summary
  ff_remaining_findings :: "finding list"
  ff_excluded_count :: u32
  ff_matched_exclusion_ids :: "uuid list"

text \<open>The inner loop: every exclusion is tried against the finding, so all matches are recorded.\<close>

fun match_exclusions ::
    "artifact_coords \<Rightarrow> timestamp \<Rightarrow> finding \<Rightarrow> exclusion_projection list \<Rightarrow> bool \<Rightarrow> uuid list
     \<Rightarrow> bool \<times> uuid list" where
  "match_exclusions coords now f [] drop_finding ids = (drop_finding, ids)"
| "match_exclusions coords now f (ex # exs) drop_finding ids =
     (if \<not> is_active ex now then match_exclusions coords now f exs drop_finding ids
      else if \<not> cve_matches ex f then match_exclusions coords now f exs drop_finding ids
      else if \<not> matches_coords ex coords then match_exclusions coords now f exs drop_finding ids
      else match_exclusions coords now f exs True
             (if ex_exclusion_id ex \<in> set ids then ids else ids @ [ex_exclusion_id ex]))"

fun filter_loop ::
    "exclusion_projection list \<Rightarrow> artifact_coords \<Rightarrow> timestamp \<Rightarrow> finding list \<Rightarrow> finding list
     \<Rightarrow> uuid list \<Rightarrow> finding list \<times> uuid list" where
  "filter_loop exclusions coords now [] remaining ids = (remaining, ids)"
| "filter_loop exclusions coords now (f # fs) remaining ids =
     (let (drop_finding, ids') = match_exclusions coords now f exclusions False ids in
      filter_loop exclusions coords now fs (if drop_finding then remaining else remaining @ [f]) ids')"

definition filter_excluded_findings ::
    "finding list \<Rightarrow> exclusion_projection list \<Rightarrow> artifact_coords \<Rightarrow> timestamp \<Rightarrow> filtered_findings" where
  "filter_excluded_findings findings exclusions coords now =
     (let (remaining_findings, matched) = filter_loop exclusions coords now findings [] [] in
      \<lparr>ff_remaining = summary_of remaining_findings,
       ff_remaining_findings = remaining_findings,
       ff_excluded_count = of_nat (length findings - length remaining_findings),
       ff_matched_exclusion_ids = matched\<rparr>)"

section \<open>Filtering a summary\<close>

record filtered_summary =
  fs_remaining :: severity_summary
  fs_excluded_count :: u32
  fs_matched_exclusion_ids :: "uuid list"

definition exclude_one ::
    "artifact_coords \<Rightarrow> timestamp \<Rightarrow> filtered_summary \<Rightarrow> exclusion_projection \<Rightarrow> filtered_summary" where
  "exclude_one coords now acc ex =
     (if \<not> is_active ex now then acc
      else if \<not> matches_coords ex coords then acc
      else
        let r = fs_remaining acc;
            acc' = acc\<lparr>fs_matched_exclusion_ids := fs_matched_exclusion_ids acc @ [ex_exclusion_id ex]\<rparr>;
            counted = acc'\<lparr>fs_excluded_count := fs_excluded_count acc' + 1\<rparr>
        in if s_critical r > 0 then counted\<lparr>fs_remaining := r\<lparr>s_critical := s_critical r - 1\<rparr>\<rparr>
           else if s_high r > 0 then counted\<lparr>fs_remaining := r\<lparr>s_high := s_high r - 1\<rparr>\<rparr>
           else if s_medium r > 0 then counted\<lparr>fs_remaining := r\<lparr>s_medium := s_medium r - 1\<rparr>\<rparr>
           else if s_low r > 0 then counted\<lparr>fs_remaining := r\<lparr>s_low := s_low r - 1\<rparr>\<rparr>
           else acc')"

definition filter_excluded_summary ::
    "severity_summary \<Rightarrow> exclusion_projection list \<Rightarrow> artifact_coords \<Rightarrow> timestamp \<Rightarrow> filtered_summary" where
  "filter_excluded_summary summary exclusions coords now =
     foldl (exclude_one coords now)
       \<lparr>fs_remaining = summary, fs_excluded_count = 0, fs_matched_exclusion_ids = []\<rparr> exclusions"

section \<open>Curation\<close>

datatype managed_by = ManagedLocal | ManagedGitOps

record curation_rule =
  rule_id :: uuid
  rule_name :: string
  rule_format :: "repository_format option"
  rule_package_pattern :: string
  rule_action :: curation_rule_action
  rule_reason :: string
  rule_managed_by :: managed_by
  rule_managed_by_digest :: "string option"

definition format_matches :: "curation_rule \<Rightarrow> artifact_coords \<Rightarrow> bool" where
  "format_matches rule coords =
     (case rule_format rule of None \<Rightarrow> True | Some f \<Rightarrow> f = co_format coords)"

definition first_matching_rule :: "artifact_coords \<Rightarrow> curation_rule list \<Rightarrow> curation_rule option" where
  "first_matching_rule coords rules =
     find (\<lambda>rule. format_matches rule coords \<and>
                  curation_pattern_matches (rule_package_pattern rule) (co_name coords)) rules"

datatype curation_outcome =
    CurationAllow
  | CurationWarn (cur_rule_name: string) (cur_reason: string)
  | CurationBlock (cur_rule_name: string) (cur_rule_id: uuid) (cur_reason: string)

definition evaluate_curation :: "artifact_coords \<Rightarrow> curation_rule list \<Rightarrow> curation_outcome" where
  "evaluate_curation coords rules =
     (case first_matching_rule coords rules of
        None \<Rightarrow> CurationAllow
      | Some rule \<Rightarrow>
          (case rule_action rule of
             RuleBlock \<Rightarrow> CurationBlock (rule_name rule) (rule_id rule) (rule_reason rule)
           | RuleWarn \<Rightarrow> CurationWarn (rule_name rule) (rule_reason rule)
           | RuleAllow \<Rightarrow> CurationAllow))"

datatype retroactive_curation_outcome =
    NoChange
  | RetroWarn (retro_rule_name: string) (retro_reason: string) (retro_rule_id: uuid)
  | RetroBlock (retro_rule_name: string) (retro_reason: string) (retro_rule_id: uuid)

definition evaluate_curation_retroactive ::
    "artifact_coords \<Rightarrow> curation_rule list \<Rightarrow> retroactive_curation_outcome" where
  "evaluate_curation_retroactive coords rules =
     (case first_matching_rule coords rules of
        None \<Rightarrow> NoChange
      | Some rule \<Rightarrow>
          (case rule_action rule of
             RuleBlock \<Rightarrow> RetroBlock (rule_name rule) (rule_reason rule) (rule_id rule)
           | RuleWarn \<Rightarrow> RetroWarn (rule_name rule) (rule_reason rule) (rule_id rule)
           | RuleAllow \<Rightarrow> NoChange))"

lemma find_after_misses: "\<forall>y\<in>set pre. \<not> P y \<Longrightarrow> P x \<Longrightarrow> find P (pre @ x # post) = Some x"
  by (induction pre) auto

lemma find_Some_split:
  "find P xs = Some x \<longleftrightarrow> (\<exists>pre post. xs = pre @ x # post \<and> (\<forall>y\<in>set pre. \<not> P y) \<and> P x)"
proof
  assume found: "find P xs = Some x"
  then have "\<exists>y\<in>set xs. P y" by (metis find_None_iff option.distinct(1))
  then obtain pre y post where split: "xs = pre @ y # post" "P y" "\<forall>z\<in>set pre. \<not> P z"
    using split_list_first_prop [of xs P] by blast
  with found have "y = x" by (simp add: find_after_misses)
  with split show "\<exists>pre post. xs = pre @ x # post \<and> (\<forall>y\<in>set pre. \<not> P y) \<and> P x" by blast
qed (auto simp: find_after_misses)

section \<open>What the filter keeps\<close>

text \<open>One exclusion suppresses one finding of an artifact.\<close>

definition suppresses :: "artifact_coords \<Rightarrow> timestamp \<Rightarrow> exclusion_projection \<Rightarrow> finding \<Rightarrow> bool" where
  "suppresses coords now ex f \<longleftrightarrow> is_active ex now \<and> cve_matches ex f \<and> matches_coords ex coords"

lemma summary_of_same: "summary_of findings = severity_summary_from_findings findings"
  by (simp add: summary_of_def severity_summary_from_findings_def tally_finding_def [abs_def]
      empty_summary_def)

lemma match_exclusions_drop:
  "fst (match_exclusions coords now f exs d ids) \<longleftrightarrow> d \<or> (\<exists>ex\<in>set exs. suppresses coords now ex f)"
  by (induction exs arbitrary: d ids) (auto simp: suppresses_def)

lemma match_exclusions_ids:
  "set (snd (match_exclusions coords now f exs d ids))
     = set ids \<union> {ex_exclusion_id ex | ex. ex \<in> set exs \<and> suppresses coords now ex f}"
  by (induction exs arbitrary: d ids) (auto simp: suppresses_def)

lemma match_exclusions_distinct:
  "distinct ids \<Longrightarrow> distinct (snd (match_exclusions coords now f exs d ids))"
  by (induction exs arbitrary: d ids) auto

lemma filter_loop_remaining:
  "fst (filter_loop exs coords now fs acc ids)
     = acc @ filter (\<lambda>f. \<not> (\<exists>ex\<in>set exs. suppresses coords now ex f)) fs"
proof (induction fs arbitrary: acc ids)
  case (Cons f fs)
  then show ?case
    using match_exclusions_drop [of coords now f exs False ids]
    by (auto simp: Let_def split: prod.split)
qed simp

lemma filter_loop_ids:
  "set (snd (filter_loop exs coords now fs acc ids))
     = set ids \<union> {ex_exclusion_id ex | ex. ex \<in> set exs \<and> (\<exists>f\<in>set fs. suppresses coords now ex f)}"
proof (induction fs arbitrary: acc ids)
  case (Cons f fs)
  obtain d ids' where m: "match_exclusions coords now f exs False ids = (d, ids')" by fastforce
  have "set ids' = set ids \<union> {ex_exclusion_id ex | ex. ex \<in> set exs \<and> suppresses coords now ex f}"
    using match_exclusions_ids [of coords now f exs False ids] by (simp add: m)
  then show ?case by (auto simp: m Cons.IH)
qed simp

lemma filter_loop_distinct:
  "distinct ids \<Longrightarrow> distinct (snd (filter_loop exs coords now fs acc ids))"
proof (induction fs arbitrary: acc ids)
  case (Cons f fs)
  then show ?case
    using match_exclusions_distinct [of ids coords now f exs False]
    by (auto simp: Let_def split: prod.split)
qed simp

lemma filtered_remaining:
  "ff_remaining_findings (filter_excluded_findings fs exs coords now)
     = filter (\<lambda>f. \<not> (\<exists>ex\<in>set exs. suppresses coords now ex f)) fs"
  using filter_loop_remaining [of exs coords now fs "[]" "[]"]
  by (simp add: filter_excluded_findings_def case_prod_beta)

lemma filtered_summary:
  "ff_remaining (filter_excluded_findings fs exs coords now)
     = severity_summary_from_findings (ff_remaining_findings (filter_excluded_findings fs exs coords now))"
  by (simp add: filter_excluded_findings_def summary_of_same case_prod_beta)

lemma filtered_ids:
  "set (ff_matched_exclusion_ids (filter_excluded_findings fs exs coords now))
     = {ex_exclusion_id ex | ex. ex \<in> set exs \<and> (\<exists>f\<in>set fs. suppresses coords now ex f)}"
  "distinct (ff_matched_exclusion_ids (filter_excluded_findings fs exs coords now))"
  using filter_loop_ids [of exs coords now fs "[]" "[]"]
    filter_loop_distinct [of "[]" exs coords now fs "[]"]
  by (simp_all add: filter_excluded_findings_def case_prod_beta)

lemma filtered_count:
  "length fs < 4294967296 \<Longrightarrow>
   unat (ff_excluded_count (filter_excluded_findings fs exs coords now))
     = length (filter (\<lambda>f. \<exists>ex\<in>set exs. suppresses coords now ex f) fs)"
proof -
  assume small: "length fs < 4294967296"
  define sup where "sup = (\<lambda>f. \<exists>ex\<in>set exs. suppresses coords now ex f)"
  have "length fs - length (filter (\<lambda>f. \<not> sup f) fs) = length (filter sup fs)"
    using sum_length_filter_compl [of sup fs] by simp
  moreover have "fst (filter_loop exs coords now fs [] []) = filter (\<lambda>f. \<not> sup f) fs"
    using filter_loop_remaining [of exs coords now fs "[]" "[]"] by (simp add: sup_def)
  ultimately have "ff_excluded_count (filter_excluded_findings fs exs coords now) = of_nat (length (filter sup fs))"
    by (simp add: filter_excluded_findings_def case_prod_beta)
  then show ?thesis
    using length_filter_small [OF small, of sup] by (simp add: unat_of_nat sup_def)
qed

text \<open>No step of the filter reads the scope of an exclusion.\<close>

lemma suppresses_scope: "suppresses coords now (ex\<lparr>ex_scope := sc\<rparr>) f = suppresses coords now ex f"
  by (simp add: suppresses_def is_active_def cve_matches_def matches_coords_def)

text \<open>Suppression in declarative terms.\<close>

definition exclusion_hits :: "artifact_coords \<Rightarrow> timestamp \<Rightarrow> exclusion_projection \<Rightarrow> finding \<Rightarrow> bool" where
  "exclusion_hits coords now ex f \<longleftrightarrow>
     (\<forall>t. ex_expires_at ex = Some t \<longrightarrow> now < t) \<and>
     (\<exists>v\<in>set (f_vulnerability_id f # f_aliases f). eq_ignore_ascii_case (ex_cve_id ex) v) \<and>
     (\<forall>p. ex_package_pattern ex = Some p \<longrightarrow> glob p (co_name coords))"

lemma suppresses_hits: "suppresses coords now ex f = exclusion_hits coords now ex f"
  by (auto simp: suppresses_def exclusion_hits_def is_active_def cve_matches_def matches_coords_def
      list_ex_iff exclusion_pattern_matches_def exclusion_matches_glob split: option.splits)

section \<open>Properties\<close>

text \<open>
  The exclusion filter. A finding survives exactly when no exclusion suppresses it, in the
  original order; an exclusion suppresses a finding when it has not expired, names the
  vulnerability or one of its aliases up to ASCII case, and its pattern, if any, matches the
  package name; the reported summary is the summary of the survivors; the reported exclusions are
  those that suppressed something, each once; and the count is the number of suppressed findings.
\<close>

theorem exclusion_filter_spec:
  assumes "length findings < 4294967296"
  shows "ff_remaining_findings (filter_excluded_findings findings exclusions coords now)
      = filter (\<lambda>f. \<forall>ex\<in>set exclusions. \<not> exclusion_hits coords now ex f) findings \<and>
    ff_remaining (filter_excluded_findings findings exclusions coords now)
      = severity_summary_from_findings
          (filter (\<lambda>f. \<forall>ex\<in>set exclusions. \<not> exclusion_hits coords now ex f) findings) \<and>
    set (ff_matched_exclusion_ids (filter_excluded_findings findings exclusions coords now))
      = {ex_exclusion_id ex | ex. ex \<in> set exclusions \<and> (\<exists>f\<in>set findings. exclusion_hits coords now ex f)} \<and>
    distinct (ff_matched_exclusion_ids (filter_excluded_findings findings exclusions coords now)) \<and>
    unat (ff_excluded_count (filter_excluded_findings findings exclusions coords now))
      = length (filter (\<lambda>f. \<exists>ex\<in>set exclusions. exclusion_hits coords now ex f) findings)"
  using filtered_count [OF assms, of exclusions coords now]
  by (simp add: filtered_remaining filtered_ids filtered_summary suppresses_hits)

definition sample_exclusion :: exclusion_projection where
  "sample_exclusion =
     \<lparr>ex_exclusion_id = 7, ex_policy_id = 1, ex_cve_id = ''cve-2026-1'',
      ex_package_pattern = Some ''left-*'', ex_scope = ScopeRepository 9, ex_reason = ''not reachable'',
      ex_added_by_actor_id = None, ex_expires_at = None\<rparr>"

definition sample_coords :: artifact_coords where
  "sample_coords =
     \<lparr>co_name = ''left-pad'', co_name_as_published = ''left-pad'', co_version = Some ''1.0.0'',
      co_path = ''left-pad-1.0.0.tgz'', co_format = Npm, co_metadata = JNull\<rparr>"

theorem exclusion_filter_spec_witness:
  "distinct (ff_matched_exclusion_ids (filter_excluded_findings [] [sample_exclusion] sample_coords 0))"
  using exclusion_filter_spec [of "[]" "[sample_exclusion]" sample_coords 0] by simp

text \<open>
  Curation is decided by the first rule that applies to the artifact's format and name.
  Admission and the retroactive sweep read the same rule: one blocks exactly when the other does,
  with the same rule and reason, and a rule list none of whose rules applies allows.
\<close>

theorem curation_first_match:
  "(evaluate_curation coords rules = CurationBlock name rid why \<longleftrightarrow>
      evaluate_curation_retroactive coords rules = RetroBlock name why rid) \<and>
   (evaluate_curation_retroactive coords rules = RetroBlock name why rid \<longleftrightarrow>
      (\<exists>pre rule post. rules = pre @ rule # post \<and>
         (\<forall>q\<in>set pre. \<not> (format_matches q coords \<and> glob (rule_package_pattern q) (co_name coords))) \<and>
         format_matches rule coords \<and> glob (rule_package_pattern rule) (co_name coords) \<and>
         rule_action rule = RuleBlock \<and> rule_name rule = name \<and> rule_id rule = rid \<and>
         rule_reason rule = why)) \<and>
   ((\<forall>q\<in>set rules. \<not> (format_matches q coords \<and> glob (rule_package_pattern q) (co_name coords))) \<longrightarrow>
      evaluate_curation coords rules = CurationAllow \<and> evaluate_curation_retroactive coords rules = NoChange)"
proof -
  define app where "app = (\<lambda>rule. format_matches rule coords \<and>
      glob (rule_package_pattern rule) (co_name coords))"
  have first: "first_matching_rule coords rules = find app rules"
    by (simp add: first_matching_rule_def app_def curation_pattern_matches_def curation_matches_same
        exclusion_matches_glob)
  have retro: "evaluate_curation_retroactive coords rules = RetroBlock name why rid \<longleftrightarrow>
      (\<exists>rule. find app rules = Some rule \<and> rule_action rule = RuleBlock \<and> rule_name rule = name \<and>
         rule_id rule = rid \<and> rule_reason rule = why)"
    by (auto simp: evaluate_curation_retroactive_def first split: option.splits curation_rule_action.splits)
  have "evaluate_curation coords rules = CurationBlock name rid why \<longleftrightarrow>
      evaluate_curation_retroactive coords rules = RetroBlock name why rid"
    by (auto simp: evaluate_curation_def evaluate_curation_retroactive_def
        split: option.splits curation_rule_action.splits)
  moreover have "evaluate_curation coords rules = CurationAllow \<and> evaluate_curation_retroactive coords rules = NoChange"
    if "\<forall>q\<in>set rules. \<not> app q"
  proof -
    have "find app rules = None" using that by (simp add: find_None_iff)
    then show ?thesis by (simp add: evaluate_curation_def evaluate_curation_retroactive_def first)
  qed
  ultimately show ?thesis
    unfolding retro find_Some_split app_def by blast
qed

definition sample_rule :: "string \<Rightarrow> curation_rule" where
  "sample_rule pattern =
     \<lparr>rule_id = 7, rule_name = ''deny'', rule_format = None, rule_package_pattern = pattern,
      rule_action = RuleBlock, rule_reason = ''typosquat'', rule_managed_by = ManagedLocal,
      rule_managed_by_digest = None\<rparr>"

theorem curation_first_match_witness:
  "evaluate_curation sample_coords [sample_rule ''other'', sample_rule ''*'']
     = CurationBlock ''deny'' 7 ''typosquat''"
proof -
  have "evaluate_curation_retroactive sample_coords [sample_rule ''other'', sample_rule ''*'']
      = RetroBlock ''deny'' ''typosquat'' 7"
    by (simp add: evaluate_curation_retroactive_def first_matching_rule_def curation_pattern_matches_def
        curation_matches_same exclusion_matches_glob glob_exact glob_any format_matches_def sample_rule_def
        sample_coords_def)
  then show ?thesis
    using curation_first_match [of sample_coords "[sample_rule ''other'', sample_rule ''*'']"
        "''deny''" 7 "''typosquat''"] by simp
qed

end
