(* ===== verification/Policy_Scan.thy ===== *)
theory Policy_Scan
  imports Policy_Primitives Policy_Exclusion
begin

text \<open>
  The scan gate (\<^verbatim>\<open>policy/scan.rs\<close>) and the scan delta (\<^verbatim>\<open>policy/scan_delta.rs\<close>): what a
  completed scan decides about an artifact, from its findings, the policy in force and the
  exclusions. The lemmas characterise the verdict by the findings alone.
\<close>

section \<open>The gate\<close>

definition negligible_rule :: string where "negligible_rule = ''negligible-advisory''"

datatype scan_outcome =
    Clean
  | RejectScan "policy_violation list"
  | FindingsRecorded "policy_violation list"

definition block_on_critical :: severity_threshold where "block_on_critical = Critical"
definition block_on_critical_default_backends :: "string list" where
  "block_on_critical_default_backends = [''trivy'']"
definition default_rescan_interval_hours :: int where "default_rescan_interval_hours = 24"
definition default_quarantine_duration_secs :: int where "default_quarantine_duration_secs = 86400"
definition default_negligible_action :: negligible_action where "default_negligible_action = NegIgnore"
definition default_enforcement :: scan_enforcement where "default_enforcement = EnforceReject"
definition default_composite_verdict_mode :: composite_verdict_mode where
  "default_composite_verdict_mode = Observed"

text \<open>\<^verbatim>\<open>Option::map(..).unwrap_or_else(..)\<close> over the resolved policy.\<close>

definition policy_or ::
    "(scan_policy_projection \<Rightarrow> 'a) \<Rightarrow> 'a \<Rightarrow> scan_policy_projection option \<Rightarrow> 'a" where
  "policy_or get dflt policy = (case policy of None \<Rightarrow> dflt | Some p \<Rightarrow> get p)"

definition composite_verdict_mode_of :: "scan_policy_projection option \<Rightarrow> composite_verdict_mode" where
  "composite_verdict_mode_of policy =
     policy_or pol_composite_verdict_mode default_composite_verdict_mode policy"

definition effective_quarantine_deadline :: "timestamp \<Rightarrow> duration \<Rightarrow> timestamp" where
  "effective_quarantine_deadline window_start dur = window_start + dur"

definition collect_negligible_action ::
    "violations_accumulator \<Rightarrow> negligible_action \<Rightarrow> u32 \<Rightarrow> violations_accumulator" where
  "collect_negligible_action acc action negligible_count =
     (if negligible_count = 0 then acc
      else
        let violation =
              \<lparr>pv_rule = negligible_rule,
               pv_severity = Low,
               pv_message = NegligibleMessage negligible_count action,
               pv_details = JObject [(''negligible_count'', json_of_u32 negligible_count)]\<rparr>
        in case action of
             NegIgnore \<Rightarrow> acc
           | NegWarn \<Rightarrow> collect_with_policy_action acc [violation] ActWarn
           | NegBlock \<Rightarrow> collect_with_policy_action acc [violation] ActBlock)"

definition has_license_policy :: "json \<Rightarrow> bool" where
  "has_license_policy v =
     (if json_is_null v then False
      else case json_as_object v of
             Some obj \<Rightarrow> obj \<noteq> []
           | None \<Rightarrow> True)"

definition scan_outcome_of :: "scan_enforcement \<Rightarrow> policy_action \<times> policy_violation list \<Rightarrow> scan_outcome" where
  "scan_outcome_of enforcement outcome =
     (let (action, violations) = outcome in
      case action of
        ActBlock \<Rightarrow> (case enforcement of
                      EnforceReject \<Rightarrow> RejectScan violations
                    | EnforceRecord \<Rightarrow> FindingsRecorded violations)
      | ActWarn \<Rightarrow> Clean
      | ActAllow \<Rightarrow> Clean)"

definition evaluate_scan_result ::
    "(string \<Rightarrow> string) \<Rightarrow> artifact_coords \<Rightarrow> artifact_kind \<Rightarrow> finding list
     \<Rightarrow> scan_policy_projection option \<Rightarrow> exclusion_projection list \<Rightarrow> timestamp \<Rightarrow> scan_outcome" where
  "evaluate_scan_result uni coords kind findings policy exclusions now =
     (let filtered = filter_excluded_findings findings exclusions coords now;
          composite_verdict = composite_verdict_mode_of policy;
          condemning = filter (\<lambda>f. may_condemn_artifact f kind composite_verdict)
                         (ff_remaining_findings filtered);
          condemning_summary = severity_summary_from_findings condemning;
          threshold = policy_or pol_severity_threshold block_on_critical policy;
          acc1 = collect_with_severity_escalation accumulator_new
                   (evaluate_cve_thresholds condemning_summary threshold);
          acc2 = (case policy of
                    None \<Rightarrow> acc1
                  | Some p \<Rightarrow>
                      if has_license_policy (pol_license_policy p)
                      then let (license_violations, license_action) =
                                 evaluate_license_policy uni [] (pol_license_policy p)
                           in collect_with_policy_action acc1 license_violations license_action
                      else acc1);
          acc3 = collect_negligible_action acc2
                   (policy_or pol_negligible_action default_negligible_action policy)
                   (s_negligible condemning_summary);
          enforcement = policy_or pol_enforcement default_enforcement policy
      in scan_outcome_of enforcement (into_outcome acc3))"

definition evaluate_scan_summary ::
    "severity_summary \<Rightarrow> scan_policy_projection option \<Rightarrow> scan_outcome" where
  "evaluate_scan_summary summary policy =
     (let threshold = policy_or pol_severity_threshold block_on_critical policy;
          acc1 = collect_with_severity_escalation accumulator_new
                   (evaluate_cve_thresholds summary threshold);
          acc2 = collect_negligible_action acc1
                   (policy_or pol_negligible_action default_negligible_action policy)
                   (s_negligible summary);
          enforcement = policy_or pol_enforcement default_enforcement policy
      in scan_outcome_of enforcement (into_outcome acc2))"

section \<open>The delta between two scans\<close>

definition compute_added_findings :: "finding list \<Rightarrow> finding list \<Rightarrow> finding list" where
  "compute_added_findings prior current =
     (if current = [] then []
      else
        let prior_keys = (\<lambda>f. (f_purl f, to_ascii_lowercase (f_vulnerability_id f))) ` set prior
        in filter (\<lambda>f. (f_purl f, to_ascii_lowercase (f_vulnerability_id f)) \<notin> prior_keys) current)"

section \<open>When the gate blocks\<close>

definition blocking_severity :: "severity_threshold \<Rightarrow> severity_threshold \<Rightarrow> bool" where
  "blocking_severity threshold sev \<longleftrightarrow> sev = Critical \<or> (sev = High \<and> threshold \<noteq> Critical)"

text \<open>A finding that blocks by itself, under the resolved threshold and negligible action.\<close>

definition blocks_gate :: "scan_policy_projection option \<Rightarrow> finding \<Rightarrow> bool" where
  "blocks_gate policy f \<longleftrightarrow>
     (if is_informational f
      then policy_or pol_negligible_action default_negligible_action policy = NegBlock
      else blocking_severity (policy_or pol_severity_threshold block_on_critical policy) (f_severity f))"

definition gate_blocked :: "severity_summary \<Rightarrow> scan_policy_projection option \<Rightarrow> bool" where
  "gate_blocked s policy \<longleftrightarrow>
     (\<exists>t. 0 < tier_count s t \<and>
          blocking_severity (policy_or pol_severity_threshold block_on_critical policy) t) \<or>
     (s_negligible s \<noteq> 0 \<and>
      policy_or pol_negligible_action default_negligible_action policy = NegBlock)"

lemma cve_lane_blocks:
  "acc_action (collect_with_severity_escalation accumulator_new (evaluate_cve_thresholds s threshold)) = ActBlock
     \<longleftrightarrow> (\<exists>t. 0 < tier_count s t \<and> blocking_severity threshold t)"
proof -
  have "(\<exists>v\<in>set (evaluate_cve_thresholds s threshold). pv_severity v = Critical \<or> pv_severity v = High)
      \<longleftrightarrow> (\<exists>t\<in>pv_severity ` set (evaluate_cve_thresholds s threshold). t = Critical \<or> t = High)"
    by blast
  also have "\<dots> \<longleftrightarrow> (\<exists>t. 0 < tier_count s t \<and> blocking_severity threshold t)"
    unfolding cve_violation_tiers blocking_severity_def
    using exceeds_critical_or_high [of _ threshold] by blast
  finally show ?thesis
    by (simp add: collect_severity_block accumulator_new_def)
qed

lemma negligible_lane_blocks:
  "acc_action (collect_negligible_action acc action negligible_count) = ActBlock \<longleftrightarrow>
     acc_action acc = ActBlock \<or> (negligible_count \<noteq> 0 \<and> action = NegBlock)"
  by (cases action) (simp_all add: collect_negligible_action_def collect_policy_block)

lemma license_lane_blocks:
  assumes "evaluate_license_policy uni [] policy = (vs, action)"
  shows "acc_action (collect_with_policy_action acc vs action) = ActBlock \<longleftrightarrow> acc_action acc = ActBlock"
  using license_policy_no_licenses [OF assms] by (auto simp: collect_policy_block)

text \<open>The three outcomes as a function of ``blocked'' and the enforcement mode.\<close>

lemma scan_outcome_cases:
  "scan_outcome_of enforcement (into_outcome acc) = Clean \<longleftrightarrow> acc_action acc \<noteq> ActBlock"
  "(\<exists>vs. scan_outcome_of enforcement (into_outcome acc) = RejectScan vs)
     \<longleftrightarrow> acc_action acc = ActBlock \<and> enforcement = EnforceReject"
  "(\<exists>vs. scan_outcome_of enforcement (into_outcome acc) = FindingsRecorded vs)
     \<longleftrightarrow> acc_action acc = ActBlock \<and> enforcement = EnforceRecord"
  by (auto simp: scan_outcome_of_def into_outcome_def split: policy_action.split scan_enforcement.split)

definition condemning_findings ::
    "artifact_coords \<Rightarrow> artifact_kind \<Rightarrow> finding list \<Rightarrow> scan_policy_projection option
     \<Rightarrow> exclusion_projection list \<Rightarrow> timestamp \<Rightarrow> finding list" where
  "condemning_findings coords kind findings policy exclusions now =
     filter (\<lambda>f. may_condemn_artifact f kind (composite_verdict_mode_of policy) \<and>
                 \<not> (\<exists>ex\<in>set exclusions. suppresses coords now ex f)) findings"

lemma condemning_filter:
  "filter (\<lambda>f. may_condemn_artifact f kind (composite_verdict_mode_of policy))
     (ff_remaining_findings (filter_excluded_findings findings exclusions coords now))
   = condemning_findings coords kind findings policy exclusions now"
  by (simp add: filtered_remaining condemning_findings_def conj_commute)

lemma scan_summary_outcome:
  "evaluate_scan_summary s policy = Clean \<longleftrightarrow> \<not> gate_blocked s policy"
  "(\<exists>vs. evaluate_scan_summary s policy = RejectScan vs)
     \<longleftrightarrow> gate_blocked s policy \<and> policy_or pol_enforcement default_enforcement policy = EnforceReject"
  by (simp_all only: evaluate_scan_summary_def Let_def scan_outcome_cases negligible_lane_blocks
      cve_lane_blocks gate_blocked_def)

definition license_lane ::
    "(string \<Rightarrow> string) \<Rightarrow> scan_policy_projection option \<Rightarrow> violations_accumulator \<Rightarrow> violations_accumulator" where
  "license_lane uni policy acc =
     (case policy of
        None \<Rightarrow> acc
      | Some p \<Rightarrow>
          if has_license_policy (pol_license_policy p)
          then let (license_violations, license_action) = evaluate_license_policy uni [] (pol_license_policy p)
               in collect_with_policy_action acc license_violations license_action
          else acc)"

lemma license_lane_action:
  "acc_action (license_lane uni policy acc) = ActBlock \<longleftrightarrow> acc_action acc = ActBlock"
  using license_lane_blocks
  by (auto simp: license_lane_def Let_def split: option.split prod.split)

lemma scan_result_outcome:
  fixes coords kind findings policy exclusions now
  defines "s \<equiv> severity_summary_from_findings (condemning_findings coords kind findings policy exclusions now)"
  shows "evaluate_scan_result uni coords kind findings policy exclusions now = Clean \<longleftrightarrow> \<not> gate_blocked s policy"
    and "(\<exists>vs. evaluate_scan_result uni coords kind findings policy exclusions now = RejectScan vs)
      \<longleftrightarrow> gate_blocked s policy \<and> policy_or pol_enforcement default_enforcement policy = EnforceReject"
    and "(\<exists>vs. evaluate_scan_result uni coords kind findings policy exclusions now = FindingsRecorded vs)
      \<longleftrightarrow> gate_blocked s policy \<and> policy_or pol_enforcement default_enforcement policy = EnforceRecord"
  unfolding evaluate_scan_result_def Let_def condemning_filter
    license_lane_def [unfolded Let_def, symmetric]
  by (simp_all only: s_def [symmetric] scan_outcome_cases negligible_lane_blocks
      license_lane_action cve_lane_blocks gate_blocked_def)

text \<open>The class of a verdict: what the gate does with the artifact, without the violation list.\<close>

datatype verdict = VerdictClean | VerdictReject | VerdictRecord

fun verdict_of :: "scan_outcome \<Rightarrow> verdict" where
  "verdict_of Clean = VerdictClean"
| "verdict_of (RejectScan _) = VerdictReject"
| "verdict_of (FindingsRecorded _) = VerdictRecord"

lemma verdict_of_scan:
  "verdict_of (evaluate_scan_result uni coords kind findings policy exclusions now) =
     (if gate_blocked (severity_summary_from_findings
           (condemning_findings coords kind findings policy exclusions now)) policy
      then if policy_or pol_enforcement default_enforcement policy = EnforceReject
           then VerdictReject else VerdictRecord
      else VerdictClean)"
proof (cases "evaluate_scan_result uni coords kind findings policy exclusions now")
  case Clean
  then show ?thesis using scan_result_outcome(1) [of uni coords kind findings policy exclusions now] by simp
next
  case (RejectScan vs)
  then show ?thesis using scan_result_outcome(2) [of uni coords kind findings policy exclusions now] by auto
next
  case (FindingsRecorded vs)
  then show ?thesis using scan_result_outcome(3) [of uni coords kind findings policy exclusions now] by auto
qed

lemma gate_blocked_findings:
  assumes "length fs < 4294967296"
  shows "gate_blocked (severity_summary_from_findings fs) policy \<longleftrightarrow> (\<exists>f\<in>set fs. blocks_gate policy f)"
proof -
  have tiers: "(\<exists>t. 0 < tier_count (severity_summary_from_findings fs) t \<and> Q t)
      \<longleftrightarrow> (\<exists>f\<in>set fs. \<not> is_informational f \<and> Q (f_severity f))" for Q
    by (auto simp: summary_tier_positive [OF assms])
  show ?thesis
    unfolding gate_blocked_def tiers summary_negligible_zero [OF assms]
    by (auto simp: blocks_gate_def)
qed

lemma length_condemning:
  "length (condemning_findings coords kind findings policy exclusions now) \<le> length findings"
  by (simp add: condemning_findings_def)

lemma added_findings_set:
  "set (compute_added_findings prior current) =
     {f \<in> set current. \<forall>p\<in>set prior. f_purl p = f_purl f \<longrightarrow>
        \<not> eq_ignore_ascii_case (f_vulnerability_id p) (f_vulnerability_id f)}"
  by (auto simp: compute_added_findings_def Let_def eq_ignore_ascii_case_def image_iff)

section \<open>Properties\<close>

definition sample_policy :: scan_policy_projection where
  "sample_policy =
     \<lparr>pol_policy_id = 1, pol_name = ''default'', pol_scope = ScopeGlobal,
      pol_severity_threshold = High, pol_quarantine_duration_secs = 86400,
      pol_require_approval = False, pol_provenance_mode = ProvOff, pol_provenance_backends = [],
      pol_provenance_identities = [], pol_max_artifact_age_secs = None, pol_license_policy = JNull,
      pol_archived = False, pol_scan_backends = [''trivy''], pol_rescan_interval_hours = 24,
      pol_negligible_action = NegIgnore, pol_enforcement = EnforceReject,
      pol_composite_verdict_mode = Observed, pol_stream_version = 1, pol_created_at = 0,
      pol_updated_at = 0\<rparr>"

definition sample_finding :: "severity_threshold \<Rightarrow> finding" where
  "sample_finding sev =
     \<lparr>f_purl = ''pkg:npm/left-pad@1.0.0'', f_vulnerability_id = ''CVE-2026-1'', f_severity = sev,
      f_cvss_score = None, f_title = ''t'', f_fixed_versions = [], f_source_scanner = ''trivy'',
      f_references = [], f_aliases = [], f_informational_class = None, f_severity_basis = Assessed,
      f_component_relation = Subject, f_statement = StatesBytes, f_advisory_published_at = None\<rparr>"

text \<open>
  C3. The verdict of the scan gate, by the findings alone. Among the findings that no exclusion
  suppresses and that may condemn this artifact, the gate looks for one that blocks: a critical
  one, a high one unless the threshold is critical, or an informational one when the policy blocks
  negligible advisories. With such a finding the verdict is a rejection, or a record when the
  policy only records; without one it is clean, whatever the license policy says.
\<close>

theorem scan_gate_verdict:
  assumes "length findings < 4294967296"
  shows "(evaluate_scan_result uni coords kind findings policy exclusions now = Clean \<longleftrightarrow>
      \<not> (\<exists>f\<in>set (condemning_findings coords kind findings policy exclusions now). blocks_gate policy f)) \<and>
    ((\<exists>vs. evaluate_scan_result uni coords kind findings policy exclusions now = RejectScan vs) \<longleftrightarrow>
      (\<exists>f\<in>set (condemning_findings coords kind findings policy exclusions now). blocks_gate policy f) \<and>
      policy_or pol_enforcement default_enforcement policy = EnforceReject) \<and>
    ((\<exists>vs. evaluate_scan_result uni coords kind findings policy exclusions now = FindingsRecorded vs) \<longleftrightarrow>
      (\<exists>f\<in>set (condemning_findings coords kind findings policy exclusions now). blocks_gate policy f) \<and>
      policy_or pol_enforcement default_enforcement policy = EnforceRecord)"
proof -
  have "length (condemning_findings coords kind findings policy exclusions now) < 4294967296"
    using length_condemning assms by (rule le_less_trans)
  then show ?thesis
    by (simp add: scan_result_outcome gate_blocked_findings)
qed

theorem scan_gate_verdict_witness:
  "\<exists>vs. evaluate_scan_result id sample_coords OtherKind [sample_finding High] (Some sample_policy) [] 0 = RejectScan vs"
  using scan_gate_verdict [of "[sample_finding High]" id sample_coords OtherKind "Some sample_policy" "[]" 0]
  by (simp add: condemning_findings_def may_condemn_artifact_def sample_finding_def sample_policy_def
      blocks_gate_def is_informational_def policy_or_def blocking_severity_def Let_def)

text \<open>
  A severity threshold of medium or low gates exactly like a threshold of high: changing it
  between the three never changes whether the gate finds an artifact clean, rejects it or records
  its findings. Medium and low findings raise a warning at most, which the gate treats as clean.
\<close>

theorem medium_and_low_thresholds_gate_like_high:
  "verdict_of (evaluate_scan_result uni coords kind findings
       (Some (p\<lparr>pol_severity_threshold := Medium\<rparr>)) exclusions now)
     = verdict_of (evaluate_scan_result uni coords kind findings
         (Some (p\<lparr>pol_severity_threshold := High\<rparr>)) exclusions now) \<and>
   verdict_of (evaluate_scan_result uni coords kind findings
       (Some (p\<lparr>pol_severity_threshold := Low\<rparr>)) exclusions now)
     = verdict_of (evaluate_scan_result uni coords kind findings
         (Some (p\<lparr>pol_severity_threshold := High\<rparr>)) exclusions now)"
  by (simp add: verdict_of_scan condemning_findings_def gate_blocked_def composite_verdict_mode_of_def
      policy_or_def blocking_severity_def)

text \<open>
  Exclusions only help. Extending the set of exclusions never turns a clean scan into a
  blocked one, and an exclusion whose expiry has passed has no effect at all.
\<close>

theorem exclusions_are_monotone:
  assumes "length findings < 4294967296" and "set exclusions \<subseteq> set wider"
    and "evaluate_scan_result uni coords kind findings policy exclusions now = Clean"
  shows "evaluate_scan_result uni coords kind findings policy wider now = Clean \<and>
    (\<forall>ex t. ex_expires_at ex = Some t \<and> t \<le> now \<longrightarrow>
       evaluate_scan_result uni coords kind findings policy (ex # exclusions) now = Clean \<and>
       condemning_findings coords kind findings policy (ex # exclusions) now
         = condemning_findings coords kind findings policy exclusions now)"
proof -
  have small: "length (condemning_findings coords kind findings policy exs now) < 4294967296" for exs
    using length_condemning assms(1) by (rule le_less_trans)
  have "set (condemning_findings coords kind findings policy wider now)
      \<subseteq> set (condemning_findings coords kind findings policy exclusions now)"
    using assms(2) by (auto simp: condemning_findings_def)
  then have "evaluate_scan_result uni coords kind findings policy wider now = Clean"
    using assms(3) by (auto simp: scan_result_outcome gate_blocked_findings [OF small])
  moreover have same: "condemning_findings coords kind findings policy (ex # exclusions) now
      = condemning_findings coords kind findings policy exclusions now"
    if "ex_expires_at ex = Some t" "t \<le> now" for ex t
    using that by (simp add: condemning_findings_def suppresses_def is_active_def)
  moreover have "evaluate_scan_result uni coords kind findings policy (ex # exclusions) now = Clean"
    if "ex_expires_at ex = Some t" "t \<le> now" for ex t
    using assms(3) same [OF that] by (simp add: scan_result_outcome)
  ultimately show ?thesis by blast
qed

theorem exclusions_are_monotone_witness:
  "evaluate_scan_result id sample_coords OtherKind [sample_finding Low] (Some sample_policy) [sample_exclusion] 0 = Clean"
  using exclusions_are_monotone [of "[sample_finding Low]" "[]" "[sample_exclusion]" id sample_coords OtherKind
      "Some sample_policy" 0]
  by (simp add: scan_result_outcome condemning_findings_def may_condemn_artifact_def sample_finding_def
      sample_policy_def gate_blocked_findings blocks_gate_def is_informational_def policy_or_def
      blocking_severity_def Let_def)

end
