(* ===== verification/Artifact_Events.thy ===== *)
theory Artifact_Events
  imports Quarantine_Transitions Policy_Scan
begin

text \<open>
  The events of an artifact stream (\<^verbatim>\<open>events/artifact_events.rs\<close>) with their validation
  (\<^verbatim>\<open>events/validation.rs\<close>) and the provenance verdict of \<^verbatim>\<open>ports/provenance.rs\<close>. The
  variants of \<^verbatim>\<open>DomainEvent\<close> that the modelled code constructs or inspects are constructors
  of \<open>domain_event\<close>; the remaining variants, which all of it passes over in wildcard arms, are
  \<open>OtherEvent\<close> with the name of the variant.
\<close>

section \<open>Field validation\<close>

datatype event_msg =
    MustNotBeEmpty string
  | ExceedsMaxLength string nat nat
  | SeverityCountsOverflow
  | FindingCountMismatch u32 u32
  | BlobWithoutFindings
  | FindingsWithoutBlob
  | NotApplicableWithFindings u32
  | NoNewFinding
  | MissingUserId string
  | MissingJustification string
  | UnexpectedUserId string
  | UnexpectedJustification string
  | TypeMsg type_msg

type_synonym event_result = "event_msg domain_error + unit"

definition validate_string :: "string \<Rightarrow> string \<Rightarrow> nat \<Rightarrow> event_result" where
  "validate_string field v cap =
     (if v = [] then Inl (Validation (MustNotBeEmpty field))
      else if length v > cap then Inl (Validation (ExceedsMaxLength field cap (length v)))
      else Inr ())"

definition validate_optional_string :: "string \<Rightarrow> string option \<Rightarrow> nat \<Rightarrow> event_result" where
  "validate_optional_string field v cap =
     (case v of None \<Rightarrow> Inr () | Some s \<Rightarrow> validate_string field s cap)"

definition max_name_len :: nat where "max_name_len = 1024"
definition max_path_len :: nat where "max_path_len = 2048"
definition max_reason_len :: nat where "max_reason_len = 4096"
definition max_scanner_len :: nat where "max_scanner_len = 256"

lemmas event_limits = max_name_len_def max_path_len_def max_reason_len_def max_scanner_len_def

text \<open>\<^verbatim>\<open>?\<close> on a validation of the value types, whose messages are embedded.\<close>

definition lift_type :: "'a type_result \<Rightarrow> event_msg domain_error + 'a" where
  "lift_type r = map_sum (map_domain_error TypeMsg) id r"

lemma validate_string_ok: "is_ok (validate_string field v cap) \<longleftrightarrow> v \<noteq> [] \<and> length v \<le> cap"
  by (simp add: validate_string_def)

lemma validate_optional_string_ok:
  "is_ok (validate_optional_string field v cap) \<longleftrightarrow> (\<forall>s. v = Some s \<longrightarrow> s \<noteq> [] \<and> length s \<le> cap)"
  by (auto simp: validate_optional_string_def validate_string_ok split: option.split)

lemma lift_type_ok [simp]: "is_ok (lift_type r) = is_ok r"
  by (cases r) (simp_all add: lift_type_def)

lemma and_then_ok:
  "is_ok (and_then r (\<lambda>_. q)) \<longleftrightarrow> is_ok r \<and> is_ok q"
  "is_ok (and_then r Inr) \<longleftrightarrow> is_ok r"
  by (cases r; simp)+

section \<open>Provenance verdicts\<close>

record signer_identity =
  sig_issuer :: string
  sig_san :: string

datatype provenance_reject_reason =
    Unsigned | UntrustedIdentity | RekorNotFound | CertChainInvalid | BundleMalformed | DigestMismatch

datatype indeterminate_reason = AttestationFetchFailed | TrustRootUnusable | VerifierUnavailable

datatype provenance_outcome =
    ProvVerified signer_identity "string option"
  | ProvRejected provenance_reject_reason
  | NoAttestation
  | ProvIndeterminate indeterminate_reason

record provenance_verdict =
  ver_outcome :: provenance_outcome
  ver_unreadable_skipped :: u32

text \<open>The derived \<^verbatim>\<open>Debug\<close> names, which the rejection event's text embeds.\<close>

fun provenance_reject_reason_debug :: "provenance_reject_reason \<Rightarrow> string" where
  "provenance_reject_reason_debug Unsigned = ''Unsigned''"
| "provenance_reject_reason_debug UntrustedIdentity = ''UntrustedIdentity''"
| "provenance_reject_reason_debug RekorNotFound = ''RekorNotFound''"
| "provenance_reject_reason_debug CertChainInvalid = ''CertChainInvalid''"
| "provenance_reject_reason_debug BundleMalformed = ''BundleMalformed''"
| "provenance_reject_reason_debug DigestMismatch = ''DigestMismatch''"

section \<open>Event payloads\<close>

datatype ingest_source = Direct | Proxied

record artifact_ingested =
  ing_artifact_id :: uuid
  ing_repository_id :: uuid
  ing_name :: string
  ing_version :: "string option"
  ing_sha256 :: content_hash
  ing_size_bytes :: int
  ing_source :: ingest_source
  ing_metadata :: json
  ing_metadata_blob :: "content_hash option"
  ing_upstream_published_at :: "timestamp option"

definition artifact_ingested_validate :: "artifact_ingested \<Rightarrow> event_result" where
  "artifact_ingested_validate e =
     and_then (validate_string ''name'' (ing_name e) max_name_len) (\<lambda>_.
     and_then (validate_optional_string ''version'' (ing_version e) max_name_len) (\<lambda>_.
     Inr ()))"

record artifact_quarantined =
  quar_artifact_id :: uuid
  quar_window_start :: timestamp

datatype scan_assessment = Analysed | NotApplicable

record scan_completed =
  sc_artifact_id :: uuid
  sc_scanner :: string
  sc_finding_count :: u32
  sc_severity_summary :: severity_summary
  sc_findings_blob :: "content_hash option"
  sc_assessment :: scan_assessment

definition scan_completed_validate :: "scan_completed \<Rightarrow> event_result" where
  "scan_completed_validate e =
     and_then (validate_string ''scanner'' (sc_scanner e) max_scanner_len) (\<lambda>_.
     and_then (lift_type (severity_summary_validate (sc_severity_summary e))) (\<lambda>_.
     (case severity_summary_sum (sc_severity_summary e) of
        None \<Rightarrow> Inl (Validation SeverityCountsOverflow)
      | Some sum_counts \<Rightarrow>
          if sc_finding_count e \<noteq> sum_counts
          then Inl (Validation (FindingCountMismatch (sc_finding_count e) sum_counts))
          else if sc_findings_blob e \<noteq> None \<and> \<not> sc_finding_count e > 0
          then Inl (Validation BlobWithoutFindings)
          else if sc_findings_blob e = None \<and> sc_finding_count e > 0
          then Inl (Validation FindingsWithoutBlob)
          else if sc_assessment e = NotApplicable \<and> sc_finding_count e > 0
          then Inl (Validation (NotApplicableWithFindings (sc_finding_count e)))
          else Inr ())))"

record artifact_became_vulnerable =
  bv_artifact_id :: uuid
  bv_new_findings :: "finding list"
  bv_previously_clean_at :: timestamp

definition artifact_became_vulnerable_validate :: "artifact_became_vulnerable \<Rightarrow> event_result" where
  "artifact_became_vulnerable_validate e =
     (if bv_new_findings e = [] then Inl (Validation NoNewFinding)
      else check_each (\<lambda>f. lift_type (finding_validate f)) (bv_new_findings e))"

datatype release_reason = Timer | Admin | PolicyReEvaluation | Curator

fun release_reason_debug :: "release_reason \<Rightarrow> string" where
  "release_reason_debug Timer = ''Timer''"
| "release_reason_debug Admin = ''Admin''"
| "release_reason_debug PolicyReEvaluation = ''PolicyReEvaluation''"
| "release_reason_debug Curator = ''Curator''"

record artifact_released =
  rel_artifact_id :: uuid
  rel_released_by :: release_reason
  rel_released_by_user_id :: "uuid option"
  rel_justification :: "string option"

definition artifact_released_validate :: "artifact_released \<Rightarrow> event_result" where
  "artifact_released_validate e =
     and_then
       (if rel_released_by e = Admin \<or> rel_released_by e = Curator
        then (if rel_released_by_user_id e = None
              then Inl (Validation (MissingUserId (release_reason_debug (rel_released_by e))))
              else if rel_justification e = None
              then Inl (Validation (MissingJustification (release_reason_debug (rel_released_by e))))
              else Inr ())
        else (if rel_released_by_user_id e \<noteq> None
              then Inl (Validation (UnexpectedUserId (release_reason_debug (rel_released_by e))))
              else if rel_justification e \<noteq> None
              then Inl (Validation (UnexpectedJustification (release_reason_debug (rel_released_by e))))
              else Inr ()))
       (\<lambda>_. validate_optional_string ''justification'' (rel_justification e) 512)"

datatype re_evaluation_trigger =
    TriggerExclusionAdded uuid
  | TriggerExclusionRemoved uuid
  | TriggerPolicyUpdated uuid
  | CuratorRequested
  | ProvenanceMisrejectionRepair

record artifact_re_evaluated =
  ree_artifact_id :: uuid
  ree_policy_id :: uuid
  ree_trigger :: re_evaluation_trigger
  ree_previous_status :: quarantine_status
  ree_new_status :: quarantine_status

text \<open>
  The deserialised shape, in which an event written before \<^verbatim>\<open>trigger\<close> existed carries
  \<^verbatim>\<open>trigger_exclusion_id\<close> instead.
\<close>

record artifact_re_evaluated_repr =
  rer_artifact_id :: uuid
  rer_policy_id :: uuid
  rer_trigger :: "re_evaluation_trigger option"
  rer_trigger_exclusion_id :: "uuid option"
  rer_previous_status :: quarantine_status
  rer_new_status :: quarantine_status

definition artifact_re_evaluated_from :: "artifact_re_evaluated_repr \<Rightarrow> artifact_re_evaluated" where
  "artifact_re_evaluated_from r =
     \<lparr>ree_artifact_id = rer_artifact_id r,
      ree_policy_id = rer_policy_id r,
      ree_trigger =
        (case rer_trigger r of
           Some t \<Rightarrow> t
         | None \<Rightarrow> TriggerExclusionAdded
                     (case rer_trigger_exclusion_id r of Some i \<Rightarrow> i | None \<Rightarrow> 0)),
      ree_previous_status = rer_previous_status r,
      ree_new_status = rer_new_status r\<rparr>"

datatype rejection_reason =
    Scanner
  | RejAdmin
  | CurationRetroactive uuid
  | ScanPolicyRetroactive
  | RejCurator uuid
  | RejProvenance
  | Corruption

fun rejection_variant_name :: "rejection_reason \<Rightarrow> string" where
  "rejection_variant_name Scanner = ''Scanner''"
| "rejection_variant_name RejAdmin = ''Admin''"
| "rejection_variant_name (CurationRetroactive _) = ''CurationRetroactive''"
| "rejection_variant_name ScanPolicyRetroactive = ''ScanPolicyRetroactive''"
| "rejection_variant_name (RejCurator _) = ''Curator''"
| "rejection_variant_name RejProvenance = ''Provenance''"
| "rejection_variant_name Corruption = ''Corruption''"

fun wire_kind :: "rejection_reason \<Rightarrow> string" where
  "wire_kind Scanner = ''scanner''"
| "wire_kind RejAdmin = ''admin''"
| "wire_kind (CurationRetroactive _) = ''curation_retroactive''"
| "wire_kind ScanPolicyRetroactive = ''scan_policy_retroactive''"
| "wire_kind (RejCurator _) = ''curator''"
| "wire_kind RejProvenance = ''provenance''"
| "wire_kind Corruption = ''corruption''"

definition all_kind_samples :: "rejection_reason list" where
  "all_kind_samples =
     [Scanner, RejAdmin, CurationRetroactive 0, ScanPolicyRetroactive, RejCurator 0, RejProvenance,
      Corruption]"

definition all_wire_kinds :: "string list" where
  "all_wire_kinds = map wire_kind all_kind_samples"

record artifact_rejected =
  rej_artifact_id :: uuid
  rej_rejected_by :: rejection_reason
  rej_reason :: string

definition artifact_rejected_validate :: "artifact_rejected \<Rightarrow> event_result" where
  "artifact_rejected_validate e = validate_string ''reason'' (rej_reason e) max_reason_len"

record scan_indeterminate =
  si_artifact_id :: uuid
  si_scanner :: string
  si_reason :: string
  si_attempts :: u32

definition scan_indeterminate_validate :: "scan_indeterminate \<Rightarrow> event_result" where
  "scan_indeterminate_validate e =
     and_then (validate_string ''scanner'' (si_scanner e) max_scanner_len) (\<lambda>_.
     validate_string ''reason'' (si_reason e) max_reason_len)"

record provenance_verified =
  pvf_artifact_id :: uuid
  pvf_content_hash :: content_hash
  pvf_backend :: string
  pvf_signer :: signer_identity
  pvf_predicate_type :: "string option"
  pvf_cascaded_from :: "content_hash option"

definition provenance_verified_validate :: "provenance_verified \<Rightarrow> event_result" where
  "provenance_verified_validate e =
     and_then (validate_string ''backend'' (pvf_backend e) max_scanner_len) (\<lambda>_.
     and_then (validate_string ''signer.issuer'' (sig_issuer (pvf_signer e)) max_name_len) (\<lambda>_.
     and_then (validate_string ''signer.san'' (sig_san (pvf_signer e)) max_name_len) (\<lambda>_.
     and_then (validate_optional_string ''predicate_type'' (pvf_predicate_type e) max_name_len) (\<lambda>_.
     Inr ()))))"

record provenance_rejected =
  prj_artifact_id :: uuid
  prj_content_hash :: content_hash
  prj_backend :: string
  prj_reason :: provenance_reject_reason

definition provenance_rejected_validate :: "provenance_rejected \<Rightarrow> event_result" where
  "provenance_rejected_validate e = validate_string ''backend'' (prj_backend e) max_scanner_len"

record artifact_corrupted =
  cor_artifact_id :: uuid
  cor_computed_hash :: content_hash
  cor_expected_hash :: content_hash
  cor_detected_at :: timestamp

datatype policy_result = Pass | Fail

record policy_evaluated =
  pe_artifact_id :: uuid
  pe_policy_id :: uuid
  pe_result :: policy_result
  pe_violations :: "policy_violation list"

record artifact_deleted =
  del_artifact_id :: uuid
  del_repository_id :: uuid
  del_path :: string
  del_content_hash :: content_hash

definition artifact_deleted_validate :: "artifact_deleted \<Rightarrow> event_result" where
  "artifact_deleted_validate e = validate_string ''path'' (del_path e) max_path_len"

section \<open>The event sum\<close>

datatype domain_event =
    EArtifactIngested artifact_ingested
  | EArtifactQuarantined artifact_quarantined
  | EScanCompleted scan_completed
  | EArtifactBecameVulnerable artifact_became_vulnerable
  | EArtifactReleased artifact_released
  | EArtifactRejected artifact_rejected
  | EScanIndeterminate scan_indeterminate
  | EProvenanceVerified provenance_verified
  | EProvenanceRejected provenance_rejected
  | EArtifactReEvaluated artifact_re_evaluated
  | EPolicyEvaluated policy_evaluated
  | EArtifactDeleted artifact_deleted
  | EArtifactCorrupted artifact_corrupted
  | OtherEvent string

text \<open>
  \<^verbatim>\<open>DomainEvent::validate\<close> on the variants an artifact's own transitions emit; \<open>None\<close> for the
  variants whose payload check is not part of the model.
\<close>

fun domain_event_validate :: "domain_event \<Rightarrow> event_result option" where
  "domain_event_validate (EArtifactIngested e) = Some (artifact_ingested_validate e)"
| "domain_event_validate (EArtifactQuarantined e) = Some (Inr ())"
| "domain_event_validate (EScanCompleted e) = Some (scan_completed_validate e)"
| "domain_event_validate (EArtifactBecameVulnerable e) = Some (artifact_became_vulnerable_validate e)"
| "domain_event_validate (EArtifactReleased e) = Some (artifact_released_validate e)"
| "domain_event_validate (EArtifactRejected e) = Some (artifact_rejected_validate e)"
| "domain_event_validate (EScanIndeterminate e) = Some (scan_indeterminate_validate e)"
| "domain_event_validate (EProvenanceVerified e) = Some (provenance_verified_validate e)"
| "domain_event_validate (EProvenanceRejected e) = Some (provenance_rejected_validate e)"
| "domain_event_validate (EArtifactReEvaluated e) = Some (Inr ())"
| "domain_event_validate (EArtifactDeleted e) = Some (artifact_deleted_validate e)"
| "domain_event_validate (EArtifactCorrupted e) = Some (Inr ())"
| "domain_event_validate (EPolicyEvaluated e) = None"
| "domain_event_validate (OtherEvent _) = None"

end
