(* ===== verification/Artifact_Aggregate.thy ===== *)
theory Artifact_Aggregate
  imports Artifact_Events
begin

text \<open>
  The artifact aggregate (\<^verbatim>\<open>entities/artifact.rs\<close>): its record, the thirteen quarantine
  transitions, deletion, and the read predicates. Every \<^verbatim>\<open>&mut self\<close> method returns its result
  with the artifact it leaves behind.
\<close>

section \<open>The aggregate and its inputs\<close>

record artifact =
  art_id :: uuid
  art_repository_id :: uuid
  art_name :: string
  art_name_as_published :: string
  art_version :: "string option"
  art_path :: string
  art_size_bytes :: int
  art_sha256_checksum :: content_hash
  art_sha1_checksum :: "string option"
  art_md5_checksum :: "string option"
  art_content_type :: string
  art_quarantine_status :: quarantine_status
  art_rejection_reason :: "rejection_reason option"
  art_quarantine_window_start :: "timestamp option"
  art_quarantine_deadline :: "timestamp option"
  art_provenance_hold_indefinite :: bool
  art_upstream_published_at :: "timestamp option"
  art_uploaded_by :: "uuid option"
  art_created_at :: timestamp
  art_updated_at :: timestamp
  art_deleted_at :: "timestamp option"

datatype release_authorization =
    ScanSucceeded | ScanCleared | ScanWaived | ScanRecorded | AuthPolicyReEvaluation | CuratorWaiver

datatype provenance_clearance = ProvNotRequired | ProvCleared | ProvPending

datatype curation_clearance = CurationCleared | CurationBlocked

datatype release_origin = NeverReleased | ReleasedBy release_reason

fun permits_scan_reblock :: "release_origin \<Rightarrow> bool" where
  "permits_scan_reblock NeverReleased = True"
| "permits_scan_reblock (ReleasedBy reason) =
     (case reason of Timer \<Rightarrow> True | PolicyReEvaluation \<Rightarrow> True | Admin \<Rightarrow> False | Curator \<Rightarrow> False)"

fun release_origin_to_string :: "release_origin \<Rightarrow> string" where
  "release_origin_to_string NeverReleased = ''never_released''"
| "release_origin_to_string (ReleasedBy Timer) = ''timer''"
| "release_origin_to_string (ReleasedBy PolicyReEvaluation) = ''policy_reevaluation''"
| "release_origin_to_string (ReleasedBy Admin) = ''admin''"
| "release_origin_to_string (ReleasedBy Curator) = ''curator''"

datatype terminal_rejection_record = Present | CorruptionTombstone | Absent

definition has_terminal_rejection_event :: "domain_event list \<Rightarrow> bool" where
  "has_terminal_rejection_event events =
     list_ex (\<lambda>e. case e of EArtifactRejected _ \<Rightarrow> True | _ \<Rightarrow> False) events"

definition terminal_record_from_events :: "domain_event list \<Rightarrow> terminal_rejection_record" where
  "terminal_record_from_events events =
     (if has_terminal_rejection_event events then Present
      else if list_ex (\<lambda>e. case e of EArtifactCorrupted _ \<Rightarrow> True | _ \<Rightarrow> False) events
      then CorruptionTombstone
      else Absent)"

datatype provenance_rejection_evidence =
    Contradicted | NeverTerminal | Disproved provenance_reject_reason | NoVerdict

fun disproves_terminality :: "provenance_rejection_evidence \<Rightarrow> bool" where
  "disproves_terminality Contradicted = True"
| "disproves_terminality NeverTerminal = True"
| "disproves_terminality (Disproved _) = False"
| "disproves_terminality NoVerdict = False"

fun is_scan_clearable :: "rejection_reason option \<Rightarrow> bool" where
  "is_scan_clearable (Some Scanner) = True"
| "is_scan_clearable (Some ScanPolicyRetroactive) = True"
| "is_scan_clearable (Some RejAdmin) = False"
| "is_scan_clearable (Some (RejCurator _)) = False"
| "is_scan_clearable (Some (CurationRetroactive _)) = False"
| "is_scan_clearable (Some RejProvenance) = False"
| "is_scan_clearable (Some Corruption) = False"
| "is_scan_clearable None = False"

fun is_curator_overridable :: "rejection_reason option \<Rightarrow> bool" where
  "is_curator_overridable (Some Scanner) = True"
| "is_curator_overridable (Some ScanPolicyRetroactive) = True"
| "is_curator_overridable (Some (RejCurator _)) = True"
| "is_curator_overridable (Some (CurationRetroactive _)) = True"
| "is_curator_overridable (Some RejProvenance) = True"
| "is_curator_overridable (Some RejAdmin) = False"
| "is_curator_overridable (Some Corruption) = False"
| "is_curator_overridable None = False"

datatype artifact_msg =
    CannotQuarantine quarantine_status
  | CannotRecordCleanScan quarantine_status
  | CannotReject quarantine_status
  | ExplicitReleaseOutweighs release_origin
  | CannotRetroactivelyReject quarantine_status
  | CannotScanReHold quarantine_status
  | CannotCuratorBlock quarantine_status
  | CannotTombstone quarantine_status
  | CannotRelease quarantine_status
  | UnattendedAuthority quarantine_status release_reason release_authorization
  | WaiveOutOfReach quarantine_status "string option"
  | ReleaseNotAuthorized
  | CannotCascade quarantine_status
  | CannotMarkIndeterminate quarantine_status
  | CannotReEvaluate quarantine_status
  | NotScanClearable "rejection_reason option"
  | ActiveCurationBlock curation_clearance
  | ProvenanceNotCleared provenance_clearance
  | CannotRepair quarantine_status
  | RepairTerminalRecord uuid
  | RepairCorruptionTombstone uuid
  | RepairDisproved uuid provenance_reject_reason
  | RepairNoVerdict uuid
  | AlreadyDeleted uuid timestamp

type_synonym 'a artifact_result = "(artifact_msg domain_error + 'a) \<times> artifact"

section \<open>Transitions\<close>

definition quarantine :: "timestamp \<Rightarrow> artifact \<Rightarrow> artifact_quarantined artifact_result" where
  "quarantine window_start a =
     (if allowed_targets EvQuarantine (art_quarantine_status a) = None
      then (Inl (Invariant (CannotQuarantine (art_quarantine_status a))), a)
      else (Inr \<lparr>quar_artifact_id = art_id a, quar_window_start = window_start\<rparr>,
            a\<lparr>art_quarantine_status := Quarantined,
              art_quarantine_window_start := Some window_start\<rparr>))"

definition record_clean_scan :: "artifact \<Rightarrow> artifact_msg domain_error + unit" where
  "record_clean_scan a =
     (case allowed_targets EvRecordCleanScan (art_quarantine_status a) of
        Some _ \<Rightarrow> Inr ()
      | None \<Rightarrow> Inl (Invariant (CannotRecordCleanScan (art_quarantine_status a))))"

definition reject_from_scan ::
    "string \<Rightarrow> release_origin \<Rightarrow> artifact \<Rightarrow> artifact_rejected artifact_result" where
  "reject_from_scan reason prior_release a =
     (if allowed_targets EvRejectFromScan (art_quarantine_status a) = None
      then (Inl (Invariant (CannotReject (art_quarantine_status a))), a)
      else if art_quarantine_status a = Released \<and> \<not> permits_scan_reblock prior_release
      then (Inl (Invariant (ExplicitReleaseOutweighs prior_release)), a)
      else (Inr \<lparr>rej_artifact_id = art_id a, rej_rejected_by = Scanner, rej_reason = reason\<rparr>,
            a\<lparr>art_quarantine_status := Rejected, art_rejection_reason := Some Scanner\<rparr>))"

definition reject_from_retroactive_curation ::
    "uuid \<Rightarrow> string \<Rightarrow> artifact \<Rightarrow> artifact_rejected artifact_result" where
  "reject_from_retroactive_curation rule reason a =
     (if allowed_targets EvRejectFromRetroactiveCuration (art_quarantine_status a) = None
      then (Inl (Invariant (CannotRetroactivelyReject (art_quarantine_status a))), a)
      else (Inr \<lparr>rej_artifact_id = art_id a, rej_rejected_by = CurationRetroactive rule,
                 rej_reason = reason\<rparr>,
            a\<lparr>art_quarantine_status := Rejected,
              art_rejection_reason := Some (CurationRetroactive rule)\<rparr>))"

definition reject_from_scan_policy_retroactive ::
    "scan_outcome \<Rightarrow> string \<Rightarrow> artifact \<Rightarrow> (artifact_rejected option) artifact_result" where
  "reject_from_scan_policy_retroactive outcome reason a =
     (if allowed_targets EvRejectFromScanPolicyRetroactive (art_quarantine_status a) = None
      then (Inl (Invariant (CannotScanReHold (art_quarantine_status a))), a)
      else (case outcome of
              Clean \<Rightarrow> (Inr None, a)
            | FindingsRecorded _ \<Rightarrow> (Inr None, a)
            | RejectScan _ \<Rightarrow>
                (Inr (Some \<lparr>rej_artifact_id = art_id a, rej_rejected_by = ScanPolicyRetroactive,
                            rej_reason = reason\<rparr>),
                 a\<lparr>art_quarantine_status := Rejected,
                   art_rejection_reason := Some ScanPolicyRetroactive\<rparr>)))"

definition block_by_curator :: "uuid \<Rightarrow> string \<Rightarrow> artifact \<Rightarrow> artifact_rejected artifact_result" where
  "block_by_curator curator reason a =
     (if allowed_targets EvBlockByCurator (art_quarantine_status a) = None
      then (Inl (Invariant (CannotCuratorBlock (art_quarantine_status a))), a)
      else (Inr \<lparr>rej_artifact_id = art_id a, rej_rejected_by = RejCurator curator,
                 rej_reason = reason\<rparr>,
            a\<lparr>art_quarantine_status := Rejected, art_rejection_reason := Some (RejCurator curator)\<rparr>))"

fun content_hash_to_string :: "content_hash \<Rightarrow> string" where
  "content_hash_to_string (ContentHash h) = h"

definition corruption_reason :: "content_hash \<Rightarrow> content_hash \<Rightarrow> string" where
  "corruption_reason computed expected =
     ''CAS integrity mismatch: stored bytes hash to '' @ content_hash_to_string computed
     @ '', expected '' @ content_hash_to_string expected"

definition tombstone_from_corruption ::
    "content_hash \<Rightarrow> timestamp \<Rightarrow> artifact \<Rightarrow> (domain_event list) artifact_result" where
  "tombstone_from_corruption computed now a =
     (if allowed_targets EvTombstoneFromCorruption (art_quarantine_status a) = None
      then (Inl (Invariant (CannotTombstone (art_quarantine_status a))), a)
      else
        let expected = art_sha256_checksum a in
        (Inr [EArtifactCorrupted \<lparr>cor_artifact_id = art_id a, cor_computed_hash = computed,
                                  cor_expected_hash = expected, cor_detected_at = now\<rparr>,
              EArtifactRejected \<lparr>rej_artifact_id = art_id a, rej_rejected_by = Corruption,
                                 rej_reason = corruption_reason computed expected\<rparr>],
         a\<lparr>art_quarantine_status := Rejected, art_rejection_reason := Some Corruption\<rparr>))"

definition provenance_clears :: "provenance_clearance \<Rightarrow> bool" where
  "provenance_clears p = (case p of ProvNotRequired \<Rightarrow> True | ProvCleared \<Rightarrow> True | ProvPending \<Rightarrow> False)"

fun release_authorized :: "provenance_clearance \<Rightarrow> release_reason \<Rightarrow> release_authorization \<Rightarrow> bool" where
  "release_authorized p Timer ScanSucceeded = provenance_clears p"
| "release_authorized p Timer ScanCleared = provenance_clears p"
| "release_authorized p Timer ScanWaived = provenance_clears p"
| "release_authorized p Timer ScanRecorded = provenance_clears p"
| "release_authorized p Timer _ = False"
| "release_authorized p Admin _ = False"
| "release_authorized p PolicyReEvaluation AuthPolicyReEvaluation = True"
| "release_authorized p PolicyReEvaluation _ = False"
| "release_authorized p Curator CuratorWaiver = True"
| "release_authorized p Curator _ = False"

definition release ::
    "release_reason \<Rightarrow> release_authorization \<Rightarrow> provenance_clearance \<Rightarrow> artifact
     \<Rightarrow> artifact_released artifact_result" where
  "release reason authz provenance a =
     (if allowed_targets EvRelease (art_quarantine_status a) = None
      then (Inl (InvalidState (CannotRelease (art_quarantine_status a))), a)
      else if art_quarantine_status a = Rejected \<and> \<not> (reason = Curator \<and> authz = CuratorWaiver)
      then (Inl (InvalidState (UnattendedAuthority (art_quarantine_status a) reason authz)), a)
      else if art_quarantine_status a = Rejected \<and> \<not> is_curator_overridable (art_rejection_reason a)
      then (Inl (InvalidState (WaiveOutOfReach (art_quarantine_status a)
                  (map_option wire_kind (art_rejection_reason a)))), a)
      else if \<not> release_authorized provenance reason authz
      then (Inl (Invariant ReleaseNotAuthorized), a)
      else (Inr \<lparr>rel_artifact_id = art_id a, rel_released_by = reason,
                 rel_released_by_user_id = None, rel_justification = None\<rparr>,
            a\<lparr>art_quarantine_status := Released, art_rejection_reason := None\<rparr>))"

definition provenance_failure_reason :: "provenance_reject_reason \<Rightarrow> string \<Rightarrow> string" where
  "provenance_failure_reason reason backend =
     ''provenance verification failed ('' @ provenance_reject_reason_debug reason @ '') ''
     @ [CHR 0xE2, CHR 0x80, CHR 0x94] @ '' backend '' @ backend"

definition complete_provenance ::
    "provenance_verdict \<Rightarrow> string \<Rightarrow> artifact \<Rightarrow> (domain_event list) artifact_result" where
  "complete_provenance verdict backend a =
     (case ver_outcome verdict of
        ProvVerified signer predicate_type \<Rightarrow>
          (Inr [EProvenanceVerified
                  \<lparr>pvf_artifact_id = art_id a, pvf_content_hash = art_sha256_checksum a,
                   pvf_backend = backend, pvf_signer = signer, pvf_predicate_type = predicate_type,
                   pvf_cascaded_from = None\<rparr>], a)
      | ProvRejected reason \<Rightarrow>
          (Inr [EProvenanceRejected
                  \<lparr>prj_artifact_id = art_id a, prj_content_hash = art_sha256_checksum a,
                   prj_backend = backend, prj_reason = reason\<rparr>,
                EArtifactRejected
                  \<lparr>rej_artifact_id = art_id a, rej_rejected_by = RejProvenance,
                   rej_reason = provenance_failure_reason reason backend\<rparr>],
           a\<lparr>art_quarantine_status := Rejected, art_rejection_reason := None\<rparr>)
      | NoAttestation \<Rightarrow> (Inr [], a)
      | ProvIndeterminate _ \<Rightarrow> (Inr [], a))"

definition cascade_provenance_clearance ::
    "content_hash \<Rightarrow> signer_identity \<Rightarrow> string option \<Rightarrow> string \<Rightarrow> artifact
     \<Rightarrow> artifact_msg domain_error + provenance_verified" where
  "cascade_provenance_clearance cascaded_from signer predicate_type backend a =
     (if allowed_targets EvCascadeProvenanceClearance (art_quarantine_status a) = None
      then Inl (Invariant (CannotCascade (art_quarantine_status a)))
      else Inr \<lparr>pvf_artifact_id = art_id a, pvf_content_hash = art_sha256_checksum a,
                pvf_backend = backend, pvf_signer = signer, pvf_predicate_type = predicate_type,
                pvf_cascaded_from = Some cascaded_from\<rparr>)"

definition fail_scan_indeterminate ::
    "string \<Rightarrow> string \<Rightarrow> u32 \<Rightarrow> artifact \<Rightarrow> scan_indeterminate artifact_result" where
  "fail_scan_indeterminate scanner reason attempts a =
     (if allowed_targets EvFailScanIndeterminate (art_quarantine_status a) = None
      then (Inl (Invariant (CannotMarkIndeterminate (art_quarantine_status a))), a)
      else (Inr \<lparr>si_artifact_id = art_id a, si_scanner = scanner, si_reason = reason,
                 si_attempts = attempts\<rparr>,
            a\<lparr>art_quarantine_status := ScanIndeterminate\<rparr>))"

definition unwrap_or :: "'a option \<Rightarrow> 'a \<Rightarrow> 'a" where
  "unwrap_or x d = (case x of Some v \<Rightarrow> v | None \<Rightarrow> d)"

definition still_in_window :: "artifact \<Rightarrow> timestamp \<Rightarrow> bool" where
  "still_in_window a now = (case art_quarantine_deadline a of None \<Rightarrow> False | Some deadline \<Rightarrow> deadline > now)"

definition re_evaluate ::
    "timestamp \<Rightarrow> provenance_clearance \<Rightarrow> curation_clearance \<Rightarrow> artifact \<Rightarrow> domain_event artifact_result" where
  "re_evaluate now provenance curation a =
     (if allowed_targets EvReEvaluate (art_quarantine_status a) = None
      then (Inl (Invariant (CannotReEvaluate (art_quarantine_status a))), a)
      else if \<not> is_scan_clearable (art_rejection_reason a)
      then (Inl (Invariant (NotScanClearable (art_rejection_reason a))), a)
      else if curation \<noteq> CurationCleared
      then (Inl (Invariant (ActiveCurationBlock curation)), a)
      else if still_in_window a now
      then (Inr (EArtifactQuarantined
                   \<lparr>quar_artifact_id = art_id a,
                    quar_window_start = unwrap_or (art_quarantine_window_start a) now\<rparr>),
            a\<lparr>art_quarantine_status := Quarantined, art_rejection_reason := None\<rparr>)
      else if \<not> provenance_clears provenance
      then (Inl (Invariant (ProvenanceNotCleared provenance)), a)
      else (Inr (EArtifactReleased
                   \<lparr>rel_artifact_id = art_id a, rel_released_by = PolicyReEvaluation,
                    rel_released_by_user_id = None, rel_justification = None\<rparr>),
            a\<lparr>art_quarantine_status := Released, art_rejection_reason := None\<rparr>))"

definition repair_provenance_misrejection ::
    "terminal_rejection_record \<Rightarrow> provenance_rejection_evidence \<Rightarrow> timestamp \<Rightarrow> artifact
     \<Rightarrow> artifact_quarantined artifact_result" where
  "repair_provenance_misrejection terminal_record provenance now a =
     (if allowed_targets EvRepairProvenanceMisrejection (art_quarantine_status a) = None
      then (Inl (Invariant (CannotRepair (art_quarantine_status a))), a)
      else (case terminal_record of
              Present \<Rightarrow> (Inl (Invariant (RepairTerminalRecord (art_id a))), a)
            | CorruptionTombstone \<Rightarrow> (Inl (Invariant (RepairCorruptionTombstone (art_id a))), a)
            | Absent \<Rightarrow>
                (let repaired =
                       (Inr \<lparr>quar_artifact_id = art_id a,
                             quar_window_start = unwrap_or (art_quarantine_window_start a) now\<rparr>,
                        a\<lparr>art_quarantine_status := Quarantined, art_rejection_reason := None\<rparr>)
                 in case provenance of
                      Contradicted \<Rightarrow> repaired
                    | NeverTerminal \<Rightarrow> repaired
                    | Disproved reason \<Rightarrow> (Inl (Invariant (RepairDisproved (art_id a) reason)), a)
                    | NoVerdict \<Rightarrow> (Inl (Invariant (RepairNoVerdict (art_id a))), a))))"

definition delete :: "timestamp \<Rightarrow> artifact \<Rightarrow> artifact_deleted artifact_result" where
  "delete deleted_at a =
     (case art_deleted_at a of
        Some at \<Rightarrow> (Inl (Invariant (AlreadyDeleted (art_id a) at)), a)
      | None \<Rightarrow>
          (Inr \<lparr>del_artifact_id = art_id a, del_repository_id = art_repository_id a,
                del_path = art_path a, del_content_hash = art_sha256_checksum a\<rparr>,
           a\<lparr>art_deleted_at := Some deleted_at\<rparr>))"

definition is_downloadable :: "artifact \<Rightarrow> bool" where
  "is_downloadable a \<longleftrightarrow>
     art_deleted_at a = None \<and>
     (case art_quarantine_status a of QNone \<Rightarrow> True | Released \<Rightarrow> True | _ \<Rightarrow> False)"

definition is_promotable :: "artifact \<Rightarrow> bool" where
  "is_promotable a \<longleftrightarrow>
     art_deleted_at a = None \<and>
     (case art_quarantine_status a of QNone \<Rightarrow> True | Released \<Rightarrow> True | _ \<Rightarrow> False)"

section \<open>Commands\<close>

text \<open>
  One constructor per transition with its arguments; \<open>run_command\<close> calls the transition and
  lists the events it returned, which is what the use cases append to the artifact's stream.
\<close>

datatype command =
    CQuarantine timestamp
  | CRecordCleanScan
  | CRejectFromScan string release_origin
  | CRejectFromRetroactiveCuration uuid string
  | CRejectFromScanPolicyRetroactive scan_outcome string
  | CBlockByCurator uuid string
  | CTombstoneFromCorruption content_hash timestamp
  | CRelease release_reason release_authorization provenance_clearance
  | CCascadeProvenanceClearance content_hash signer_identity "string option" string
  | CFailScanIndeterminate string string u32
  | CReEvaluate timestamp provenance_clearance curation_clearance
  | CCompleteProvenance provenance_verdict string
  | CRepairProvenanceMisrejection terminal_rejection_record provenance_rejection_evidence timestamp

fun command_event :: "command \<Rightarrow> quarantine_event" where
  "command_event (CQuarantine _) = EvQuarantine"
| "command_event CRecordCleanScan = EvRecordCleanScan"
| "command_event (CRejectFromScan _ _) = EvRejectFromScan"
| "command_event (CRejectFromRetroactiveCuration _ _) = EvRejectFromRetroactiveCuration"
| "command_event (CRejectFromScanPolicyRetroactive _ _) = EvRejectFromScanPolicyRetroactive"
| "command_event (CBlockByCurator _ _) = EvBlockByCurator"
| "command_event (CTombstoneFromCorruption _ _) = EvTombstoneFromCorruption"
| "command_event (CRelease _ _ _) = EvRelease"
| "command_event (CCascadeProvenanceClearance _ _ _ _) = EvCascadeProvenanceClearance"
| "command_event (CFailScanIndeterminate _ _ _) = EvFailScanIndeterminate"
| "command_event (CReEvaluate _ _ _) = EvReEvaluate"
| "command_event (CCompleteProvenance _ _) = EvCompleteProvenance"
| "command_event (CRepairProvenanceMisrejection _ _ _) = EvRepairProvenanceMisrejection"

definition emit :: "('a \<Rightarrow> domain_event list) \<Rightarrow> 'a artifact_result \<Rightarrow> (domain_event list) artifact_result" where
  "emit f r = (map_sum id f (fst r), snd r)"

fun run_command :: "command \<Rightarrow> artifact \<Rightarrow> (domain_event list) artifact_result" where
  "run_command (CQuarantine w) a = emit (\<lambda>e. [EArtifactQuarantined e]) (quarantine w a)"
| "run_command CRecordCleanScan a = emit (\<lambda>_. []) (record_clean_scan a, a)"
| "run_command (CRejectFromScan r prior) a = emit (\<lambda>e. [EArtifactRejected e]) (reject_from_scan r prior a)"
| "run_command (CRejectFromRetroactiveCuration i r) a =
     emit (\<lambda>e. [EArtifactRejected e]) (reject_from_retroactive_curation i r a)"
| "run_command (CRejectFromScanPolicyRetroactive oc r) a =
     emit (\<lambda>e. case e of None \<Rightarrow> [] | Some e \<Rightarrow> [EArtifactRejected e])
       (reject_from_scan_policy_retroactive oc r a)"
| "run_command (CBlockByCurator i r) a = emit (\<lambda>e. [EArtifactRejected e]) (block_by_curator i r a)"
| "run_command (CTombstoneFromCorruption h t) a = tombstone_from_corruption h t a"
| "run_command (CRelease r z p) a = emit (\<lambda>e. [EArtifactReleased e]) (release r z p a)"
| "run_command (CCascadeProvenanceClearance h s t b) a =
     emit (\<lambda>e. [EProvenanceVerified e]) (cascade_provenance_clearance h s t b a, a)"
| "run_command (CFailScanIndeterminate s r n) a =
     emit (\<lambda>e. [EScanIndeterminate e]) (fail_scan_indeterminate s r n a)"
| "run_command (CReEvaluate t p c) a = emit (\<lambda>e. [e]) (re_evaluate t p c a)"
| "run_command (CCompleteProvenance v b) a = complete_provenance v b a"
| "run_command (CRepairProvenanceMisrejection r e t) a =
     emit (\<lambda>e. [EArtifactQuarantined e]) (repair_provenance_misrejection r e t a)"

text \<open>A concrete artifact, in a given state, for the examples of the other theories.\<close>

definition sample_artifact :: "quarantine_status \<Rightarrow> rejection_reason option \<Rightarrow> artifact" where
  "sample_artifact status reason =
     \<lparr>art_id = 1, art_repository_id = 2, art_name = ''left-pad'', art_name_as_published = ''left-pad'',
      art_version = Some ''1.0.0'', art_path = ''left-pad-1.0.0.tgz'', art_size_bytes = 10,
      art_sha256_checksum = ContentHash ''00'', art_sha1_checksum = None, art_md5_checksum = None,
      art_content_type = ''application/gzip'', art_quarantine_status = status,
      art_rejection_reason = reason, art_quarantine_window_start = Some 5,
      art_quarantine_deadline = Some 100, art_provenance_hold_indefinite = False,
      art_upstream_published_at = None, art_uploaded_by = None, art_created_at = 1,
      art_updated_at = 1, art_deleted_at = None\<rparr>"

end
