(* ===== verification/Artifact_Lifecycle.thy ===== *)
theory Artifact_Lifecycle
  imports Artifact_Aggregate
begin

text \<open>
  What the transitions of the artifact aggregate guarantee: each follows the lifecycle table, an
  error leaves the artifact as it was, the fields a transition may touch, the fail-closed release
  predicate, and what no sequence of transitions can do.
\<close>

section \<open>When a transition succeeds\<close>

lemma allowed_none:
  "allowed_targets EvQuarantine s = None \<longleftrightarrow> s \<noteq> QNone"
  "allowed_targets EvRecordCleanScan s = None \<longleftrightarrow> s \<noteq> QNone \<and> s \<noteq> Quarantined"
  "allowed_targets EvRejectFromScan s = None \<longleftrightarrow> s = Rejected \<or> s = ScanIndeterminate"
  "allowed_targets EvRejectFromRetroactiveCuration s = None \<longleftrightarrow> s \<noteq> Quarantined \<and> s \<noteq> Released"
  "allowed_targets EvRejectFromScanPolicyRetroactive s = None \<longleftrightarrow> s \<noteq> Quarantined \<and> s \<noteq> Released"
  "allowed_targets EvBlockByCurator s = None \<longleftrightarrow> s = Rejected \<or> s = ScanIndeterminate"
  "allowed_targets EvTombstoneFromCorruption s = None \<longleftrightarrow> s = Rejected"
  "allowed_targets EvRelease s = None \<longleftrightarrow> s = QNone \<or> s = Released"
  "allowed_targets EvCascadeProvenanceClearance s = None \<longleftrightarrow> s \<noteq> Quarantined"
  "allowed_targets EvFailScanIndeterminate s = None \<longleftrightarrow> s \<noteq> QNone \<and> s \<noteq> Quarantined"
  "allowed_targets EvReEvaluate s = None \<longleftrightarrow> s \<noteq> Rejected"
  "allowed_targets EvRepairProvenanceMisrejection s = None \<longleftrightarrow> s \<noteq> Rejected"
  by (cases s; simp add: allowed_targets_cells classify_def)+

lemma quarantine_ok:
  "quarantine w a = (Inr e, a') \<longleftrightarrow>
     art_quarantine_status a = QNone \<and>
     e = \<lparr>quar_artifact_id = art_id a, quar_window_start = w\<rparr> \<and>
     a' = a\<lparr>art_quarantine_status := Quarantined, art_quarantine_window_start := Some w\<rparr>"
  by (auto simp: quarantine_def allowed_none)

lemma reject_from_scan_ok:
  "reject_from_scan r prior a = (Inr e, a') \<longleftrightarrow>
     (art_quarantine_status a = QNone \<or> art_quarantine_status a = Quarantined \<or>
      art_quarantine_status a = Released \<and> permits_scan_reblock prior) \<and>
     e = \<lparr>rej_artifact_id = art_id a, rej_rejected_by = Scanner, rej_reason = r\<rparr> \<and>
     a' = a\<lparr>art_quarantine_status := Rejected, art_rejection_reason := Some Scanner\<rparr>"
  by (cases "art_quarantine_status a") (auto simp: reject_from_scan_def allowed_none)

lemma reject_from_retroactive_curation_ok:
  "reject_from_retroactive_curation i r a = (Inr e, a') \<longleftrightarrow>
     (art_quarantine_status a = Quarantined \<or> art_quarantine_status a = Released) \<and>
     e = \<lparr>rej_artifact_id = art_id a, rej_rejected_by = CurationRetroactive i, rej_reason = r\<rparr> \<and>
     a' = a\<lparr>art_quarantine_status := Rejected, art_rejection_reason := Some (CurationRetroactive i)\<rparr>"
  by (auto simp: reject_from_retroactive_curation_def allowed_none)

lemma reject_from_scan_policy_retroactive_ok:
  "reject_from_scan_policy_retroactive oc r a = (Inr e, a') \<longleftrightarrow>
     (art_quarantine_status a = Quarantined \<or> art_quarantine_status a = Released) \<and>
     (if \<exists>vs. oc = RejectScan vs
      then e = Some \<lparr>rej_artifact_id = art_id a, rej_rejected_by = ScanPolicyRetroactive, rej_reason = r\<rparr> \<and>
           a' = a\<lparr>art_quarantine_status := Rejected, art_rejection_reason := Some ScanPolicyRetroactive\<rparr>
      else e = None \<and> a' = a)"
  by (cases oc) (auto simp: reject_from_scan_policy_retroactive_def allowed_none)

lemma block_by_curator_ok:
  "block_by_curator i r a = (Inr e, a') \<longleftrightarrow>
     art_quarantine_status a \<noteq> Rejected \<and> art_quarantine_status a \<noteq> ScanIndeterminate \<and>
     e = \<lparr>rej_artifact_id = art_id a, rej_rejected_by = RejCurator i, rej_reason = r\<rparr> \<and>
     a' = a\<lparr>art_quarantine_status := Rejected, art_rejection_reason := Some (RejCurator i)\<rparr>"
  by (auto simp: block_by_curator_def allowed_none)

lemma tombstone_from_corruption_ok:
  "tombstone_from_corruption h t a = (Inr es, a') \<longleftrightarrow>
     art_quarantine_status a \<noteq> Rejected \<and>
     es = [EArtifactCorrupted \<lparr>cor_artifact_id = art_id a, cor_computed_hash = h,
             cor_expected_hash = art_sha256_checksum a, cor_detected_at = t\<rparr>,
           EArtifactRejected \<lparr>rej_artifact_id = art_id a, rej_rejected_by = Corruption,
             rej_reason = corruption_reason h (art_sha256_checksum a)\<rparr>] \<and>
     a' = a\<lparr>art_quarantine_status := Rejected, art_rejection_reason := Some Corruption\<rparr>"
  by (auto simp: tombstone_from_corruption_def allowed_none Let_def)

lemma release_ok:
  "release r z p a = (Inr e, a') \<longleftrightarrow>
     (art_quarantine_status a = Quarantined \<or> art_quarantine_status a = ScanIndeterminate \<or>
      art_quarantine_status a = Rejected \<and> r = Curator \<and> z = CuratorWaiver \<and>
        is_curator_overridable (art_rejection_reason a)) \<and>
     release_authorized p r z \<and>
     e = \<lparr>rel_artifact_id = art_id a, rel_released_by = r, rel_released_by_user_id = None,
          rel_justification = None\<rparr> \<and>
     a' = a\<lparr>art_quarantine_status := Released, art_rejection_reason := None\<rparr>"
  by (cases "art_quarantine_status a") (auto simp: release_def allowed_none)

lemma fail_scan_indeterminate_ok:
  "fail_scan_indeterminate s r n a = (Inr e, a') \<longleftrightarrow>
     (art_quarantine_status a = QNone \<or> art_quarantine_status a = Quarantined) \<and>
     e = \<lparr>si_artifact_id = art_id a, si_scanner = s, si_reason = r, si_attempts = n\<rparr> \<and>
     a' = a\<lparr>art_quarantine_status := ScanIndeterminate\<rparr>"
  by (auto simp: fail_scan_indeterminate_def allowed_none)

lemma re_evaluate_ok:
  "re_evaluate now p c a = (Inr e, a') \<longleftrightarrow>
     art_quarantine_status a = Rejected \<and> is_scan_clearable (art_rejection_reason a) \<and>
     c = CurationCleared \<and>
     (if still_in_window a now
      then e = EArtifactQuarantined \<lparr>quar_artifact_id = art_id a,
                 quar_window_start = unwrap_or (art_quarantine_window_start a) now\<rparr> \<and>
           a' = a\<lparr>art_quarantine_status := Quarantined, art_rejection_reason := None\<rparr>
      else provenance_clears p \<and>
           e = EArtifactReleased \<lparr>rel_artifact_id = art_id a, rel_released_by = PolicyReEvaluation,
                 rel_released_by_user_id = None, rel_justification = None\<rparr> \<and>
           a' = a\<lparr>art_quarantine_status := Released, art_rejection_reason := None\<rparr>)"
  by (auto simp: re_evaluate_def allowed_none)

lemma repair_ok:
  "repair_provenance_misrejection tr ev now a = (Inr e, a') \<longleftrightarrow>
     art_quarantine_status a = Rejected \<and> tr = Absent \<and> disproves_terminality ev \<and>
     e = \<lparr>quar_artifact_id = art_id a,
          quar_window_start = unwrap_or (art_quarantine_window_start a) now\<rparr> \<and>
     a' = a\<lparr>art_quarantine_status := Quarantined, art_rejection_reason := None\<rparr>"
  by (cases tr; cases ev) (auto simp: repair_provenance_misrejection_def allowed_none Let_def)

lemma complete_provenance_ok:
  "complete_provenance v b a = (Inr es, a') \<Longrightarrow>
     (\<exists>reason. ver_outcome v = ProvRejected reason \<and>
        a' = a\<lparr>art_quarantine_status := Rejected, art_rejection_reason := None\<rparr> \<and>
        es = [EProvenanceRejected \<lparr>prj_artifact_id = art_id a,
                prj_content_hash = art_sha256_checksum a, prj_backend = b, prj_reason = reason\<rparr>,
              EArtifactRejected \<lparr>rej_artifact_id = art_id a, rej_rejected_by = RejProvenance,
                rej_reason = provenance_failure_reason reason b\<rparr>]) \<or>
     a' = a \<and> (es = [] \<or> (\<exists>signer pt. ver_outcome v = ProvVerified signer pt \<and>
        es = [EProvenanceVerified \<lparr>pvf_artifact_id = art_id a,
                pvf_content_hash = art_sha256_checksum a, pvf_backend = b, pvf_signer = signer,
                pvf_predicate_type = pt, pvf_cascaded_from = None\<rparr>]))"
  by (auto simp: complete_provenance_def split: provenance_outcome.splits)

lemmas transition_ok = quarantine_ok reject_from_scan_ok reject_from_retroactive_curation_ok
  reject_from_scan_policy_retroactive_ok block_by_curator_ok tombstone_from_corruption_ok release_ok
  fail_scan_indeterminate_ok re_evaluate_ok repair_ok

section \<open>The transitions follow the table\<close>

lemma emit_cases:
  "emit f r = (Inl e, a') \<longleftrightarrow> r = (Inl e, a')"
  "emit f r = (Inr es, a') \<longleftrightarrow> (\<exists>x. r = (Inr x, a') \<and> es = f x)"
  by (cases r; cases "fst r"; auto simp: emit_def)+

lemmas transition_defs = quarantine_def record_clean_scan_def reject_from_scan_def
  reject_from_retroactive_curation_def reject_from_scan_policy_retroactive_def block_by_curator_def
  tombstone_from_corruption_def release_def complete_provenance_def cascade_provenance_clearance_def
  fail_scan_indeterminate_def re_evaluate_def repair_provenance_misrejection_def Let_def

lemma run_command_err: "run_command c a = (Inl e, a') \<Longrightarrow> a' = a"
  by (cases c)
    (simp_all add: emit_cases transition_defs split: if_splits option.splits scan_outcome.splits
      provenance_outcome.splits terminal_rejection_record.splits provenance_rejection_evidence.splits)

lemma allowed_some:
  "allowed_targets EvQuarantine QNone = Some [Quarantined]"
  "allowed_targets EvRecordCleanScan QNone = Some [QNone]"
  "allowed_targets EvRecordCleanScan Quarantined = Some [Quarantined]"
  "s = QNone \<or> s = Quarantined \<or> s = Released \<Longrightarrow> allowed_targets EvRejectFromScan s = Some [Rejected]"
  "s = Quarantined \<or> s = Released \<Longrightarrow> allowed_targets EvRejectFromRetroactiveCuration s = Some [Rejected]"
  "s = Quarantined \<or> s = Released \<Longrightarrow>
     allowed_targets EvRejectFromScanPolicyRetroactive s = Some [s, Rejected]"
  "s \<noteq> Rejected \<and> s \<noteq> ScanIndeterminate \<Longrightarrow> allowed_targets EvBlockByCurator s = Some [Rejected]"
  "s \<noteq> Rejected \<Longrightarrow> allowed_targets EvTombstoneFromCorruption s = Some [Rejected]"
  "s \<noteq> QNone \<and> s \<noteq> Released \<Longrightarrow> allowed_targets EvRelease s = Some [Released]"
  "allowed_targets EvCascadeProvenanceClearance Quarantined = Some [Quarantined]"
  "s = QNone \<or> s = Quarantined \<Longrightarrow> allowed_targets EvFailScanIndeterminate s = Some [ScanIndeterminate]"
  "allowed_targets EvReEvaluate Rejected = Some [Quarantined, Released]"
  "\<exists>ts. allowed_targets EvCompleteProvenance s = Some ts \<and> set ts = {s, Rejected}"
  "allowed_targets EvRepairProvenanceMisrejection Rejected = Some [Quarantined]"
  by (cases s; simp add: allowed_targets_cells classify_def)+

lemma run_command_ok:
  assumes "run_command c a = (Inr es, a')"
  shows "\<exists>ts. allowed_targets (command_event c) (art_quarantine_status a) = Some ts \<and>
              art_quarantine_status a' \<in> set ts"
proof (cases c)
  case CRecordCleanScan
  with assms show ?thesis
    by (auto simp: emit_cases record_clean_scan_def allowed_targets_cells classify_def
        split: quarantine_status.splits)
next
  case (CCompleteProvenance v b)
  then show ?thesis
    using complete_provenance_ok [of v b a es a'] allowed_some(13) [of "art_quarantine_status a"] assms
    by auto
next
  case (CCascadeProvenanceClearance h s t b)
  with assms show ?thesis
    by (auto simp: emit_cases cascade_provenance_clearance_def allowed_none allowed_some split: if_splits)
qed (use assms in \<open>auto simp: emit_cases transition_ok allowed_some split: if_splits\<close>)

interpretation artifact_lifecycle: lifecycle_table art_quarantine_status command_event run_command
  by unfold_locales (fact run_command_ok, fact run_command_err)

section \<open>What a transition may touch\<close>

text \<open>A transition writes the status, the reason and the window anchor, and nothing else.\<close>

lemma run_command_frame:
  "\<exists>s r w. snd (run_command c a) =
     a\<lparr>art_quarantine_status := s, art_rejection_reason := r, art_quarantine_window_start := w\<rparr>"
proof -
  obtain res a' where run: "run_command c a = (res, a')" by force
  show ?thesis
  proof (cases res)
    case (Inl e)
    have "snd (run_command c a) = a\<lparr>art_quarantine_status := art_quarantine_status a,
        art_rejection_reason := art_rejection_reason a,
        art_quarantine_window_start := art_quarantine_window_start a\<rparr>"
      using run_command_err [of c a e a'] run Inl by simp
    then show ?thesis by blast
  next
    case (Inr es)
    then have "run_command c a = (Inr es, a')" using run by simp
    then have "\<exists>s r w. a' = a\<lparr>art_quarantine_status := s, art_rejection_reason := r,
        art_quarantine_window_start := w\<rparr>"
    proof (cases c)
      case (CCompleteProvenance v b)
      then show ?thesis
        using complete_provenance_ok [of v b a es a'] \<open>run_command c a = (Inr es, a')\<close>
        by (cases a) auto
    qed (cases a; auto simp: emit_cases transition_ok split: if_splits)+
    with run show ?thesis by simp
  qed
qed

lemma run_command_fields [hort_frame]:
  "art_id (snd (run_command c a)) = art_id a"
  "art_repository_id (snd (run_command c a)) = art_repository_id a"
  "art_path (snd (run_command c a)) = art_path a"
  "art_sha256_checksum (snd (run_command c a)) = art_sha256_checksum a"
  "art_deleted_at (snd (run_command c a)) = art_deleted_at a"
  "art_quarantine_deadline (snd (run_command c a)) = art_quarantine_deadline a"
  using run_command_frame [of c a] by auto

lemma run_all_fields:
  "art_id (artifact_lifecycle.run_all cs a) = art_id a \<and>
   art_repository_id (artifact_lifecycle.run_all cs a) = art_repository_id a \<and>
   art_path (artifact_lifecycle.run_all cs a) = art_path a \<and>
   art_sha256_checksum (artifact_lifecycle.run_all cs a) = art_sha256_checksum a \<and>
   art_deleted_at (artifact_lifecycle.run_all cs a) = art_deleted_at a"
  unfolding artifact_lifecycle.run_all_def
  by (induction cs arbitrary: a) (simp_all add: hort_frame)

lemma run_all_preserves:
  assumes "P a" and "\<And>c x. c \<in> set cs \<Longrightarrow> P x \<Longrightarrow> P (snd (run_command c x))"
  shows "P (artifact_lifecycle.run_all cs a)"
  using assms unfolding artifact_lifecycle.run_all_def
proof (induction cs arbitrary: a)
  case (Cons c cs)
  then show ?case by (simp add: Cons.IH)
qed simp

text \<open>Every command, with what it leaves behind when it succeeds and \<open>a\<close> itself when it fails.\<close>

lemma run_command_preserves:
  assumes "P a" and "\<And>es a'. run_command c a = (Inr es, a') \<Longrightarrow> P a'"
  shows "P (snd (run_command c a))"
proof -
  obtain res a' where run: "run_command c a = (res, a')" by force
  then show ?thesis
    using assms run_command_err [of c a _ a'] by (cases res) auto
qed

section \<open>Invariants of the aggregate\<close>

text \<open>A recorded reason belongs to a rejection.\<close>

definition reason_inv :: "artifact \<Rightarrow> bool" where
  "reason_inv a \<longleftrightarrow> (art_rejection_reason a \<noteq> None \<longrightarrow> art_quarantine_status a = Rejected)"

lemma reason_inv_step: "reason_inv a \<Longrightarrow> reason_inv (snd (run_command c a))"
proof (rule run_command_preserves)
  fix es a'
  assume inv: "reason_inv a" and run: "run_command c a = (Inr es, a')"
  show "reason_inv a'"
  proof (cases c)
    case (CCompleteProvenance v b)
    then show ?thesis
      using complete_provenance_ok [of v b a es a'] run inv by (auto simp: reason_inv_def)
  qed (use run inv in \<open>auto simp: emit_cases transition_ok reason_inv_def split: if_splits\<close>)
qed

text \<open>Once an artifact has left the unquarantined state its window anchor is fixed.\<close>

definition anchored :: "timestamp option \<Rightarrow> artifact \<Rightarrow> bool" where
  "anchored w a \<longleftrightarrow> art_quarantine_status a \<noteq> QNone \<and> art_quarantine_window_start a = w"

lemma anchored_step: "anchored w a \<Longrightarrow> anchored w (snd (run_command c a))"
proof (rule run_command_preserves)
  fix es a'
  assume inv: "anchored w a" and run: "run_command c a = (Inr es, a')"
  show "anchored w a'"
  proof (cases c)
    case (CCompleteProvenance v b)
    then show ?thesis
      using complete_provenance_ok [of v b a es a'] run inv by (auto simp: anchored_def)
  qed (use run inv in \<open>auto simp: emit_cases transition_ok anchored_def split: if_splits\<close>)
qed

text \<open>A rejection that no unattended authority and no curator can lift.\<close>

definition beyond_override :: "artifact \<Rightarrow> bool" where
  "beyond_override a \<longleftrightarrow> art_quarantine_status a = Rejected \<and>
     \<not> is_scan_clearable (art_rejection_reason a) \<and> \<not> is_curator_overridable (art_rejection_reason a)"

definition repairs_unrecorded :: "command \<Rightarrow> bool" where
  "repairs_unrecorded c \<longleftrightarrow> (\<exists>ev t. c = CRepairProvenanceMisrejection Absent ev t)"

lemma beyond_override_step:
  assumes "beyond_override a" and "\<not> repairs_unrecorded c"
  shows "beyond_override (snd (run_command c a))"
proof (rule run_command_preserves)
  fix es a'
  assume run: "run_command c a = (Inr es, a')"
  show "beyond_override a'"
  proof (cases c)
    case (CCompleteProvenance v b)
    then show ?thesis
      using complete_provenance_ok [of v b a es a'] run assms(1) by (auto simp: beyond_override_def)
  next
    case (CRelease r z p)
    then show ?thesis using run assms(1) by (auto simp: emit_cases transition_ok beyond_override_def)
  qed (use run assms in
      \<open>auto simp: emit_cases transition_ok beyond_override_def repairs_unrecorded_def split: if_splits\<close>)
qed (fact assms(1))

lemma downloadable_cases:
  "is_downloadable a \<longleftrightarrow> art_deleted_at a = None \<and>
     (art_quarantine_status a = QNone \<or> art_quarantine_status a = Released)"
  by (cases "art_quarantine_status a") (simp_all add: is_downloadable_def)

section \<open>Properties\<close>

text \<open>
  C4. Every transition of the aggregate follows the lifecycle table: when it succeeds, the table
  has a row for its event and the state it started in, and the state it ends in is one of that
  row's targets; when it fails, the artifact is untouched; and from a state the table forbids it
  always fails.
\<close>

theorem transitions_follow_table:
  "(\<forall>es a'. run_command c a = (Inr es, a') \<longrightarrow>
      (\<exists>ts. allowed_targets (command_event c) (art_quarantine_status a) = Some ts \<and>
            art_quarantine_status a' \<in> set ts)) \<and>
   (\<forall>e a'. run_command c a = (Inl e, a') \<longrightarrow> a' = a) \<and>
   (allowed_targets (command_event c) (art_quarantine_status a) = None \<longrightarrow>
      (\<exists>e. run_command c a = (Inl e, a)))"
  using run_command_ok [of c a] run_command_err [of c a] artifact_lifecycle.forbidden_refuses [of c a]
  by blast

theorem transitions_follow_table_witness:
  "\<exists>e. run_command (CQuarantine 7) (sample_artifact Released None) = (Inl e, sample_artifact Released None)"
  using transitions_follow_table [of "CQuarantine 7" "sample_artifact Released None"]
  by (simp add: allowed_none sample_artifact_def)

text \<open>
  The table promises nothing the code cannot do: every target of every row is reached by a
  transition of that row's event, from some artifact in the row's source state. The artifact
  differs from any given one only in its status, its reason and its deadline.
\<close>

theorem table_rows_realised:
  assumes "allowed_targets event src = Some ts" and "tgt \<in> set ts"
  shows "\<exists>c reason deadline es a'. command_event c = event \<and>
    run_command c (a\<lparr>art_quarantine_status := src, art_rejection_reason := reason,
                     art_quarantine_deadline := deadline\<rparr>) = (Inr es, a') \<and>
    art_quarantine_status a' = tgt"
proof -
  define x where "x = (\<lambda>reason deadline. a\<lparr>art_quarantine_status := src, art_rejection_reason := reason,
      art_quarantine_deadline := deadline\<rparr>)"
  define cmd where "cmd = (case event of
      EvQuarantine \<Rightarrow> CQuarantine 0
    | EvRecordCleanScan \<Rightarrow> CRecordCleanScan
    | EvRejectFromScan \<Rightarrow> CRejectFromScan [] NeverReleased
    | EvRejectFromRetroactiveCuration \<Rightarrow> CRejectFromRetroactiveCuration 0 []
    | EvRejectFromScanPolicyRetroactive \<Rightarrow>
        CRejectFromScanPolicyRetroactive (if tgt = Rejected then RejectScan [] else Clean) []
    | EvBlockByCurator \<Rightarrow> CBlockByCurator 0 []
    | EvTombstoneFromCorruption \<Rightarrow> CTombstoneFromCorruption (ContentHash []) 0
    | EvRelease \<Rightarrow> CRelease Curator CuratorWaiver ProvPending
    | EvCascadeProvenanceClearance \<Rightarrow>
        CCascadeProvenanceClearance (ContentHash []) \<lparr>sig_issuer = [], sig_san = []\<rparr> None []
    | EvFailScanIndeterminate \<Rightarrow> CFailScanIndeterminate [] [] 0
    | EvReEvaluate \<Rightarrow> CReEvaluate 0 ProvCleared CurationCleared
    | EvCompleteProvenance \<Rightarrow>
        CCompleteProvenance \<lparr>ver_outcome = (if tgt = Rejected then ProvRejected Unsigned else NoAttestation),
                             ver_unreadable_skipped = 0\<rparr> []
    | EvRepairProvenanceMisrejection \<Rightarrow> CRepairProvenanceMisrejection Absent Contradicted 0)"
  have "\<exists>es a'. run_command cmd (x (Some Scanner) (if tgt = Quarantined then Some 1 else None)) = (Inr es, a') \<and>
      art_quarantine_status a' = tgt"
    using assms
    by (cases event; cases src)
      (auto simp: cmd_def x_def allowed_targets_cells classify_def transition_defs emit_def
        still_in_window_def provenance_clears_def split: if_splits)
  moreover have "command_event cmd = event" by (cases event) (simp_all add: cmd_def)
  ultimately show ?thesis unfolding x_def by blast
qed

theorem table_rows_realised_witness:
  "\<exists>c reason deadline es a'. command_event c = EvReEvaluate \<and>
    run_command c ((sample_artifact QNone None)\<lparr>art_quarantine_status := Rejected,
       art_rejection_reason := reason, art_quarantine_deadline := deadline\<rparr>) = (Inr es, a') \<and>
    art_quarantine_status a' = Quarantined"
  by (rule table_rows_realised [of EvReEvaluate Rejected "[Quarantined, Released]" Quarantined])
    (simp_all add: allowed_some)

text \<open>
  C2. The release predicate is fail-closed. A release succeeds exactly when the artifact is held,
  or is rejected on an axis a curator's waive reaches and the waive is what is presented, and in
  addition the pair of reason and authority is one of the three the policy names: the timer with
  scan evidence and a provenance gate that is cleared or not required, a policy re-evaluation, or
  a curator's waive. An administrator's release is never authorised. So a failed scan
  (\<open>ScanIndeterminate\<close>) leaves its state under the same three authorities as a quarantine, not by an
  administrator's override as the documentation of the status says, and a rejection is not permanent.
\<close>

theorem release_fail_closed:
  "is_ok (fst (release reason authz provenance a)) \<longleftrightarrow>
     (art_quarantine_status a = Quarantined \<or> art_quarantine_status a = ScanIndeterminate \<or>
      art_quarantine_status a = Rejected \<and> reason = Curator \<and> authz = CuratorWaiver \<and>
        is_curator_overridable (art_rejection_reason a)) \<and>
     (reason = Timer \<and> authz \<in> {ScanSucceeded, ScanCleared, ScanWaived, ScanRecorded} \<and>
        provenance \<noteq> ProvPending \<or>
      reason = PolicyReEvaluation \<and> authz = AuthPolicyReEvaluation \<or>
      reason = Curator \<and> authz = CuratorWaiver)"
proof -
  have auth: "release_authorized provenance reason authz \<longleftrightarrow>
      (reason = Timer \<and> authz \<in> {ScanSucceeded, ScanCleared, ScanWaived, ScanRecorded} \<and>
        provenance \<noteq> ProvPending \<or>
      reason = PolicyReEvaluation \<and> authz = AuthPolicyReEvaluation \<or>
      reason = Curator \<and> authz = CuratorWaiver)"
    by (cases reason; cases authz; cases provenance) (simp_all add: provenance_clears_def)
  show ?thesis
    unfolding auth [symmetric]
    by (cases "art_quarantine_status a") (auto simp: release_def allowed_none)
qed

text \<open>
  C1. Bytes become downloadable only through a release or a re-evaluation. If a transition turns
  an artifact that could not be downloaded into one that can, it was a release whose authority is
  authorised, or a re-evaluation of a scan-axis rejection with the curation axis cleared, the
  provenance gate cleared and the observation window over.
\<close>

theorem downloadable_only_by_release:
  assumes "\<not> is_downloadable a" and "is_downloadable (snd (run_command c a))"
  shows "(\<exists>reason authz provenance. c = CRelease reason authz provenance \<and>
            release_authorized provenance reason authz) \<or>
         (\<exists>now provenance. c = CReEvaluate now provenance CurationCleared \<and>
            provenance_clears provenance \<and> is_scan_clearable (art_rejection_reason a) \<and>
            \<not> still_in_window a now)"
proof -
  obtain res a' where run: "run_command c a = (res, a')" by force
  with assms run_command_err [of c a _ a'] obtain es where ok: "run_command c a = (Inr es, a')"
    by (cases res) auto
  have new: "is_downloadable a'" using assms(2) run by simp
  show ?thesis
  proof (cases c)
    case (CCompleteProvenance v b)
    then show ?thesis
      using complete_provenance_ok [of v b a es a'] ok new assms(1) by (auto simp: downloadable_cases)
  next
    case (CReEvaluate now p cur)
    with ok new assms(1) show ?thesis
      by (auto simp: emit_cases re_evaluate_ok downloadable_cases split: if_splits)
  qed (use ok new assms(1) in
      \<open>auto simp: emit_cases transition_ok downloadable_cases split: if_splits\<close>)
qed

theorem downloadable_only_by_release_witness:
  "\<exists>now provenance. CReEvaluate 200 ProvCleared CurationCleared = CReEvaluate now provenance CurationCleared \<and>
     provenance_clears provenance \<and>
     is_scan_clearable (art_rejection_reason (sample_artifact Rejected (Some Scanner))) \<and>
     \<not> still_in_window (sample_artifact Rejected (Some Scanner)) now"
  using downloadable_only_by_release
    [of "sample_artifact Rejected (Some Scanner)" "CReEvaluate 200 ProvCleared CurationCleared"]
  by (simp add: sample_artifact_def is_downloadable_def emit_def transition_defs allowed_none
      still_in_window_def provenance_clears_def)

text \<open>
  C7. Invariants over any sequence of transitions. A recorded rejection reason always belongs to
  a rejected artifact; once the artifact has left the unquarantined state it never returns to it
  and the anchor of its observation window never moves; and its identity, location, content hash
  and deletion mark are never written.
\<close>

theorem lifecycle_invariants:
  assumes "reason_inv a"
  shows "reason_inv (artifact_lifecycle.run_all cs a) \<and>
    (art_quarantine_status a \<noteq> QNone \<longrightarrow>
      art_quarantine_status (artifact_lifecycle.run_all cs a) \<noteq> QNone \<and>
      art_quarantine_window_start (artifact_lifecycle.run_all cs a) = art_quarantine_window_start a) \<and>
    art_id (artifact_lifecycle.run_all cs a) = art_id a \<and>
    art_repository_id (artifact_lifecycle.run_all cs a) = art_repository_id a \<and>
    art_path (artifact_lifecycle.run_all cs a) = art_path a \<and>
    art_sha256_checksum (artifact_lifecycle.run_all cs a) = art_sha256_checksum a \<and>
    art_deleted_at (artifact_lifecycle.run_all cs a) = art_deleted_at a"
proof (intro conjI impI)
  show "reason_inv (artifact_lifecycle.run_all cs a)"
    by (rule run_all_preserves [where P = reason_inv, OF assms]) (rule reason_inv_step)
next
  assume "art_quarantine_status a \<noteq> QNone"
  then have start: "anchored (art_quarantine_window_start a) a" by (simp add: anchored_def)
  have "anchored (art_quarantine_window_start a) (artifact_lifecycle.run_all cs a)"
    by (rule run_all_preserves [where P = "anchored (art_quarantine_window_start a)", OF start])
      (rule anchored_step)
  then show "art_quarantine_status (artifact_lifecycle.run_all cs a) \<noteq> QNone"
    and "art_quarantine_window_start (artifact_lifecycle.run_all cs a) = art_quarantine_window_start a"
    by (simp_all add: anchored_def)
qed (simp_all add: run_all_fields)

theorem lifecycle_invariants_witness:
  "reason_inv (artifact_lifecycle.run_all [CBlockByCurator 3 ''x'', CQuarantine 9] (sample_artifact Quarantined None)) \<and>
   art_quarantine_window_start
     (artifact_lifecycle.run_all [CBlockByCurator 3 ''x'', CQuarantine 9] (sample_artifact Quarantined None)) = Some 5"
  using lifecycle_invariants [of "sample_artifact Quarantined None" "[CBlockByCurator 3 ''x'', CQuarantine 9]"]
  by (simp add: sample_artifact_def reason_inv_def)

text \<open>
  A rejection for corruption is terminal for the aggregate in memory: whatever transitions follow, the
  artifact stays rejected and cannot be downloaded, as long as no repair is run with the claim that its
  stream records no rejection. Between transitions the reason is not read back from the stream here.
\<close>

theorem corruption_is_terminal:
  assumes "art_quarantine_status a = Rejected" and "art_rejection_reason a = Some Corruption"
    and "\<forall>c\<in>set cs. \<not> repairs_unrecorded c"
  shows "art_quarantine_status (artifact_lifecycle.run_all cs a) = Rejected \<and>
    \<not> is_downloadable (artifact_lifecycle.run_all cs a)"
proof -
  have "beyond_override a" using assms(1,2) by (simp add: beyond_override_def)
  then have "beyond_override (artifact_lifecycle.run_all cs a)"
    by (rule run_all_preserves) (use assms(3) beyond_override_step in blast)
  then show ?thesis by (simp add: beyond_override_def downloadable_cases)
qed

theorem corruption_is_terminal_witness:
  "art_quarantine_status (artifact_lifecycle.run_all
      [CRelease Curator CuratorWaiver ProvCleared, CReEvaluate 0 ProvCleared CurationCleared]
      (sample_artifact Rejected (Some Corruption))) = Rejected"
  using corruption_is_terminal [of "sample_artifact Rejected (Some Corruption)"
      "[CRelease Curator CuratorWaiver ProvCleared, CReEvaluate 0 ProvCleared CurationCleared]"]
  by (simp add: sample_artifact_def repairs_unrecorded_def)

text \<open>
  Deletion is final. It succeeds exactly once, leaves everything but the deletion mark alone,
  and after it no sequence of transitions makes the artifact downloadable or promotable, and a
  second deletion is refused.
\<close>

theorem deletion_is_final:
  assumes "delete at a = (Inr e, a')"
  shows "art_deleted_at a = None \<and> a' = a\<lparr>art_deleted_at := Some at\<rparr> \<and>
    \<not> is_downloadable (artifact_lifecycle.run_all cs a') \<and>
    \<not> is_promotable (artifact_lifecycle.run_all cs a') \<and>
    delete later (artifact_lifecycle.run_all cs a') =
      (Inl (Invariant (AlreadyDeleted (art_id a) at)), artifact_lifecycle.run_all cs a')"
proof -
  have del: "art_deleted_at a = None" "a' = a\<lparr>art_deleted_at := Some at\<rparr>"
    using assms by (auto simp: delete_def split: option.splits)
  then have "art_deleted_at (artifact_lifecycle.run_all cs a') = Some at"
    and "art_id (artifact_lifecycle.run_all cs a') = art_id a"
    using run_all_fields [of cs a'] by simp_all
  with del show ?thesis by (simp add: is_downloadable_def is_promotable_def delete_def)
qed

theorem deletion_is_final_witness:
  "\<not> is_downloadable (artifact_lifecycle.run_all [CRelease Curator CuratorWaiver ProvCleared]
      ((sample_artifact Quarantined None)\<lparr>art_deleted_at := Some 50\<rparr>))"
  using deletion_is_final [of 50 "sample_artifact Quarantined None" _
      "(sample_artifact Quarantined None)\<lparr>art_deleted_at := Some 50\<rparr>"
      "[CRelease Curator CuratorWaiver ProvCleared]"]
  by (simp add: delete_def sample_artifact_def)

text \<open>
  The curator's waive (\<^verbatim>\<open>hort-app/src/use_cases/curation_use_case.rs\<close>) checks the justification first and
  fills in the attribution on the event the release emitted.
\<close>

datatype justification_error = JustificationEmpty | JustificationTooLong nat

definition validate_justification :: "string \<Rightarrow> justification_error + unit" where
  "validate_justification justification =
     (if justification = [] then Inl JustificationEmpty
      else if 512 < length justification then Inl (JustificationTooLong (length justification))
      else Inr ())"

definition attribute_waive :: "uuid \<Rightarrow> string \<Rightarrow> artifact_released \<Rightarrow> artifact_released" where
  "attribute_waive user_id justification e =
     e\<lparr>rel_released_by_user_id := Some user_id, rel_justification := Some justification\<rparr>"

text \<open>What the callers establish about the texts they pass before a transition is run.\<close>

fun valid_inputs :: "command \<Rightarrow> artifact \<Rightarrow> bool" where
  "valid_inputs (CRejectFromScan r _) a = (r \<noteq> [] \<and> length r \<le> 4096)"
| "valid_inputs (CRejectFromRetroactiveCuration _ r) a = (r \<noteq> [] \<and> length r \<le> 4096)"
| "valid_inputs (CRejectFromScanPolicyRetroactive _ r) a = (r \<noteq> [] \<and> length r \<le> 4096)"
| "valid_inputs (CBlockByCurator _ r) a = (r \<noteq> [] \<and> length r \<le> 4096)"
| "valid_inputs (CTombstoneFromCorruption h _) a =
     (length (content_hash_to_string h) = 64 \<and> length (content_hash_to_string (art_sha256_checksum a)) = 64)"
| "valid_inputs (CFailScanIndeterminate s r _) a =
     (s \<noteq> [] \<and> length s \<le> 256 \<and> r \<noteq> [] \<and> length r \<le> 4096)"
| "valid_inputs (CCascadeProvenanceClearance _ sg pt b) a =
     (b \<noteq> [] \<and> length b \<le> 256 \<and> sig_issuer sg \<noteq> [] \<and> length (sig_issuer sg) \<le> 1024 \<and>
      sig_san sg \<noteq> [] \<and> length (sig_san sg) \<le> 1024 \<and>
      (\<forall>t. pt = Some t \<longrightarrow> t \<noteq> [] \<and> length t \<le> 1024))"
| "valid_inputs (CCompleteProvenance v b) a =
     (b \<noteq> [] \<and> length b \<le> 256 \<and>
      (\<forall>sg pt. ver_outcome v = ProvVerified sg pt \<longrightarrow>
         sig_issuer sg \<noteq> [] \<and> length (sig_issuer sg) \<le> 1024 \<and> sig_san sg \<noteq> [] \<and>
         length (sig_san sg) \<le> 1024 \<and> (\<forall>t. pt = Some t \<longrightarrow> t \<noteq> [] \<and> length t \<le> 1024)))"
| "valid_inputs _ a = True"

definition event_ok :: "domain_event \<Rightarrow> bool" where
  "event_ok e \<longleftrightarrow> (case domain_event_validate e of None \<Rightarrow> False | Some r \<Rightarrow> is_ok r)"

lemmas event_validate_defs = artifact_released_validate_def artifact_rejected_validate_def
  scan_indeterminate_validate_def provenance_verified_validate_def provenance_rejected_validate_def
  and_then_ok validate_string_ok validate_optional_string_ok event_limits

lemma provenance_failure_reason_bound:
  "provenance_failure_reason reason b \<noteq> [] \<and> length (provenance_failure_reason reason b) \<le> 64 + length b"
  by (cases reason) (simp_all add: provenance_failure_reason_def)

lemma corruption_reason_bound:
  "corruption_reason h k \<noteq> [] \<and>
   length (corruption_reason h k) = 56 + length (content_hash_to_string h) + length (content_hash_to_string k)"
  by (simp add: corruption_reason_def)

lemma released_event_ok:
  assumes "release r z p a = (Inr e, a')" and "is_ok (validate_justification justification)"
  shows "if r = Curator
    then \<not> event_ok (EArtifactReleased e) \<and> event_ok (EArtifactReleased (attribute_waive user_id justification e))
    else event_ok (EArtifactReleased e)"
  using assms
  by (cases r) (auto simp: release_ok event_ok_def event_validate_defs attribute_waive_def validate_justification_def
      release_authorized.simps split: if_splits)

text \<open>
  C31. Every event a command emits passes the validation that guards the append, when the texts handed
  to the command fit its limits; the texts the aggregate writes itself, the corruption and the
  provenance-failure reasons, always do. The one event that does not pass as emitted is that of a
  curator's release: it passes once the use case has added, as it does, the curator and a justification
  it has checked.
\<close>

theorem emitted_events_validate:
  assumes "run_command c a = (Inr es, a')" and "valid_inputs c a" and "is_ok (validate_justification justification)"
  shows "\<forall>e\<in>set es. case e of
      EArtifactReleased r \<Rightarrow>
        (if rel_released_by r = Curator
         then \<not> event_ok e \<and> event_ok (EArtifactReleased (attribute_waive user_id justification r))
         else event_ok e)
    | _ \<Rightarrow> event_ok e"
proof (cases c)
  case (CCompleteProvenance v b)
  then show ?thesis
    using complete_provenance_ok [of v b a es a'] assms
      order_trans [OF provenance_failure_reason_bound [THEN conjunct2]] provenance_failure_reason_bound
    by (auto simp: event_ok_def event_validate_defs)
next
  case (CTombstoneFromCorruption h t)
  then show ?thesis
    using assms corruption_reason_bound [of h "art_sha256_checksum a"]
    by (auto simp: tombstone_from_corruption_ok event_ok_def event_validate_defs)
next
  case (CRelease r z p)
  then obtain e where e: "release r z p a = (Inr e, a')" "es = [EArtifactReleased e]"
    using assms(1) by (auto simp: emit_cases)
  then have "rel_released_by e = r" by (auto simp: release_ok)
  then show ?thesis using released_event_ok [OF e(1) assms(3)] e(2) by simp
next
  case (CCascadeProvenanceClearance h sg pt b)
  then show ?thesis
    using assms
    by (auto simp: emit_cases cascade_provenance_clearance_def event_ok_def event_validate_defs split: if_splits)
qed (use assms in \<open>auto simp: emit_cases transition_ok event_ok_def event_validate_defs split: if_splits\<close>)

theorem emitted_events_validate_witness:
  "event_ok (EArtifactRejected \<lparr>rej_artifact_id = 1, rej_rejected_by = RejCurator 3, rej_reason = ''licence''\<rparr>)"
  using emitted_events_validate [of "CBlockByCurator 3 ''licence''" "sample_artifact Quarantined None"
      "[EArtifactRejected \<lparr>rej_artifact_id = 1, rej_rejected_by = RejCurator 3, rej_reason = ''licence''\<rparr>]" _ "''ok''"]
  by (simp add: emit_def transition_defs allowed_none sample_artifact_def validate_justification_def)

end
