(* ===== verification/Policy_Decisions.thy ===== *)
theory Policy_Decisions
  imports Artifact_Aggregate
begin

text \<open>
  The two policy decisions taken about an artifact as a whole: re-evaluating a rejection
  (\<^verbatim>\<open>policy/re_evaluation.rs\<close>) and promoting to another repository
  (\<^verbatim>\<open>policy/promotion.rs\<close>).
\<close>

section \<open>Re-evaluation of a rejected artifact\<close>

datatype re_evaluation_outcome = StillRejected | ResetToQuarantined | ResetToReleased

definition coords_of_artifact :: "artifact \<Rightarrow> artifact_coords" where
  "coords_of_artifact a =
     \<lparr>co_name = art_name a, co_name_as_published = art_name_as_published a,
      co_version = art_version a, co_path = art_path a, co_format = Other [],
      co_metadata = JNull\<rparr>"

definition decide_rejected_transition ::
    "artifact \<Rightarrow> artifact_kind \<Rightarrow> severity_summary \<Rightarrow> finding list option
     \<Rightarrow> scan_policy_projection option \<Rightarrow> exclusion_projection list \<Rightarrow> composite_verdict_mode
     \<Rightarrow> timestamp option \<Rightarrow> timestamp \<Rightarrow> re_evaluation_outcome" where
  "decide_rejected_transition a kind last_scan_summary last_findings policy updated_exclusions
     composite_verdict quarantine_deadline now =
     (let verdict_summary =
            (case last_findings of
               Some findings \<Rightarrow>
                 let filtered = filter_excluded_findings findings updated_exclusions (coords_of_artifact a) now;
                     condemning = filter (\<lambda>f. may_condemn_artifact f kind composite_verdict)
                                    (ff_remaining_findings filtered)
                 in severity_summary_from_findings condemning
             | None \<Rightarrow> last_scan_summary)
      in case evaluate_scan_summary verdict_summary policy of
           RejectScan _ \<Rightarrow> StillRejected
         | _ \<Rightarrow>
             (case quarantine_deadline of
                Some deadline \<Rightarrow> (if deadline > now then ResetToQuarantined else ResetToReleased)
              | None \<Rightarrow> ResetToReleased))"

section \<open>Promotion\<close>

datatype promotion_outcome =
    PromoteAllow
  | PromoteWarn "policy_violation list"
  | RequireApproval "policy_violation list"
  | PromoteReject "policy_violation list"

text \<open>The target repository is an argument of the source that its body discards.\<close>

definition evaluate_promotion ::
    "artifact \<Rightarrow> scan_policy_projection option \<Rightarrow> severity_summary option
     \<Rightarrow> exclusion_projection list \<Rightarrow> timestamp \<Rightarrow> promotion_outcome" where
  "evaluate_promotion a policy last_scan_summary exclusions now =
     (let summary = (case last_scan_summary of
                       Some s \<Rightarrow> s
                     | None \<Rightarrow> \<lparr>s_critical = 0, s_high = 0, s_medium = 0, s_low = 0, s_negligible = 0\<rparr>);
          filtered = filter_excluded_summary summary exclusions (coords_of_artifact a) now;
          threshold = policy_or pol_severity_threshold block_on_critical policy;
          accumulator = collect_with_severity_escalation accumulator_new
                          (evaluate_cve_thresholds (fs_remaining filtered) threshold);
          (action, violations) = into_outcome accumulator;
          require_approval = policy_or pol_require_approval False policy
      in case action of
           ActBlock \<Rightarrow> PromoteReject violations
         | ActWarn \<Rightarrow> PromoteWarn violations
         | ActAllow \<Rightarrow> if require_approval then RequireApproval violations else PromoteAllow)"

section \<open>Lemmas\<close>

lemma decide_still_rejected:
  "decide_rejected_transition a kind s fs policy exs mode deadline now = StillRejected \<longleftrightarrow>
     (\<exists>vs. evaluate_scan_summary
        (case fs of
           Some findings \<Rightarrow> severity_summary_from_findings
             (filter (\<lambda>f. may_condemn_artifact f kind mode)
               (ff_remaining_findings (filter_excluded_findings findings exs (coords_of_artifact a) now)))
         | None \<Rightarrow> s) policy = RejectScan vs)"
  by (auto simp: decide_rejected_transition_def Let_def split: scan_outcome.split option.split)

text \<open>Only the package name of the coordinates enters the exclusion filter.\<close>

lemma suppresses_name:
  "co_name c = co_name d \<Longrightarrow> suppresses c now ex f = suppresses d now ex f"
  by (simp add: suppresses_def matches_coords_def split: option.split)

definition promotion_summary ::
    "artifact \<Rightarrow> severity_summary option \<Rightarrow> exclusion_projection list \<Rightarrow> timestamp \<Rightarrow> severity_summary" where
  "promotion_summary a summary exs now =
     fs_remaining (filter_excluded_summary (unwrap_or summary empty_summary) exs (coords_of_artifact a) now)"

lemma promotion_outcomes:
  fixes a policy summary exs now
  defines "acc \<equiv> collect_with_severity_escalation accumulator_new
      (evaluate_cve_thresholds (promotion_summary a summary exs now)
        (policy_or pol_severity_threshold block_on_critical policy))"
  shows "evaluate_promotion a policy summary exs now =
    (case acc_action acc of
       ActBlock \<Rightarrow> PromoteReject (acc_violations acc)
     | ActWarn \<Rightarrow> PromoteWarn (acc_violations acc)
     | ActAllow \<Rightarrow> if policy_or pol_require_approval False policy
                   then RequireApproval (acc_violations acc) else PromoteAllow)"
  unfolding acc_def evaluate_promotion_def promotion_summary_def Let_def into_outcome_def
    unwrap_or_def empty_summary_def
  by (cases summary) (simp_all split: policy_action.split)

lemma promotion_reject_iff:
  "(\<exists>vs. evaluate_promotion a policy summary exs now = PromoteReject vs) \<longleftrightarrow>
     (\<exists>t. 0 < tier_count (promotion_summary a summary exs now) t \<and>
          blocking_severity (policy_or pol_severity_threshold block_on_critical policy) t)"
  unfolding promotion_outcomes cve_lane_blocks [symmetric]
  by (auto split: policy_action.split)

section \<open>Properties\<close>

text \<open>
  C26. Re-evaluation and the scan gate agree. Take a rejected artifact and the findings of its last
  scan, and let the scan gate be given the same findings, kind, policy and exclusions and the same package
  name. Re-evaluated under the policy's own composite-verdict mode, as a curator does, the artifact stays
  rejected exactly when the gate would reject it now; under any mode, exactly when the gate would under the
  policy with that mode; and under \<open>Observed\<close>, which the automatic loosening pass pins, whenever
  the gate would reject it, so that pass never releases what a fresh scan would reject (for
  fewer than 2 ^ 32 findings, where the counters do not wrap).
\<close>

theorem re_evaluation_agrees_with_scan_gate:
  fixes a coords kind summary findings policy exclusions deadline now uni
  assumes "co_name coords = art_name a"
  defines "stays \<equiv> \<lambda>mode. decide_rejected_transition a kind summary (Some findings) policy exclusions mode deadline now = StillRejected"
    and "rejects \<equiv> \<lambda>pol. \<exists>vs. evaluate_scan_result uni coords kind findings pol exclusions now = RejectScan vs"
  shows "(stays (composite_verdict_mode_of policy) \<longleftrightarrow> rejects policy) \<and>
    (\<forall>p mode. policy = Some p \<longrightarrow> (stays mode \<longleftrightarrow> rejects (Some (p\<lparr>pol_composite_verdict_mode := mode\<rparr>)))) \<and>
    (length findings < 2 ^ 32 \<longrightarrow> rejects policy \<longrightarrow> stays Observed)"
proof -
  let ?left = "\<lambda>mode. filter (\<lambda>f. may_condemn_artifact f kind mode) (ff_remaining_findings (filter_excluded_findings findings exclusions coords now))"
  have "suppresses (coords_of_artifact a) now ex f = suppresses coords now ex f" for ex f
    by (rule suppresses_name) (simp add: coords_of_artifact_def assms(1))
  then have same: "ff_remaining_findings (filter_excluded_findings findings exclusions (coords_of_artifact a) now) =
      ff_remaining_findings (filter_excluded_findings findings exclusions coords now)"
    by (simp add: filtered_remaining)
  have stays: "stays mode \<longleftrightarrow> gate_blocked (severity_summary_from_findings (?left mode)) policy \<and>
      policy_or pol_enforcement default_enforcement policy = EnforceReject" for mode
    by (simp add: stays_def decide_still_rejected same scan_summary_outcome)
  have rejects: "rejects pol \<longleftrightarrow> gate_blocked (severity_summary_from_findings (?left (composite_verdict_mode_of pol))) pol \<and>
      policy_or pol_enforcement default_enforcement pol = EnforceReject" for pol
    by (simp add: rejects_def scan_result_outcome(2) condemning_filter)
  have "stays mode \<longleftrightarrow> rejects (Some (p\<lparr>pol_composite_verdict_mode := mode\<rparr>))" if "policy = Some p" for p mode
    using that by (simp add: stays rejects composite_verdict_mode_of_def policy_or_def gate_blocked_def)
  moreover have "stays Observed" if small: "length findings < 2 ^ 32" and "rejects policy"
  proof -
    have "length (?left mode) \<le> length findings" for mode
      unfolding filtered_remaining by (rule order_trans [OF length_filter_le length_filter_le])
    moreover have "length findings < 4294967296" using small by simp
    ultimately have len: "length (?left mode) < 4294967296" for mode
      using order_le_less_trans by blast
    have "set (?left mode) \<subseteq> set (?left Observed)" for mode
      by (auto simp: may_condemn_artifact_def Let_def split: finding_statement.splits if_splits)
    then show ?thesis
      using that(2) unfolding stays rejects gate_blocked_findings [OF len] by blast
  qed
  ultimately show ?thesis using stays rejects by blast
qed

theorem re_evaluation_agrees_with_scan_gate_witness:
  "decide_rejected_transition (sample_artifact Rejected (Some Scanner)) OtherKind empty_summary
     (Some [sample_finding High]) (Some sample_policy) [] Observed None 0 = StillRejected \<longleftrightarrow>
   (\<exists>vs. evaluate_scan_result id (coords_of_artifact (sample_artifact Rejected (Some Scanner))) OtherKind
     [sample_finding High] (Some sample_policy) [] 0 = RejectScan vs)"
proof -
  have "composite_verdict_mode_of (Some sample_policy) = Observed"
    by (simp add: composite_verdict_mode_of_def policy_or_def sample_policy_def)
  then show ?thesis
    using re_evaluation_agrees_with_scan_gate [THEN conjunct1, of "coords_of_artifact (sample_artifact Rejected (Some Scanner))"
        "sample_artifact Rejected (Some Scanner)" OtherKind empty_summary "[sample_finding High]" "Some sample_policy" "[]" None 0 id]
    by (simp add: coords_of_artifact_def)
qed

end
