(* ===== verification/Artifact_Stream.thy ===== *)
theory Artifact_Stream
  imports Artifact_Lifecycle Policy_Decisions
begin

text \<open>
  What the use cases read back from an artifact's event stream
  (\<^verbatim>\<open>hort-app/src/use_cases/scan_history.rs\<close>, \<^verbatim>\<open>release_clearance.rs\<close>,
  \<^verbatim>\<open>rejected_reevaluation.rs\<close>, \<^verbatim>\<open>provenance_misrejection_repair.rs\<close>), and the pair of an
  artifact and its stream as a transition system: the status is a projection, the stream is the
  record. A stream is the list of its events, oldest first; the envelope of a persisted event is
  not read by these functions.
\<close>

section \<open>Reading a stream\<close>

text \<open>\<^verbatim>\<open>Iterator::find_map\<close>.\<close>

fun find_map :: "('a \<Rightarrow> 'b option) \<Rightarrow> 'a list \<Rightarrow> 'b option" where
  "find_map f [] = None"
| "find_map f (x # xs) = (case f x of None \<Rightarrow> find_map f xs | Some y \<Rightarrow> Some y)"

record scan_completed_snapshot =
  snap_summary :: severity_summary
  snap_findings_blob :: "content_hash option"

definition last_scan_completed :: "domain_event list \<Rightarrow> scan_completed_snapshot option" where
  "last_scan_completed stream =
     find_map (\<lambda>e. case e of
         EScanCompleted sc \<Rightarrow>
           Some \<lparr>snap_summary = sc_severity_summary sc, snap_findings_blob = sc_findings_blob sc\<rparr>
       | _ \<Rightarrow> None) (rev stream)"

definition last_rejection_reason :: "domain_event list \<Rightarrow> rejection_reason option" where
  "last_rejection_reason stream =
     find_map (\<lambda>e. case e of EArtifactRejected r \<Rightarrow> Some (rej_rejected_by r) | _ \<Rightarrow> None) (rev stream)"

definition latest_release_origin :: "domain_event list \<Rightarrow> release_origin" where
  "latest_release_origin stream =
     unwrap_or
       (find_map (\<lambda>e. case e of EArtifactReleased r \<Rightarrow> Some (ReleasedBy (rel_released_by r)) | _ \<Rightarrow> None)
         (rev stream))
       NeverReleased"

datatype scan_standing = Unobserved | Superseded | Clears bool | Holds

definition observation_stands :: "scan_standing \<Rightarrow> bool" where
  "observation_stands s = (case s of Clears _ \<Rightarrow> True | Holds \<Rightarrow> True | _ \<Rightarrow> False)"

record latest_scan =
  ls_clean_count :: bool
  ls_verdict :: "policy_result option"
  ls_rejected_after :: bool

definition standing_step :: "latest_scan option \<Rightarrow> domain_event \<Rightarrow> latest_scan option" where
  "standing_step latest event =
     (case event of
        EScanCompleted sc \<Rightarrow>
          Some \<lparr>ls_clean_count = (sc_finding_count sc = 0), ls_verdict = None, ls_rejected_after = False\<rparr>
      | EPolicyEvaluated p \<Rightarrow>
          map_option (\<lambda>scan. if ls_verdict scan = None then scan\<lparr>ls_verdict := Some (pe_result p)\<rparr> else scan)
            latest
      | EArtifactRejected _ \<Rightarrow> map_option (\<lambda>scan. scan\<lparr>ls_rejected_after := True\<rparr>) latest
      | _ \<Rightarrow> latest)"

definition latest_scan_standing :: "domain_event list \<Rightarrow> scan_standing" where
  "latest_scan_standing events =
     (case foldl standing_step None events of
        None \<Rightarrow> Unobserved
      | Some scan \<Rightarrow>
          if ls_rejected_after scan then Superseded
          else (case ls_verdict scan of
                  Some Pass \<Rightarrow> Clears (\<not> ls_clean_count scan)
                | Some Fail \<Rightarrow> Holds
                | None \<Rightarrow> if ls_clean_count scan then Clears False else Holds))"

definition provenance_clearance_from :: "domain_event list \<Rightarrow> provenance_mode \<Rightarrow> provenance_clearance" where
  "provenance_clearance_from stream mode =
     (case mode of
        ProvOff \<Rightarrow> ProvNotRequired
      | VerifyIfPresent \<Rightarrow> ProvNotRequired
      | Required \<Rightarrow>
          if list_ex (\<lambda>e. case e of EProvenanceVerified _ \<Rightarrow> True | _ \<Rightarrow> False) stream
          then ProvCleared else ProvPending)"

text \<open>
  \<^verbatim>\<open>resolve_curation_clearance\<close> after its two reads: the repository's rules, and its format when
  the lookup returned one.
\<close>

definition resolve_curation_clearance ::
    "curation_rule list \<Rightarrow> repository_format option \<Rightarrow> artifact \<Rightarrow> curation_clearance" where
  "resolve_curation_clearance rules fmt a =
     (if rules = [] then CurationCleared
      else
        let coords = (coords_of_artifact a)\<lparr>co_format := unwrap_or fmt Generic\<rparr> in
        case evaluate_curation coords rules of
          CurationBlock _ _ _ \<Rightarrow> CurationBlocked
        | CurationWarn _ _ \<Rightarrow> CurationCleared
        | CurationAllow \<Rightarrow> CurationCleared)"

fun scan_rejections :: "bool \<Rightarrow> domain_event list \<Rightarrow> provenance_rejection_evidence" where
  "scan_rejections unsigned_seen [] = (if unsigned_seen then NeverTerminal else NoVerdict)"
| "scan_rejections unsigned_seen (EProvenanceRejected r # rest) =
     (if prj_reason r = Unsigned then scan_rejections True rest else Disproved (prj_reason r))"
| "scan_rejections unsigned_seen (_ # rest) = scan_rejections unsigned_seen rest"

definition provenance_rejection_evidence :: "domain_event list \<Rightarrow> provenance_rejection_evidence" where
  "provenance_rejection_evidence stream =
     (if provenance_clearance_from stream Required = ProvCleared then Contradicted
      else scan_rejections False stream)"

section \<open>Re-judging a rejection from its stream\<close>

datatype findings_evidence = Resolved "finding list" | FindingsAbsent | Unreadable severity_summary

text \<open>
  \<^verbatim>\<open>last_findings\<close>: the blob read is the storage port's, \<open>read_blob\<close>, which returns the decoded
  findings or nothing when the blob is missing, unreadable or malformed.
\<close>

definition last_findings ::
    "(content_hash \<Rightarrow> finding list option) \<Rightarrow> domain_event list \<Rightarrow> findings_evidence" where
  "last_findings read_blob stream =
     (case last_scan_completed stream of
        None \<Rightarrow> FindingsAbsent
      | Some snapshot \<Rightarrow>
          (case snap_findings_blob snapshot of
             None \<Rightarrow> FindingsAbsent
           | Some blob \<Rightarrow>
               (case read_blob blob of
                  None \<Rightarrow> Unreadable (snap_summary snapshot)
                | Some findings \<Rightarrow> Resolved findings)))"

datatype rejected_derivation =
    Ineligible "rejection_reason option"
  | NoScanCompleted
  | Determined re_evaluation_outcome "timestamp option" "rejection_reason option" provenance_clearance

definition derive_rejected_outcome ::
    "(content_hash \<Rightarrow> finding list option) \<Rightarrow> artifact \<Rightarrow> domain_event list
     \<Rightarrow> scan_policy_projection option \<Rightarrow> exclusion_projection list \<Rightarrow> artifact_kind
     \<Rightarrow> composite_verdict_mode \<Rightarrow> timestamp \<Rightarrow> rejected_derivation" where
  "derive_rejected_outcome read_blob a stream policy exclusions kind composite_verdict now =
     (let reason = last_rejection_reason stream in
      if \<not> is_scan_clearable reason then Ineligible reason
      else case last_scan_completed stream of
        None \<Rightarrow> NoScanCompleted
      | Some last_snapshot \<Rightarrow>
          let findings = (case last_findings read_blob stream of
                            Resolved fs \<Rightarrow> Some fs | FindingsAbsent \<Rightarrow> None | Unreadable _ \<Rightarrow> None);
              quarantine_deadline =
                Option.bind policy (\<lambda>p. map_option (\<lambda>anchor.
                  effective_quarantine_deadline anchor (pol_quarantine_duration_secs p * nanos_per_sec))
                  (art_quarantine_window_start a));
              outcome = decide_rejected_transition a kind (snap_summary last_snapshot) findings policy
                          exclusions composite_verdict quarantine_deadline now
          in Determined outcome quarantine_deadline reason
               (provenance_clearance_from stream (policy_or pol_provenance_mode VerifyIfPresent policy)))"

section \<open>An artifact together with its stream\<close>

text \<open>
  The repair use case on one artifact. A failed domain call drops the loaded artifact, so the
  stored pair is what it was.
\<close>

definition repair_one ::
    "bool \<Rightarrow> timestamp \<Rightarrow> artifact \<Rightarrow> domain_event list
     \<Rightarrow> (artifact_msg domain_error + bool) \<times> artifact \<times> domain_event list" where
  "repair_one dry_run now a stream =
     (if art_quarantine_status a \<noteq> Rejected then (Inr False, a, stream)
      else
        let terminal_record = terminal_record_from_events stream in
        if terminal_record \<noteq> Absent then (Inr False, a, stream)
        else
          let provenance = provenance_rejection_evidence stream in
          if \<not> disproves_terminality provenance then (Inr False, a, stream)
          else
            let (res, a') = repair_provenance_misrejection terminal_record provenance now a in
            if dry_run then (map_sum id (\<lambda>_. True) res, a, stream)
            else case res of
              Inl e \<Rightarrow> (Inl e, a, stream)
            | Inr quarantined \<Rightarrow>
                (Inr True, a',
                 stream @ [EArtifactReEvaluated
                             \<lparr>ree_artifact_id = art_id a, ree_policy_id = 0,
                              ree_trigger = ProvenanceMisrejectionRepair,
                              ree_previous_status = art_quarantine_status a,
                              ree_new_status = art_quarantine_status a'\<rparr>,
                           EArtifactQuarantined quarantined]))"

text \<open>
  Loading: the row carries no rejection reason, so the callers that need it read it back from the
  stream when the artifact is rejected.
\<close>

definition rehydrate :: "artifact \<Rightarrow> domain_event list \<Rightarrow> artifact" where
  "rehydrate a stream =
     a\<lparr>art_rejection_reason :=
         (if art_quarantine_status a = Rejected then last_rejection_reason stream else None)\<rparr>"

definition is_repair :: "command \<Rightarrow> bool" where
  "is_repair c = (case c of CRepairProvenanceMisrejection _ _ _ \<Rightarrow> True | _ \<Rightarrow> False)"

text \<open>An event that a use case records without running a transition.\<close>

definition is_observation :: "domain_event \<Rightarrow> bool" where
  "is_observation e = (case e of EArtifactRejected _ \<Rightarrow> False | EArtifactReleased _ \<Rightarrow> False | _ \<Rightarrow> True)"

text \<open>
  One step of the pair: a transition with its events appended, an observation, a repair attempt, and the
  two ways of loading, the bare row, which carries no reason, and the row with the reason read back.
\<close>

inductive stream_step :: "artifact \<Rightarrow> domain_event list \<Rightarrow> artifact \<Rightarrow> domain_event list \<Rightarrow> bool" where
  step_transition: "\<not> is_repair c \<Longrightarrow> run_command c a = (Inr es, a') \<Longrightarrow> stream_step a s a' (s @ es)"
| step_observation: "is_observation e \<Longrightarrow> stream_step a s a (s @ [e])"
| step_repair: "repair_one dry now a s = (res, a', s') \<Longrightarrow> stream_step a s a' s'"
| step_load: "stream_step a s (a\<lparr>art_rejection_reason := None\<rparr>) s"
| step_reload: "stream_step a s (rehydrate a s) s"

inductive continues :: "artifact \<Rightarrow> domain_event list \<Rightarrow> artifact \<Rightarrow> domain_event list \<Rightarrow> bool" for a0 s0 where
  continues_start: "continues a0 s0 a0 s0"
| continues_step: "continues a0 s0 a s \<Longrightarrow> stream_step a s a' s' \<Longrightarrow> continues a0 s0 a' s'"

inductive history :: "artifact \<Rightarrow> domain_event list \<Rightarrow> bool" where
  history_ingested:
    "art_quarantine_status a = QNone \<Longrightarrow> art_rejection_reason a = None \<Longrightarrow> \<forall>e\<in>set s. is_observation e \<Longrightarrow>
     history a s"
| history_step: "history a s \<Longrightarrow> stream_step a s a' s' \<Longrightarrow> history a' s'"

lemma history_transition:
  "history a s \<Longrightarrow> \<not> is_repair c \<Longrightarrow> run_command c a = (Inr es, a') \<Longrightarrow> history a' (s @ es)"
  by (blast intro: history_step step_transition)

section \<open>Lemmas on streams\<close>

lemma find_map_append:
  "find_map f (xs @ ys) = (case find_map f xs of None \<Rightarrow> find_map f ys | Some y \<Rightarrow> Some y)"
  by (induction xs) (auto split: option.split)

lemma find_map_None: "find_map f xs = None \<longleftrightarrow> (\<forall>x\<in>set xs. f x = None)"
  by (induction xs) (auto split: option.split)

lemma last_rejection_reason_append:
  "last_rejection_reason (s @ [e]) =
     (case e of EArtifactRejected r \<Rightarrow> Some (rej_rejected_by r) | _ \<Rightarrow> last_rejection_reason s)"
  by (cases e) (simp_all add: last_rejection_reason_def)

lemma latest_release_origin_append:
  "latest_release_origin (s @ [e]) =
     (case e of EArtifactReleased r \<Rightarrow> ReleasedBy (rel_released_by r) | _ \<Rightarrow> latest_release_origin s)"
  by (cases e) (simp_all add: latest_release_origin_def unwrap_or_def)

lemma last_rejection_reason_append2:
  "last_rejection_reason (s @ [d, e]) =
     (case e of EArtifactRejected r \<Rightarrow> Some (rej_rejected_by r) | _ \<Rightarrow> last_rejection_reason (s @ [d]))"
  using last_rejection_reason_append [of "s @ [d]" e] by simp

lemma latest_release_origin_append2:
  "latest_release_origin (s @ [d, e]) =
     (case e of EArtifactReleased r \<Rightarrow> ReleasedBy (rel_released_by r) | _ \<Rightarrow> latest_release_origin (s @ [d]))"
  using latest_release_origin_append [of "s @ [d]" e] by simp

lemma last_rejection_recorded:
  "last_rejection_reason s = None \<longleftrightarrow> \<not> has_terminal_rejection_event s"
  unfolding last_rejection_reason_def has_terminal_rejection_event_def find_map_None list_ex_iff
  by (auto split: domain_event.splits)

lemma terminal_record_present:
  "terminal_record_from_events s = Present \<longleftrightarrow> last_rejection_reason s \<noteq> None"
  by (simp add: terminal_record_from_events_def last_rejection_recorded)

lemmas last_event_simps = last_rejection_reason_append latest_release_origin_append
  last_rejection_reason_append2 latest_release_origin_append2

text \<open>What the two reverse scans find after the events of a successful transition.\<close>

definition recorded :: "artifact \<Rightarrow> domain_event list \<Rightarrow> bool" where
  "recorded a s \<longleftrightarrow>
     (art_quarantine_status a = Rejected \<longrightarrow> last_rejection_reason s \<noteq> None) \<and>
     (\<forall>r. art_rejection_reason a = Some r \<longrightarrow>
        art_quarantine_status a = Rejected \<and> last_rejection_reason s = Some r) \<and>
     (art_quarantine_status a = Released \<longrightarrow> (\<exists>r. latest_release_origin s = ReleasedBy r))"

lemma recorded_transition:
  assumes inv: "recorded a s" and run: "run_command c a = (Inr es, a')"
  shows "recorded a' (s @ es)"
proof (cases c)
  case (CCompleteProvenance v b)
  with run have "complete_provenance v b a = (Inr es, a')" by simp
  from complete_provenance_ok [OF this] inv show ?thesis
    by (auto simp: recorded_def last_event_simps)
next
  case (CTombstoneFromCorruption h t)
  with run inv show ?thesis
    by (auto simp: tombstone_from_corruption_ok recorded_def last_event_simps)
next
  case (CReEvaluate t p cur)
  with run inv show ?thesis
    by (auto simp: emit_cases re_evaluate_ok recorded_def last_event_simps split: if_splits)
next
  case (CCascadeProvenanceClearance h sg pt b)
  with run inv show ?thesis by (auto simp: emit_cases recorded_def last_event_simps)
qed (use run inv in \<open>auto simp: emit_cases transition_ok recorded_def last_event_simps
      split: if_splits option.splits\<close>)

lemma recorded_repair:
  assumes "recorded a s"
  shows "repair_one dry now a s = (Inr False, a, s)"
proof (cases "art_quarantine_status a = Rejected")
  case True
  with assms have "terminal_record_from_events s = Present"
    by (simp add: recorded_def terminal_record_present)
  with True show ?thesis by (simp add: repair_one_def)
next
  case False
  then show ?thesis by (simp add: repair_one_def)
qed

lemma recorded_step:
  assumes "stream_step a s a' s'" and "recorded a s"
  shows "recorded a' s'"
  using assms
proof cases
  case (step_transition c es)
  then show ?thesis using assms(2) by (auto intro: recorded_transition)
next
  case (step_observation e)
  then show ?thesis using assms(2) by (cases e) (auto simp: recorded_def last_event_simps is_observation_def)
next
  case (step_repair dry now res)
  then show ?thesis using recorded_repair [OF assms(2), of dry now] assms(2) by simp
next
  case step_load
  then show ?thesis using assms(2) by (auto simp: recorded_def)
next
  case step_reload
  then show ?thesis using assms(2) by (auto simp: recorded_def rehydrate_def)
qed

lemma history_recorded: "history a s \<Longrightarrow> recorded a s"
proof (induction rule: history.induct)
  case (history_ingested a s)
  then show ?case by (simp add: recorded_def)
qed (rule recorded_step)

lemma find_map_rev_Some:
  "find_map f (rev s) = Some y \<longleftrightarrow>
     (\<exists>pre x post. s = pre @ x # post \<and> f x = Some y \<and> (\<forall>z\<in>set post. f z = None))"
proof (induction s rule: rev_induct)
  case (snoc e s)
  show ?case
  proof (cases "f e")
    case None
    have "(\<exists>pre x post. s @ [e] = pre @ x # post \<and> f x = Some y \<and> (\<forall>z\<in>set post. f z = None)) \<longleftrightarrow>
        (\<exists>pre x post. s = pre @ x # post \<and> f x = Some y \<and> (\<forall>z\<in>set post. f z = None))"
    proof (intro iffI; elim exE conjE)
      fix pre x post
      assume a: "s @ [e] = pre @ x # post" "f x = Some y" "\<forall>z\<in>set post. f z = None"
      then show "\<exists>pre x post. s = pre @ x # post \<and> f x = Some y \<and> (\<forall>z\<in>set post. f z = None)"
        using None by (cases post rule: rev_cases) auto
    next
      fix pre x post
      assume "s = pre @ x # post" "f x = Some y" "\<forall>z\<in>set post. f z = None"
      then show "\<exists>pre x post. s @ [e] = pre @ x # post \<and> f x = Some y \<and> (\<forall>z\<in>set post. f z = None)"
        using None by (intro exI [of _ pre] exI [of _ x] exI [of _ "post @ [e]"]) simp
    qed
    with None snoc.IH show ?thesis by simp
  next
    case (Some w)
    have "(\<exists>pre x post. s @ [e] = pre @ x # post \<and> f x = Some y \<and> (\<forall>z\<in>set post. f z = None)) \<longleftrightarrow> w = y"
    proof (intro iffI; (elim exE conjE)?)
      fix pre x post
      assume "s @ [e] = pre @ x # post" "f x = Some y" "\<forall>z\<in>set post. f z = None"
      then show "w = y" using Some by (cases post rule: rev_cases) auto
    next
      assume "w = y"
      then show "\<exists>pre x post. s @ [e] = pre @ x # post \<and> f x = Some y \<and> (\<forall>z\<in>set post. f z = None)"
        using Some by (intro exI [of _ s] exI [of _ e] exI [of _ "[]"]) simp
    qed
    with Some show ?thesis by simp
  qed
qed simp

text \<open>The scan standing, read off the part of the stream after the last completed scan.\<close>

definition is_scan_completed :: "domain_event \<Rightarrow> bool" where
  "is_scan_completed e = (case e of EScanCompleted _ \<Rightarrow> True | _ \<Rightarrow> False)"

definition verdict_event :: "domain_event \<Rightarrow> policy_result option" where
  "verdict_event e = (case e of EPolicyEvaluated p \<Rightarrow> Some (pe_result p) | _ \<Rightarrow> None)"

lemma standing_step_Some:
  "\<not> is_scan_completed e \<Longrightarrow> standing_step (Some scan) e =
     Some \<lparr>ls_clean_count = ls_clean_count scan,
           ls_verdict = (case ls_verdict scan of Some v \<Rightarrow> Some v | None \<Rightarrow> verdict_event e),
           ls_rejected_after = (ls_rejected_after scan \<or> has_terminal_rejection_event [e])\<rparr>"
  by (cases e; cases scan)
    (auto simp: standing_step_def is_scan_completed_def verdict_event_def
      has_terminal_rejection_event_def split: option.split)

lemma standing_fold:
  "\<forall>e\<in>set post. \<not> is_scan_completed e \<Longrightarrow>
   foldl standing_step (Some scan) post =
     Some \<lparr>ls_clean_count = ls_clean_count scan,
           ls_verdict = (case ls_verdict scan of Some v \<Rightarrow> Some v | None \<Rightarrow> find_map verdict_event post),
           ls_rejected_after = (ls_rejected_after scan \<or> has_terminal_rejection_event post)\<rparr>"
proof (induction post arbitrary: scan)
  case Nil
  show ?case by (cases scan) (simp add: has_terminal_rejection_event_def split: option.split)
next
  case (Cons e post)
  have "has_terminal_rejection_event (e # post) \<longleftrightarrow>
      has_terminal_rejection_event [e] \<or> has_terminal_rejection_event post"
    by (simp add: has_terminal_rejection_event_def)
  with Cons show ?case by (auto simp: standing_step_Some split: option.split)
qed

lemma standing_none:
  "\<forall>e\<in>set s. \<not> is_scan_completed e \<Longrightarrow> foldl standing_step None s = None"
proof (induction s)
  case (Cons e s)
  moreover have "standing_step None e = None"
    using Cons.prems by (cases e) (simp_all add: standing_step_def is_scan_completed_def)
  ultimately show ?case by simp
qed simp

section \<open>Properties\<close>

text \<open>
  C6. The stream is the record. On every history the code can produce, starting from a freshly
  ingested artifact and running transitions, recording observations, attempting repairs and
  loading the row with or without its reason in any order, a rejected artifact has a rejection on its stream, the reason it
  carries is the reason of the last rejection recorded there, and a released artifact has a
  release on its stream.
\<close>

theorem status_is_recorded:
  assumes "history a s"
  shows "(art_quarantine_status a = Rejected \<longrightarrow> last_rejection_reason s \<noteq> None) \<and>
    (\<forall>r. art_rejection_reason a = Some r \<longrightarrow>
       art_quarantine_status a = Rejected \<and> last_rejection_reason s = Some r) \<and>
    (art_quarantine_status a = Released \<longrightarrow> latest_release_origin s \<noteq> NeverReleased)"
  using history_recorded [OF assms] by (auto simp: recorded_def)

theorem status_is_recorded_witness:
  "last_rejection_reason
     [EArtifactRejected \<lparr>rej_artifact_id = 1, rej_rejected_by = RejCurator 3, rej_reason = ''x''\<rparr>] \<noteq> None"
proof -
  have "history (sample_artifact QNone None) []"
    by (rule history_ingested) (simp_all add: sample_artifact_def)
  then have "history (sample_artifact Rejected (Some (RejCurator 3)))
      ([] @ [EArtifactRejected \<lparr>rej_artifact_id = 1, rej_rejected_by = RejCurator 3, rej_reason = ''x''\<rparr>])"
    by (rule history_transition [where c = "CBlockByCurator 3 ''x''"])
      (simp_all add: is_repair_def emit_def block_by_curator_def allowed_none sample_artifact_def)
  from status_is_recorded [OF this] show ?thesis by (simp add: sample_artifact_def)
qed

text \<open>
  The misrejection repair never fires on a history the code can produce: it reports that the
  artifact is not affected and changes neither the artifact nor the stream. It acts only on
  histories written before the provenance rejection recorded its companion event.
\<close>

theorem repair_is_inert:
  assumes "history a s"
  shows "repair_one dry_run now a s = (Inr False, a, s)"
  by (rule recorded_repair) (rule history_recorded [OF assms])

theorem repair_is_inert_witness:
  "repair_one False 9 (sample_artifact QNone None) [] = (Inr False, sample_artifact QNone None, [])"
  by (rule repair_is_inert) (rule history_ingested, simp_all add: sample_artifact_def)

text \<open>
  C30. A scan verdict re-blocks a released artifact exactly when the last release on its stream
  was the timer's or a policy re-evaluation's. A release by a curator or an administrator is never
  undone by a scan, and a released artifact without a release on its stream does not occur.
\<close>

theorem scan_reblock_respects_release:
  assumes "history a s" and "art_quarantine_status a = Released"
  shows "is_ok (fst (reject_from_scan reason (latest_release_origin s) a)) \<longleftrightarrow>
    (\<exists>pre e post. s = pre @ EArtifactReleased e # post \<and>
       (\<forall>x\<in>set post. \<forall>r. x \<noteq> EArtifactReleased r) \<and>
       (rel_released_by e = Timer \<or> rel_released_by e = PolicyReEvaluation))"
proof -
  let ?f = "\<lambda>e. case e of EArtifactReleased r \<Rightarrow> Some (ReleasedBy (rel_released_by r)) | _ \<Rightarrow> None"
  obtain r where r: "latest_release_origin s = ReleasedBy r"
    using history_recorded [OF assms(1)] assms(2) by (auto simp: recorded_def)
  have found: "latest_release_origin s = ReleasedBy q \<longleftrightarrow> find_map ?f (rev s) = Some (ReleasedBy q)" for q
    by (simp add: latest_release_origin_def unwrap_or_def split: option.split)
  have none: "?f x = None \<longleftrightarrow> (\<forall>e. x \<noteq> EArtifactReleased e)" for x
    by (cases x) simp_all
  have some: "?f x = Some (ReleasedBy q) \<longleftrightarrow> (\<exists>e. x = EArtifactReleased e \<and> rel_released_by e = q)" for x q
    by (cases x) auto
  have last: "r = q \<longleftrightarrow> (\<exists>pre e post. s = pre @ EArtifactReleased e # post \<and>
      (\<forall>x\<in>set post. \<forall>r. x \<noteq> EArtifactReleased r) \<and> rel_released_by e = q)" for q
    using found [of q] r unfolding find_map_rev_Some none some by auto
  have "is_ok (fst (reject_from_scan reason (latest_release_origin s) a)) \<longleftrightarrow> r = Timer \<or> r = PolicyReEvaluation"
    by (cases r) (simp_all add: reject_from_scan_def allowed_none assms(2) r)
  then show ?thesis unfolding last by blast
qed

theorem scan_reblock_respects_release_witness:
  "\<exists>s. is_ok (fst (reject_from_scan ''late finding'' (latest_release_origin s) (sample_artifact Released None))) \<longleftrightarrow>
    (\<exists>pre e post. s = pre @ EArtifactReleased e # post \<and>
       (\<forall>x\<in>set post. \<forall>r. x \<noteq> EArtifactReleased r) \<and>
       (rel_released_by e = Timer \<or> rel_released_by e = PolicyReEvaluation))"
proof -
  have "history ((sample_artifact QNone None)\<lparr>art_quarantine_window_start := None\<rparr>) []"
    by (rule history_ingested) (simp_all add: sample_artifact_def)
  then have "history (sample_artifact Quarantined None)
      ([] @ [EArtifactQuarantined \<lparr>quar_artifact_id = 1, quar_window_start = 5\<rparr>])"
    by (rule history_transition [where c = "CQuarantine 5"])
      (simp_all add: is_repair_def emit_def quarantine_def allowed_none sample_artifact_def)
  then have "history (sample_artifact Released None)
      (([] @ [EArtifactQuarantined \<lparr>quar_artifact_id = 1, quar_window_start = 5\<rparr>]) @
       [EArtifactReleased \<lparr>rel_artifact_id = 1, rel_released_by = Timer,
          rel_released_by_user_id = None, rel_justification = None\<rparr>])"
    by (rule history_transition [where c = "CRelease Timer ScanSucceeded ProvCleared"])
      (simp_all add: is_repair_def emit_def release_def provenance_clears_def allowed_none sample_artifact_def)
  from scan_reblock_respects_release [OF this, of "''late finding''"] show ?thesis
    by (auto simp: sample_artifact_def)
qed

text \<open>
  C29. The standing of an artifact's last scan is read from the events after it. When the stream is
  \<open>pre\<close>, a completed scan, and \<open>post\<close> without a further completed scan, the standing is: superseded
  if \<open>post\<close> contains a rejection; otherwise the first policy verdict in \<open>post\<close> decides, a pass
  clearing and a failure holding; and without any verdict the scan clears exactly when it counted
  no finding. A stream without a completed scan is unobserved.
\<close>

theorem scan_standing_spec:
  "((\<forall>e\<in>set s. \<not> is_scan_completed e) \<longrightarrow> latest_scan_standing s = Unobserved) \<and>
   ((\<forall>e\<in>set post. \<not> is_scan_completed e) \<longrightarrow>
   latest_scan_standing (pre @ EScanCompleted sc # post) =
     (if has_terminal_rejection_event post then Superseded
      else case find_map verdict_event post of
             Some Pass \<Rightarrow> Clears (sc_finding_count sc \<noteq> 0)
           | Some Fail \<Rightarrow> Holds
           | None \<Rightarrow> if sc_finding_count sc = 0 then Clears False else Holds))"
  by (auto simp: latest_scan_standing_def standing_none standing_fold
      standing_step_def [of _ "EScanCompleted sc"] split: option.split policy_result.split)

theorem scan_standing_spec_witness:
  "latest_scan_standing
     ([] @ EScanCompleted \<lparr>sc_artifact_id = 1, sc_scanner = ''trivy'', sc_finding_count = 2,
              sc_severity_summary = empty_summary, sc_findings_blob = None, sc_assessment = Analysed\<rparr>
         # [EPolicyEvaluated \<lparr>pe_artifact_id = 1, pe_policy_id = 2, pe_result = Pass, pe_violations = []\<rparr>])
   = Clears True"
  using scan_standing_spec [of "[]"
      "[EPolicyEvaluated \<lparr>pe_artifact_id = 1, pe_policy_id = 2, pe_result = Pass, pe_violations = []\<rparr>]"
      "[]" "\<lparr>sc_artifact_id = 1, sc_scanner = ''trivy'', sc_finding_count = 2,
              sc_severity_summary = empty_summary, sc_findings_blob = None, sc_assessment = Analysed\<rparr>"]
  by (simp add: is_scan_completed_def has_terminal_rejection_event_def verdict_event_def)

text \<open>What holds from a corruption tombstone on, until a provenance rejection is recorded.\<close>

definition corrupt :: "artifact \<Rightarrow> domain_event list \<Rightarrow> bool" where
  "corrupt a s \<longleftrightarrow> art_quarantine_status a = Rejected \<and> art_rejection_reason a \<in> {None, Some Corruption} \<and>
     last_rejection_reason s = Some Corruption"

definition disproved_in :: "domain_event list \<Rightarrow> bool" where
  "disproved_in s \<longleftrightarrow> (\<exists>r. EArtifactRejected r \<in> set s \<and> rej_rejected_by r = RejProvenance)"

lemma corrupt_transition:
  assumes "corrupt a s" and "run_command c a = (Inr es, a')" and "\<not> is_repair c" and "\<not> disproved_in es"
  shows "corrupt a' (s @ es)"
proof (cases c)
  case (CCompleteProvenance v b)
  then show ?thesis
    using complete_provenance_ok [of v b a es a'] assms by (auto simp: corrupt_def disproved_in_def last_event_simps)
next
  case (CCascadeProvenanceClearance h sg pt b)
  then show ?thesis using assms by (auto simp: emit_cases corrupt_def last_event_simps)
qed (use assms in \<open>auto simp: emit_cases transition_ok corrupt_def is_repair_def last_event_simps split: if_splits option.splits\<close>)

lemma corrupt_step:
  assumes "stream_step a s a' s'" and "corrupt a s"
  shows "\<exists>es. s' = s @ es \<and> (\<not> disproved_in es \<longrightarrow> corrupt a' s')"
  using assms
proof cases
  case (step_transition c es)
  then show ?thesis using corrupt_transition [OF assms(2)] by blast
next
  case (step_observation e)
  then show ?thesis using assms(2) by (cases e) (auto simp: corrupt_def last_event_simps is_observation_def)
next
  case (step_repair dry now res)
  have "terminal_record_from_events s = Present" using assms(2) by (simp add: corrupt_def terminal_record_present)
  then have "repair_one dry now a s = (Inr False, a, s)" by (simp add: repair_one_def)
  then show ?thesis using step_repair assms(2) by simp
next
  case step_load
  then show ?thesis using assms(2) by (auto simp: corrupt_def)
next
  case step_reload
  then show ?thesis using assms(2) by (auto simp: corrupt_def rehydrate_def)
qed

lemma stream_step_extends: "stream_step a s a' s' \<Longrightarrow> \<exists>es. s' = s @ es"
  by (erule stream_step.cases) (auto simp: repair_one_def Let_def split: if_splits sum.splits prod.splits)

lemma continues_corrupt:
  assumes "continues a s a' s'" and "corrupt a s"
  shows "\<exists>es. s' = s @ es \<and> (\<not> disproved_in es \<longrightarrow> corrupt a' s')"
  using assms(1)
proof induction
  case continues_start
  then show ?case using assms(2) by simp
next
  case (continues_step b t b' t')
  obtain es where es: "t = s @ es" "\<not> disproved_in es \<longrightarrow> corrupt b t" using continues_step.IH by blast
  obtain es' where es': "t' = t @ es'" using stream_step_extends continues_step.hyps(2) by blast
  have "corrupt b' t'" if "\<not> disproved_in (es @ es')"
    using that es es' corrupt_step [OF continues_step.hyps(2)] by (auto simp: disproved_in_def)
  then show ?case using es es' by auto
qed

text \<open>
  C5. A rejection for corruption stands until a provenance rejection is recorded over it. After a
  corruption tombstone on any history, whatever transitions, observations, repairs and loads follow, with
  the rejection reason read back from the stream or not, the artifact stays rejected, cannot be
  downloaded and its stream says corruption, as long as no provenance rejection was recorded after the
  tombstone. Once one is, the corruption is masked; that is \<open>provenance_masks_corruption\<close> below.
\<close>

theorem corruption_stands_until_masked:
  assumes "run_command (CTombstoneFromCorruption h t) a = (Inr es, a1)"
    and "continues a1 (s @ es) a' s'"
    and "\<nexists>r. EArtifactRejected r \<in> set (drop (length (s @ es)) s') \<and> rej_rejected_by r = RejProvenance"
  shows "art_quarantine_status a' = Rejected \<and> \<not> is_downloadable a' \<and> last_rejection_reason s' = Some Corruption"
proof -
  have "corrupt a1 (s @ es)" using assms(1) by (auto simp: tombstone_from_corruption_ok corrupt_def last_event_simps)
  then obtain es' where "s' = (s @ es) @ es'" "\<not> disproved_in es' \<longrightarrow> corrupt a' s'"
    using continues_corrupt [OF assms(2)] by blast
  then have "corrupt a' s'" using assms(3) by (simp add: disproved_in_def)
  then show ?thesis by (simp add: corrupt_def downloadable_cases)
qed

theorem corruption_stands_until_masked_witness:
  "\<exists>es a1. run_command (CTombstoneFromCorruption (ContentHash ''ff'') 8) (sample_artifact Released None) = (Inr es, a1) \<and>
     \<not> is_downloadable (rehydrate (a1\<lparr>art_rejection_reason := None\<rparr>) ([] @ es))"
proof -
  obtain es a1 where run: "run_command (CTombstoneFromCorruption (ContentHash ''ff'') 8) (sample_artifact Released None) = (Inr es, a1)"
    by (simp add: tombstone_from_corruption_def allowed_none sample_artifact_def Let_def)
  have "continues a1 ([] @ es) (rehydrate (a1\<lparr>art_rejection_reason := None\<rparr>) ([] @ es)) ([] @ es)"
    by (rule continues_step [OF continues_step [OF continues_start step_load] step_reload])
  then show ?thesis using corruption_stands_until_masked [OF run, of "[]"] run by auto
qed

text \<open>
  C36. The refusal to waive corruption looks at the last rejection only. After a corruption
  tombstone a curator's waive is refused; if a provenance disproof is then recorded on the same
  artifact, which no guard of the aggregate prevents, the reason read back from the stream is the
  provenance one, and the waive is accepted.
\<close>

theorem provenance_masks_corruption:
  assumes "run_command (CTombstoneFromCorruption h t) a = (Inr es1, a1)"
    and "ver_outcome v = ProvRejected reason"
  shows "\<exists>es2 a2. run_command (CCompleteProvenance v b) a1 = (Inr es2, a2) \<and>
    \<not> is_ok (fst (release Curator CuratorWaiver p (rehydrate a1 (s @ es1)))) \<and>
    is_ok (fst (release Curator CuratorWaiver p (rehydrate a2 (s @ es1 @ es2))))"
proof -
  have es1: "last_rejection_reason (s @ es1) = Some Corruption" "art_quarantine_status a1 = Rejected"
    using assms(1) by (auto simp: tombstone_from_corruption_ok last_event_simps)
  obtain es2 a2 where run: "run_command (CCompleteProvenance v b) a1 = (Inr es2, a2)"
    by (simp add: complete_provenance_def assms(2))
  then have "art_quarantine_status a2 = Rejected" "last_rejection_reason ((s @ es1) @ es2) = Some RejProvenance"
    by (auto simp: complete_provenance_def assms(2) last_event_simps simp del: append_assoc)
  with es1 run show ?thesis
    by (simp add: rehydrate_def release_def allowed_none)
qed

theorem provenance_masks_corruption_witness:
  "\<exists>es1 a1 es2 a2. run_command (CTombstoneFromCorruption (ContentHash ''ff'') 8) (sample_artifact Quarantined None)
      = (Inr es1, a1) \<and>
    \<not> is_ok (fst (release Curator CuratorWaiver ProvPending (rehydrate a1 ([] @ es1)))) \<and>
    is_ok (fst (release Curator CuratorWaiver ProvPending (rehydrate a2 ([] @ es1 @ es2))))"
proof -
  obtain es1 a1 where run: "run_command (CTombstoneFromCorruption (ContentHash ''ff'') 8)
      (sample_artifact Quarantined None) = (Inr es1, a1)"
    by (simp add: tombstone_from_corruption_def allowed_none sample_artifact_def Let_def)
  show ?thesis
    using provenance_masks_corruption [OF run,
        of "\<lparr>ver_outcome = ProvRejected DigestMismatch, ver_unreadable_skipped = 0\<rparr>" DigestMismatch
          "''cosign''" ProvPending "[]"] run
    by auto
qed

end
