(* ===== verification/Windows_Liveness.thy ===== *)
theory Windows_Liveness
  imports Policy_Scan
begin

text \<open>
  Time arithmetic of the policy layer: the anchor of an artifact's observation window
  (\<^verbatim>\<open>policy/quarantine_anchor.rs\<close>) and the three liveness evaluators that notice when a periodic
  task has stopped running (\<^verbatim>\<open>policy/rescan_drive_liveness.rs\<close>,
  \<^verbatim>\<open>event_chain_verify_liveness.rs\<close>, \<^verbatim>\<open>staging_sweep_liveness.rs\<close>).
\<close>

section \<open>The quarantine anchor\<close>

record anchor_evidence =
  ae_minted_at :: timestamp
  ae_window :: duration
  ae_explicit_override :: "timestamp option"
  ae_first_seen_at :: "timestamp option"
  ae_trusted_upstream_published_at :: "timestamp option"
  ae_is_referenced_descendant :: bool

datatype anchor_source = Override | Mint | FirstSeen | TrustedUpstreamPublish | ReferencedDescendant

record derived_anchor =
  da_anchor :: timestamp
  da_source :: anchor_source
  da_upstream_clamp_fired :: bool

fun earliest_candidate ::
    "timestamp \<times> anchor_source \<Rightarrow> (timestamp option \<times> anchor_source) list \<Rightarrow> timestamp \<times> anchor_source" where
  "earliest_candidate best [] = best"
| "earliest_candidate (anchor, source) ((candidate, candidate_source) # rest) =
     (case candidate of
        Some ts \<Rightarrow> (if ts < anchor then earliest_candidate (ts, candidate_source) rest
                    else earliest_candidate (anchor, source) rest)
      | None \<Rightarrow> earliest_candidate (anchor, source) rest)"

definition derive_quarantine_anchor :: "anchor_evidence \<Rightarrow> derived_anchor" where
  "derive_quarantine_anchor e =
     (case ae_explicit_override e of
        Some explicit \<Rightarrow>
          \<lparr>da_anchor = explicit, da_source = Override, da_upstream_clamp_fired = False\<rparr>
      | None \<Rightarrow>
          let upstream_clamp_fired =
                (case ae_trusted_upstream_published_at e of
                   None \<Rightarrow> False | Some ts \<Rightarrow> ts > ae_minted_at e);
              clamped_upstream = map_option (\<lambda>ts. min ts (ae_minted_at e)) (ae_trusted_upstream_published_at e);
              descendant = (if ae_is_referenced_descendant e then Some (ae_minted_at e - ae_window e) else None);
              (anchor, source) =
                earliest_candidate (ae_minted_at e, Mint)
                  [(ae_first_seen_at e, FirstSeen), (clamped_upstream, TrustedUpstreamPublish),
                   (descendant, ReferencedDescendant)]
          in \<lparr>da_anchor = anchor, da_source = source, da_upstream_clamp_fired = upstream_clamp_fired\<rparr>)"

section \<open>Rescan drive liveness\<close>

record declared_cadence =
  dc_interval_hours :: int
  dc_policy_name :: string

datatype rescan_drive_liveness =
    NoCadenceDeclared
  | Driven declared_cadence int int
  | Stale declared_cadence int int
  | NeverDriven declared_cadence int

fun is_undriven :: "rescan_drive_liveness \<Rightarrow> bool" where
  "is_undriven (Stale _ _ _) = True"
| "is_undriven (NeverDriven _ _) = True"
| "is_undriven _ = False"

fun cadence_of :: "rescan_drive_liveness \<Rightarrow> declared_cadence option" where
  "cadence_of NoCadenceDeclared = None"
| "cadence_of (Driven c _ _) = Some c"
| "cadence_of (Stale c _ _) = Some c"
| "cadence_of (NeverDriven c _) = Some c"

text \<open>\<^verbatim>\<open>String\<close> comparison is lexicographic on bytes.\<close>

fun str_less :: "string \<Rightarrow> string \<Rightarrow> bool" where
  "str_less _ [] = False"
| "str_less [] (_ # _) = True"
| "str_less (c # cs) (d # ds) = (byte_of c < byte_of d \<or> (byte_of c = byte_of d \<and> str_less cs ds))"

definition cadence_less :: "scan_policy_projection \<Rightarrow> scan_policy_projection \<Rightarrow> bool" where
  "cadence_less a b \<longleftrightarrow>
     pol_rescan_interval_hours a < pol_rescan_interval_hours b \<or>
     (pol_rescan_interval_hours a = pol_rescan_interval_hours b \<and> str_less (pol_name a) (pol_name b))"

definition declares_cadence :: "scan_policy_projection \<Rightarrow> bool" where
  "declares_cadence p \<longleftrightarrow> \<not> pol_archived p \<and> pol_rescan_interval_hours p > 0"

definition shortest_declared_cadence :: "scan_policy_projection list \<Rightarrow> declared_cadence option" where
  "shortest_declared_cadence policies =
     map_option (\<lambda>p. \<lparr>dc_interval_hours = pol_rescan_interval_hours p, dc_policy_name = pol_name p\<rparr>)
       (min_by cadence_less (filter declares_cadence policies))"

definition evaluate_rescan_drive_liveness ::
    "scan_policy_projection list \<Rightarrow> timestamp option \<Rightarrow> timestamp \<Rightarrow> u32 \<Rightarrow> rescan_drive_liveness" where
  "evaluate_rescan_drive_liveness policies last_completed_at now staleness_multiplier =
     (case shortest_declared_cadence policies of
        None \<Rightarrow> NoCadenceDeclared
      | Some cadence \<Rightarrow>
          let threshold_secs =
                saturating_mul_i64 (saturating_mul_i64 (dc_interval_hours cadence) 3600)
                  (int (unat staleness_multiplier))
          in case last_completed_at of
               None \<Rightarrow> NeverDriven cadence threshold_secs
             | Some prev \<Rightarrow>
                 let age_secs = num_seconds (now - prev) in
                 if age_secs > threshold_secs then Stale cadence age_secs threshold_secs
                 else Driven cadence age_secs threshold_secs)"

section \<open>Event-chain verification and staging sweep liveness\<close>

datatype event_chain_verify_liveness = ChainHealthy int | ChainOverdue int int | ChainNeverRan

fun chain_is_overdue :: "event_chain_verify_liveness \<Rightarrow> bool" where
  "chain_is_overdue (ChainHealthy _) = False"
| "chain_is_overdue _ = True"

text \<open>The expected interval enters through its whole seconds, a \<^verbatim>\<open>u64\<close>.\<close>

definition interval_secs :: "u64 \<Rightarrow> int" where
  "interval_secs expected = (if int (unat expected) \<le> i64_max then int (unat expected) else i64_max)"

definition evaluate_event_chain_verify_liveness ::
    "timestamp option \<Rightarrow> timestamp \<Rightarrow> u64 \<Rightarrow> u32 \<Rightarrow> event_chain_verify_liveness" where
  "evaluate_event_chain_verify_liveness last_completed_at now expected_interval staleness_multiplier =
     (case last_completed_at of
        None \<Rightarrow> ChainNeverRan
      | Some prev \<Rightarrow>
          let age_secs = num_seconds (now - prev);
              threshold_secs = saturating_mul_i64 (interval_secs expected_interval)
                                 (int (unat staleness_multiplier))
          in if age_secs > threshold_secs then ChainOverdue age_secs threshold_secs
             else ChainHealthy age_secs)"

datatype staging_sweep_liveness = SweepHealthy int | SweepOverdue int int | SweepNeverRan

fun sweep_is_overdue :: "staging_sweep_liveness \<Rightarrow> bool" where
  "sweep_is_overdue (SweepHealthy _) = False"
| "sweep_is_overdue _ = True"

definition evaluate_staging_sweep_liveness ::
    "timestamp option \<Rightarrow> timestamp \<Rightarrow> u64 \<Rightarrow> u32 \<Rightarrow> staging_sweep_liveness" where
  "evaluate_staging_sweep_liveness last_completed_at now expected_interval staleness_multiplier =
     (case last_completed_at of
        None \<Rightarrow> SweepNeverRan
      | Some prev \<Rightarrow>
          let age_secs = num_seconds (now - prev);
              threshold_secs = saturating_mul_i64 (interval_secs expected_interval)
                                 (int (unat staleness_multiplier))
          in if age_secs > threshold_secs then SweepOverdue age_secs threshold_secs
             else SweepHealthy age_secs)"

section \<open>The contract of a liveness probe\<close>

text \<open>
  A probe watches a task through the instant of its last completion. Between two completions it
  can only go from healthy to overdue, and a completion makes it healthy again.
\<close>

locale liveness_probe =
  fixes threshold :: int
    and overdue :: "timestamp option \<Rightarrow> timestamp \<Rightarrow> bool"
  assumes never_ran: "overdue None now"
    and after_run: "overdue (Some prev) now \<longleftrightarrow> threshold < num_seconds (now - prev)"
    and threshold_range: "0 \<le> threshold \<and> threshold \<le> i64_max"
begin

lemma stays_overdue: "overdue (Some prev) now \<Longrightarrow> now \<le> later \<Longrightarrow> overdue (Some prev) later"
  using num_seconds_mono [of "now - prev" "later - prev"] by (simp add: after_run)

lemma completion_clears: "now \<le> prev \<Longrightarrow> \<not> overdue (Some prev) now"
  using num_seconds_mono [of "now - prev" 0] threshold_range
  by (simp add: after_run num_seconds_def nanos_per_sec_def split: if_splits)

lemma newer_completion: "\<not> overdue (Some prev) now \<Longrightarrow> prev \<le> newer \<Longrightarrow> \<not> overdue (Some newer) now"
  using num_seconds_mono [of "now - newer" "now - prev"] by (simp add: after_run)

end

lemma saturating_mul_nonneg: "0 \<le> a \<Longrightarrow> 0 \<le> b \<Longrightarrow> 0 \<le> saturating_mul_i64 a b"
  by (simp add: saturating_mul_i64_def sat_i64_def i64_min_def i64_max_def le_max_iff_disj)

lemma saturating_mul_bounds: "i64_min \<le> saturating_mul_i64 a b \<and> saturating_mul_i64 a b \<le> i64_max"
  unfolding saturating_mul_i64_def by (rule sat_i64_bounds)

lemma interval_secs_nonneg: "0 \<le> interval_secs expected"
  by (simp add: interval_secs_def i64_max_def)

interpretation chain_probe: liveness_probe
    "saturating_mul_i64 (interval_secs expected) (int (unat multiplier))"
    "\<lambda>prev now. chain_is_overdue (evaluate_event_chain_verify_liveness prev now expected multiplier)"
    for expected multiplier
  by unfold_locales
    (simp_all add: evaluate_event_chain_verify_liveness_def Let_def saturating_mul_bounds
      saturating_mul_nonneg interval_secs_nonneg)

interpretation sweep_probe: liveness_probe
    "saturating_mul_i64 (interval_secs expected) (int (unat multiplier))"
    "\<lambda>prev now. sweep_is_overdue (evaluate_staging_sweep_liveness prev now expected multiplier)"
    for expected multiplier
  by unfold_locales
    (simp_all add: evaluate_staging_sweep_liveness_def Let_def saturating_mul_bounds
      saturating_mul_nonneg interval_secs_nonneg)

section \<open>Lemmas\<close>

lemma str_less_irrefl: "\<not> str_less s s"
  by (induction s) simp_all

lemma str_less_trans: "str_less a b \<Longrightarrow> str_less b c \<Longrightarrow> str_less a c"
proof (induction a b arbitrary: c rule: str_less.induct)
  case (2 d ds)
  then show ?case by (cases c) auto
next
  case (3 x xs y ys)
  then show ?case by (cases c) auto
qed simp

lemma cadence_less_irrefl: "\<not> cadence_less a a"
  by (simp add: cadence_less_def str_less_irrefl)

lemma cadence_less_trans: "cadence_less a b \<Longrightarrow> cadence_less b c \<Longrightarrow> cadence_less a c"
  using str_less_trans by (auto simp: cadence_less_def)

text \<open>The fold keeps a minimal element: nothing it has passed over is smaller.\<close>

lemma str_less_total: "str_less a b \<Longrightarrow> str_less a c \<or> str_less c b"
proof (induction a b arbitrary: c rule: str_less.induct)
  case (2 d ds)
  then show ?case by (cases c) auto
next
  case (3 x xs y ys)
  then show ?case by (cases c) auto
qed simp

lemma cadence_less_total: "cadence_less a b \<Longrightarrow> cadence_less a c \<or> cadence_less c b"
  using str_less_total [of "pol_name a" "pol_name b" "pol_name c"] by (auto simp: cadence_less_def)

lemma shortest_cadence_spec:
  "shortest_declared_cadence policies = Some cadence \<Longrightarrow>
   (\<exists>p\<in>set policies. declares_cadence p \<and> pol_rescan_interval_hours p = dc_interval_hours cadence \<and>
      pol_name p = dc_policy_name cadence \<and> (\<forall>q\<in>set policies. declares_cadence q \<longrightarrow> \<not> cadence_less q p))"
proof -
  assume some: "shortest_declared_cadence policies = Some cadence"
  then obtain x xs where filt: "filter declares_cadence policies = x # xs"
    by (cases "filter declares_cadence policies") (simp_all add: shortest_declared_cadence_def)
  define p where "p = foldl (\<lambda>best y. if cadence_less y best then y else best) x xs"
  have "p \<in> set (x # xs) \<and> (\<forall>y\<in>set (x # xs). \<not> cadence_less y p)"
    unfolding p_def
    by (rule foldl_min_by) (fact cadence_less_irrefl cadence_less_trans cadence_less_total)+
  then have "p \<in> set policies \<and> declares_cadence p \<and>
      (\<forall>q\<in>set policies. declares_cadence q \<longrightarrow> \<not> cadence_less q p)"
    unfolding filt [symmetric] by auto
  moreover have "cadence = \<lparr>dc_interval_hours = pol_rescan_interval_hours p, dc_policy_name = pol_name p\<rparr>"
    using some by (simp add: shortest_declared_cadence_def filt p_def)
  ultimately show ?thesis by auto
qed

lemma shortest_cadence_none:
  "shortest_declared_cadence policies = None \<longleftrightarrow> (\<forall>p\<in>set policies. \<not> declares_cadence p)"
  by (cases "filter declares_cadence policies")
    (auto simp: shortest_declared_cadence_def filter_empty_conv dest: filter_eq_ConsD)

lemma earliest_candidate_min:
  "fst (earliest_candidate (a, s) cs) = Min (insert a {t. Some t \<in> fst ` set cs})"
proof (induction cs arbitrary: a s)
  case (Cons c cs)
  obtain t src where c: "c = (t, src)" by (cases c)
  have fin: "finite {t. Some t \<in> fst ` set cs}"
    by (rule finite_subset [of _ "the ` fst ` set cs"]) (auto simp: image_iff, force)
  show ?case
  proof (cases t)
    case None
    then have "{t. Some t \<in> fst ` set (c # cs)} = {t. Some t \<in> fst ` set cs}" by (auto simp: c)
    with None Cons.IH show ?thesis by (simp add: c)
  next
    case (Some v)
    then have ins: "{t. Some t \<in> fst ` set (c # cs)} = insert v {t. Some t \<in> fst ` set cs}"
      by (auto simp: c)
    have "Min (insert a (insert v {t. Some t \<in> fst ` set cs})) =
        Min (insert (min a v) {t. Some t \<in> fst ` set cs})"
      using fin by (cases "{t. Some t \<in> fst ` set cs} = {}") (simp_all add: min.assoc)
    with Some Cons.IH show ?thesis
      unfolding ins by (simp add: c min_def)
  qed
qed simp

section \<open>Properties\<close>

text \<open>
  The anchor of an observation window. An operator's explicit anchor always wins. Otherwise
  the anchor is the earliest of the mint instant, the first time the content was seen, the
  upstream publish time clamped to the mint instant, and, for content another artifact already
  references, the mint instant less the window. In particular it is never later than the mint
  instant, so an upstream cannot lengthen a window by claiming a future publish time, and without
  any evidence it is the mint instant.
\<close>

theorem quarantine_anchor_spec:
  "(\<forall>t. ae_explicit_override e = Some t \<longrightarrow> da_anchor (derive_quarantine_anchor e) = t) \<and>
   (ae_explicit_override e = None \<longrightarrow>
      da_anchor (derive_quarantine_anchor e) =
        Min (insert (ae_minted_at e) (set_option (ae_first_seen_at e)
             \<union> (\<lambda>t. min t (ae_minted_at e)) ` set_option (ae_trusted_upstream_published_at e)
             \<union> (if ae_is_referenced_descendant e then {ae_minted_at e - ae_window e} else {}))) \<and>
      da_anchor (derive_quarantine_anchor e) \<le> ae_minted_at e \<and>
      effective_quarantine_deadline (da_anchor (derive_quarantine_anchor e)) (ae_window e)
        \<le> ae_minted_at e + ae_window e)"
proof -
  let ?cs = "[(ae_first_seen_at e, FirstSeen),
      (map_option (\<lambda>ts. min ts (ae_minted_at e)) (ae_trusted_upstream_published_at e), TrustedUpstreamPublish),
      (if ae_is_referenced_descendant e then Some (ae_minted_at e - ae_window e) else None, ReferencedDescendant)]"
  let ?S = "set_option (ae_first_seen_at e)
             \<union> (\<lambda>t. min t (ae_minted_at e)) ` set_option (ae_trusted_upstream_published_at e)
             \<union> (if ae_is_referenced_descendant e then {ae_minted_at e - ae_window e} else {})"
  have S: "{t. Some t \<in> fst ` set ?cs} = ?S"
    by (cases "ae_first_seen_at e"; cases "ae_trusted_upstream_published_at e") auto
  have fin: "finite ?S"
    by (cases "ae_first_seen_at e"; cases "ae_trusted_upstream_published_at e") auto
  have anchor: "ae_explicit_override e = None \<Longrightarrow>
      da_anchor (derive_quarantine_anchor e) = Min (insert (ae_minted_at e) ?S)"
    using earliest_candidate_min [of "ae_minted_at e" Mint ?cs, unfolded S]
    by (simp add: derive_quarantine_anchor_def Let_def case_prod_beta)
  moreover have "Min (insert (ae_minted_at e) ?S) \<le> ae_minted_at e"
    using fin by (intro Min_le) auto
  moreover have "ae_explicit_override e = Some t \<Longrightarrow> da_anchor (derive_quarantine_anchor e) = t" for t
    by (simp add: derive_quarantine_anchor_def)
  ultimately show ?thesis
    unfolding effective_quarantine_deadline_def by simp
qed

theorem quarantine_anchor_spec_witness:
  "da_anchor (derive_quarantine_anchor
     \<lparr>ae_minted_at = 100, ae_window = 50, ae_explicit_override = None, ae_first_seen_at = Some 80,
      ae_trusted_upstream_published_at = Some 900, ae_is_referenced_descendant = False\<rparr>) \<le> 100"
  using quarantine_anchor_spec [of "\<lparr>ae_minted_at = 100, ae_window = 50, ae_explicit_override = None,
      ae_first_seen_at = Some 80, ae_trusted_upstream_published_at = Some 900,
      ae_is_referenced_descendant = False\<rparr>"]
  by simp

text \<open>
  C32. The liveness evaluators fail closed and are monotone in time. A task that never completed is
  overdue; an overdue task stays overdue until it completes; a completion at or after the present
  clears it; and the rescan drive is judged by the shortest cadence any active policy declares,
  reporting nothing to drive exactly when no active policy declares one.
\<close>

theorem liveness_fails_closed:
  "chain_is_overdue (evaluate_event_chain_verify_liveness None now expected m) \<and>
   sweep_is_overdue (evaluate_staging_sweep_liveness None now expected m) \<and>
   (now \<le> later \<longrightarrow>
      (chain_is_overdue (evaluate_event_chain_verify_liveness (Some prev) now expected m) \<longrightarrow>
       chain_is_overdue (evaluate_event_chain_verify_liveness (Some prev) later expected m)) \<and>
      (sweep_is_overdue (evaluate_staging_sweep_liveness (Some prev) now expected m) \<longrightarrow>
       sweep_is_overdue (evaluate_staging_sweep_liveness (Some prev) later expected m))) \<and>
   (now \<le> prev \<longrightarrow>
      \<not> chain_is_overdue (evaluate_event_chain_verify_liveness (Some prev) now expected m) \<and>
      \<not> sweep_is_overdue (evaluate_staging_sweep_liveness (Some prev) now expected m)) \<and>
   (evaluate_rescan_drive_liveness policies done_at now m = NoCadenceDeclared \<longleftrightarrow>
      (\<forall>p\<in>set policies. pol_archived p \<or> pol_rescan_interval_hours p \<le> 0)) \<and>
   (\<forall>c. cadence_of (evaluate_rescan_drive_liveness policies done_at now m) = Some c \<longrightarrow>
      (\<forall>p\<in>set policies. \<not> pol_archived p \<and> pol_rescan_interval_hours p > 0 \<longrightarrow>
         dc_interval_hours c \<le> pol_rescan_interval_hours p) \<and>
      (is_undriven (evaluate_rescan_drive_liveness policies done_at now m) \<longleftrightarrow>
         (\<forall>t. done_at = Some t \<longrightarrow>
            saturating_mul_i64 (saturating_mul_i64 (dc_interval_hours c) 3600) (int (unat m)) < num_seconds (now - t))))"
proof (intro conjI)
  show "evaluate_rescan_drive_liveness policies done_at now m = NoCadenceDeclared \<longleftrightarrow>
      (\<forall>p\<in>set policies. pol_archived p \<or> pol_rescan_interval_hours p \<le> 0)"
    using shortest_cadence_none [of policies]
    by (auto simp: evaluate_rescan_drive_liveness_def Let_def declares_cadence_def not_less split: option.split)
  have cad: "cadence_of (evaluate_rescan_drive_liveness policies done_at now m) = shortest_declared_cadence policies"
    by (simp add: evaluate_rescan_drive_liveness_def Let_def split: option.split)
  show "\<forall>c. cadence_of (evaluate_rescan_drive_liveness policies done_at now m) = Some c \<longrightarrow>
      (\<forall>p\<in>set policies. \<not> pol_archived p \<and> pol_rescan_interval_hours p > 0 \<longrightarrow>
         dc_interval_hours c \<le> pol_rescan_interval_hours p) \<and>
      (is_undriven (evaluate_rescan_drive_liveness policies done_at now m) \<longleftrightarrow>
         (\<forall>t. done_at = Some t \<longrightarrow>
            saturating_mul_i64 (saturating_mul_i64 (dc_interval_hours c) 3600) (int (unat m)) < num_seconds (now - t)))"
  proof (intro allI impI conjI ballI)
    fix c p
    assume "cadence_of (evaluate_rescan_drive_liveness policies done_at now m) = Some c"
      and p: "p \<in> set policies" "\<not> pol_archived p \<and> 0 < pol_rescan_interval_hours p"
    then show "dc_interval_hours c \<le> pol_rescan_interval_hours p"
      using shortest_cadence_spec [of policies c] unfolding cad
      by (auto simp: declares_cadence_def cadence_less_def not_less)
  next
    fix c
    assume "cadence_of (evaluate_rescan_drive_liveness policies done_at now m) = Some c"
    then show "is_undriven (evaluate_rescan_drive_liveness policies done_at now m) \<longleftrightarrow>
         (\<forall>t. done_at = Some t \<longrightarrow>
            saturating_mul_i64 (saturating_mul_i64 (dc_interval_hours c) 3600) (int (unat m)) < num_seconds (now - t))"
      unfolding cad by (cases done_at) (simp_all add: evaluate_rescan_drive_liveness_def Let_def)
  qed
qed (metis chain_probe.stays_overdue sweep_probe.stays_overdue chain_probe.completion_clears
    sweep_probe.completion_clears chain_probe.never_ran sweep_probe.never_ran)+

theorem liveness_fails_closed_witness:
  "\<not> chain_is_overdue (evaluate_event_chain_verify_liveness (Some 7) 5 60 2) \<and>
   evaluate_rescan_drive_liveness [] None 5 2 = NoCadenceDeclared"
  using liveness_fails_closed [of 5 60 2 5 7 "[]" None] by simp

end
