(* ===== verification/Event_Chain.thy ===== *)
theory Event_Chain
  imports Hort_Prelude "HOL-Library.Char_ord" "HOL-Library.List_Lexorder"
begin

text \<open>
  The tamper-evident event chain (\<^verbatim>\<open>events/chain.rs\<close>): the canonical bytes of a stored event, the
  hash that links it to its predecessor, and the walk that verifies one stream.

  Two pieces of third-party code are arguments: \<open>sha\<close> is SHA-256 (\<^verbatim>\<open>sha2\<close>) and \<open>ser\<close> is
  \<^verbatim>\<open>serde_json::to_vec\<close> on a JSON value. What the results rely on is that neither maps two of the
  finitely many messages at hand to one image (\<open>collision_free\<close>), never injectivity at large, which
  no hash function has.
\<close>

section \<open>Big-endian integers\<close>

definition u32_be :: "u32 \<Rightarrow> string" where "u32_be w = be_bytes 4 (unat w)"
definition u64_be :: "u64 \<Rightarrow> string" where "u64_be w = be_bytes 8 (unat w)"
definition uuid_bytes :: "uuid \<Rightarrow> string" where "uuid_bytes w = be_bytes 16 (unat w)"

section \<open>Hashes and rows\<close>

type_synonym event_hash = "256 word"
type_synonym sha256 = "string \<Rightarrow> event_hash"
type_synonym to_vec = "json \<Rightarrow> string"

definition hash_bytes :: "event_hash \<Rightarrow> string" where "hash_bytes h = be_bytes 32 (unat h)"

definition domain_tag :: string where
  "domain_tag = ''hort-evchain/v1'' @ [char_of (0 :: nat)]"

definition genesis_preimage :: string where
  "genesis_preimage = ''hort-event-chain/v1/genesis''"

definition genesis_hash :: "sha256 \<Rightarrow> event_hash" where
  "genesis_hash sha = sha genesis_preimage"

record actor_canonical =
  ac_actor_type :: string
  ac_actor_id :: "uuid option"
  ac_actor_source_file :: "string option"
  ac_actor_spec_digest :: "string option"

record chain_input =
  ci_prev_event_hash :: event_hash
  ci_event_id :: uuid
  ci_stream_id :: string
  ci_stream_category :: string
  ci_stream_position :: u64
  ci_event_type :: string
  ci_event_version :: u32
  ci_payload :: json
  ci_correlation_id :: uuid
  ci_causation_id :: "uuid option"
  ci_actor :: actor_canonical

record stream_row =
  sr_input :: chain_input
  sr_stored_prev :: event_hash
  sr_stored_hash :: event_hash

record chain_row =
  cr_event_data :: json
  cr_event_id :: uuid
  cr_stream_id :: string
  cr_stream_category :: string
  cr_stream_position :: u64
  cr_event_type :: string
  cr_event_version :: u32
  cr_correlation_id :: uuid
  cr_causation_id :: "uuid option"
  cr_actor_type :: string
  cr_actor_id :: "uuid option"
  cr_actor_source_file :: "string option"
  cr_actor_spec_digest :: "string option"
  cr_stored_prev :: event_hash
  cr_stored_hash :: event_hash

definition as_stream_row :: "chain_row \<Rightarrow> stream_row" where
  "as_stream_row r =
     \<lparr>sr_input =
        \<lparr>ci_prev_event_hash = cr_stored_prev r,
         ci_event_id = cr_event_id r,
         ci_stream_id = cr_stream_id r,
         ci_stream_category = cr_stream_category r,
         ci_stream_position = cr_stream_position r,
         ci_event_type = cr_event_type r,
         ci_event_version = cr_event_version r,
         ci_payload = cr_event_data r,
         ci_correlation_id = cr_correlation_id r,
         ci_causation_id = cr_causation_id r,
         ci_actor =
           \<lparr>ac_actor_type = cr_actor_type r, ac_actor_id = cr_actor_id r,
            ac_actor_source_file = cr_actor_source_file r,
            ac_actor_spec_digest = cr_actor_spec_digest r\<rparr>\<rparr>,
      sr_stored_prev = cr_stored_prev r,
      sr_stored_hash = cr_stored_hash r\<rparr>"

section \<open>Canonical encoding\<close>

definition put_lp :: "string \<Rightarrow> string" where
  "put_lp bytes = u64_be (of_nat (length bytes)) @ bytes"

definition put_opt :: "('a \<Rightarrow> string) \<Rightarrow> 'a option \<Rightarrow> string" where
  "put_opt emit v =
     (case v of
        None \<Rightarrow> [char_of (0 :: nat)]
      | Some x \<Rightarrow> char_of (1 :: nat) # emit x)"

text \<open>
  An object is the list of its entries in iteration order; inserting into the rebuilt map in key
  order keeps that order.
\<close>

function (sequential) canonicalize_json :: "json \<Rightarrow> json" where
  "canonicalize_json (JObject entries) =
     JObject (map (\<lambda>(k, v). (k, canonicalize_json v)) (sort_key fst entries))"
| "canonicalize_json (JArray items) = JArray (map canonicalize_json items)"
| "canonicalize_json scalar = scalar"
  by pat_completeness auto

termination canonicalize_json
  by (relation "measure size") (auto simp: less_Suc_eq_le intro: size_list_estimation' order_trans
      [OF _ size_list_estimation' [where f = "size_prod (\<lambda>_. 0) size"]])

definition canonical_payload_bytes :: "to_vec \<Rightarrow> json \<Rightarrow> string" where
  "canonical_payload_bytes ser payload = ser (canonicalize_json payload)"

definition canonical_event_bytes :: "to_vec \<Rightarrow> chain_input \<Rightarrow> string" where
  "canonical_event_bytes ser i =
     domain_tag @
     hash_bytes (ci_prev_event_hash i) @
     uuid_bytes (ci_event_id i) @
     put_lp (ci_stream_id i) @
     put_lp (ci_stream_category i) @
     u64_be (ci_stream_position i) @
     put_lp (ci_event_type i) @
     u32_be (ci_event_version i) @
     put_lp (canonical_payload_bytes ser (ci_payload i)) @
     uuid_bytes (ci_correlation_id i) @
     put_opt uuid_bytes (ci_causation_id i) @
     put_lp (ac_actor_type (ci_actor i)) @
     put_opt uuid_bytes (ac_actor_id (ci_actor i)) @
     put_opt put_lp (ac_actor_source_file (ci_actor i)) @
     put_opt put_lp (ac_actor_spec_digest (ci_actor i))"

definition compute_event_hash :: "sha256 \<Rightarrow> to_vec \<Rightarrow> chain_input \<Rightarrow> event_hash" where
  "compute_event_hash sha ser i = sha (canonical_event_bytes ser i)"

section \<open>The walk over one stream\<close>

datatype chain_break =
    HashMismatch | PrevMismatch | NonGenesisAtZero | GenesisAtNonZero | PositionGap
  | BreakUnsealedAbsentStream | HeadNotAnchored

datatype stream_verdict =
    ChainOk event_hash u64
  | ChainBroken u64 chain_break
  | SealedGap event_hash

record walk_state =
  w_expected_prev :: event_hash
  w_expected_position :: u64
  w_last_head :: event_hash
  w_last_position :: u64

text \<open>
  The loop of \<^verbatim>\<open>walk_stream_chain\<close>. The closure it calls on every recomputed hash updates the state
  \<open>obs\<close>, which is returned whatever the verdict.
\<close>

fun walk_loop ::
    "sha256 \<Rightarrow> to_vec \<Rightarrow> (u64 \<Rightarrow> event_hash \<Rightarrow> 'o \<Rightarrow> 'o) \<Rightarrow> walk_state \<Rightarrow> 'o \<Rightarrow> stream_row list
     \<Rightarrow> stream_verdict \<times> 'o" where
  "walk_loop sha ser observe w obs [] = (ChainOk (w_last_head w) (w_last_position w), obs)"
| "walk_loop sha ser observe w obs (row # rows) =
     (let pos = ci_stream_position (sr_input row); genesis = genesis_hash sha in
      if pos \<noteq> w_expected_position w then (ChainBroken pos PositionGap, obs)
      else if pos = 0 \<and> sr_stored_prev row \<noteq> genesis then (ChainBroken pos NonGenesisAtZero, obs)
      else if pos \<noteq> 0 \<and> sr_stored_prev row = genesis then (ChainBroken pos GenesisAtNonZero, obs)
      else if sr_stored_prev row \<noteq> w_expected_prev w then (ChainBroken pos PrevMismatch, obs)
      else
        let recomputed = compute_event_hash sha ser (sr_input row); obs' = observe pos recomputed obs in
        if recomputed \<noteq> sr_stored_hash row then (ChainBroken pos HashMismatch, obs')
        else walk_loop sha ser observe
               \<lparr>w_expected_prev = sr_stored_hash row, w_expected_position = pos + 1,
                w_last_head = sr_stored_hash row, w_last_position = pos\<rparr> obs' rows)"

definition walk_start :: "sha256 \<Rightarrow> walk_state" where
  "walk_start sha =
     \<lparr>w_expected_prev = genesis_hash sha, w_expected_position = 0,
      w_last_head = genesis_hash sha, w_last_position = - 1\<rparr>"

definition walk_stream_chain ::
    "sha256 \<Rightarrow> to_vec \<Rightarrow> (u64 \<Rightarrow> event_hash \<Rightarrow> 'o \<Rightarrow> 'o) \<Rightarrow> 'o \<Rightarrow> stream_row list
     \<Rightarrow> stream_verdict \<times> 'o" where
  "walk_stream_chain sha ser observe obs rows = walk_loop sha ser observe (walk_start sha) obs rows"

definition verify_stream_chain :: "sha256 \<Rightarrow> to_vec \<Rightarrow> stream_row list \<Rightarrow> stream_verdict" where
  "verify_stream_chain sha ser rows = fst (walk_stream_chain sha ser (\<lambda>_ _ u. u) () rows)"

section \<open>The encoding is injective\<close>

text \<open>
  Every field either has a fixed width or carries its length in front, so a concatenation of fields
  can be split from the left. \<open>sized\<close> is the bound of the 64-bit length prefix, which every buffer
  in memory respects.
\<close>

named_theorems field_split \<open>equality of encodings that start with the same kind of field\<close>

definition sized :: "string \<Rightarrow> bool" where "sized s \<longleftrightarrow> length s < 2 ^ 64"

lemma be_bytes_inj: "be_bytes n x = be_bytes n y \<Longrightarrow> x < 256 ^ n \<Longrightarrow> y < 256 ^ n \<Longrightarrow> x = y"
proof (induction n arbitrary: x y)
  case (Suc n)
  have "x div 256 = y div 256"
  proof (rule Suc.IH)
    show "be_bytes n (x div 256) = be_bytes n (y div 256)" using Suc.prems(1) by simp
    show "x div 256 < 256 ^ n" "y div 256 < 256 ^ n"
      using Suc.prems(2,3) by (simp_all add: less_mult_imp_div_less mult.commute)
  qed
  moreover have "x mod 256 = y mod 256"
  proof -
    have "(char_of (x mod 256) :: char) = char_of (y mod 256)" using Suc.prems(1) by simp
    then have "of_char (char_of (x mod 256) :: char) = (of_char (char_of (y mod 256) :: char) :: nat)" by simp
    then show ?thesis by simp
  qed
  ultimately show ?case by (metis div_mult_mod_eq)
qed simp

lemma word_be_inj:
  fixes a b :: "'a::len word"
  assumes "LENGTH('a) = 8 * n"
  shows "be_bytes n (unat a) = be_bytes n (unat b) \<longleftrightarrow> a = b"
proof -
  have "unat w < 256 ^ n" for w :: "'a word"
    using unsigned_less [of w, where 'a = nat] assms by (simp add: power_mult)
  then show ?thesis using be_bytes_inj by (metis unsigned_word_eqI)
qed

lemma fixed_width_split [field_split]:
  "hash_bytes g @ x = hash_bytes h @ y \<longleftrightarrow> g = h \<and> x = y"
  "uuid_bytes u @ x = uuid_bytes v @ y \<longleftrightarrow> u = v \<and> x = y"
  "u64_be p @ x = u64_be q @ y \<longleftrightarrow> p = q \<and> x = y"
  "u32_be m @ x = u32_be n @ y \<longleftrightarrow> m = n \<and> x = y"
  by (simp_all add: hash_bytes_def uuid_bytes_def u64_be_def u32_be_def append_eq_append_conv word_be_inj)

lemma sized_length: "sized a \<Longrightarrow> sized b \<Longrightarrow> (of_nat (length a) :: u64) = of_nat (length b) \<longleftrightarrow> length a = length b"
  by (auto simp: sized_def word_of_nat_eq_iff take_bit_nat_eq_self)

lemma put_lp_split [field_split]:
  "sized a \<Longrightarrow> sized b \<Longrightarrow> put_lp a @ x = put_lp b @ y \<longleftrightarrow> a = b \<and> x = y"
  "sized a \<Longrightarrow> sized b \<Longrightarrow> put_lp a = put_lp b \<longleftrightarrow> a = b"
  by (auto simp: put_lp_def fixed_width_split sized_length append_eq_append_conv)

lemma put_opt_split [field_split]:
  "put_opt uuid_bytes a @ x = put_opt uuid_bytes b @ y \<longleftrightarrow> a = b \<and> x = y"
  "pred_option sized c \<Longrightarrow> pred_option sized d \<Longrightarrow> put_opt put_lp c @ x = put_opt put_lp d @ y \<longleftrightarrow> c = d \<and> x = y"
  "pred_option sized c \<Longrightarrow> pred_option sized d \<Longrightarrow> put_opt put_lp c = put_opt put_lp d \<longleftrightarrow> c = d"
proof -
  have tags: "(char_of (0 :: nat) :: char) \<noteq> char_of (1 :: nat)"
    by (metis char_of_eq_iff of_char_of zero_neq_one mod_less one_less_numeral_iff semiring_norm(76) zero_less_numeral)
  show "put_opt uuid_bytes a @ x = put_opt uuid_bytes b @ y \<longleftrightarrow> a = b \<and> x = y"
    using tags tags [symmetric] by (auto simp: put_opt_def fixed_width_split split: option.split)
  show "put_opt put_lp c @ x = put_opt put_lp d @ y \<longleftrightarrow> c = d \<and> x = y"
    if "pred_option sized c" "pred_option sized d"
    using that tags tags [symmetric] by (auto simp: put_opt_def put_lp_split split: option.splits)
  show "put_opt put_lp c = put_opt put_lp d \<longleftrightarrow> c = d"
    if "pred_option sized c" "pred_option sized d"
    using that tags tags [symmetric] by (auto simp: put_opt_def put_lp_split split: option.splits)
qed

lemma put_opt_uuid_eq [field_split]: "put_opt uuid_bytes a = put_opt uuid_bytes b \<longleftrightarrow> a = b"
  using put_opt_split(1) [of a "[]" b "[]"] by simp

definition input_sized :: "to_vec \<Rightarrow> chain_input \<Rightarrow> bool" where
  "input_sized ser i \<longleftrightarrow>
     list_all sized [ci_stream_id i, ci_stream_category i, ci_event_type i,
       canonical_payload_bytes ser (ci_payload i), ac_actor_type (ci_actor i)] \<and>
     pred_option sized (ac_actor_source_file (ci_actor i)) \<and>
     pred_option sized (ac_actor_spec_digest (ci_actor i))"

text \<open>What the hash attests of an event: all of it, with the payload's keys in order.\<close>

definition attested :: "chain_input \<Rightarrow> chain_input" where
  "attested i = i\<lparr>ci_payload := canonicalize_json (ci_payload i)\<rparr>"

lemma canonical_bytes_inj:
  assumes "input_sized ser i" and "input_sized ser j"
    and "canonical_event_bytes ser i = canonical_event_bytes ser j"
    and "ser (canonicalize_json (ci_payload i)) = ser (canonicalize_json (ci_payload j)) \<Longrightarrow>
      canonicalize_json (ci_payload i) = canonicalize_json (ci_payload j)"
  shows "attested i = attested j"
proof -
  have "ci_actor i = ci_actor j"
    using assms(1-3)
    by (cases "ci_actor i"; cases "ci_actor j")
      (simp add: canonical_event_bytes_def input_sized_def field_split)
  moreover have "canonicalize_json (ci_payload i) = canonicalize_json (ci_payload j)"
    using assms by (simp add: canonical_event_bytes_def input_sized_def field_split canonical_payload_bytes_def)
  ultimately show ?thesis
    using assms(1-3)
    by (cases i; cases j)
      (simp add: canonical_event_bytes_def input_sized_def field_split attested_def)
qed

section \<open>What the walk accepts\<close>

definition at_head :: "event_hash \<Rightarrow> u64 \<Rightarrow> walk_state" where
  "at_head h p = \<lparr>w_expected_prev = h, w_expected_position = p + 1, w_last_head = h, w_last_position = p\<rparr>"

text \<open>A row continues a chain whose head is \<open>h\<close> at position \<open>p\<close>.\<close>

definition link_ok :: "sha256 \<Rightarrow> to_vec \<Rightarrow> event_hash \<Rightarrow> u64 \<Rightarrow> stream_row \<Rightarrow> bool" where
  "link_ok sha ser h p row \<longleftrightarrow>
     ci_stream_position (sr_input row) = p + 1 \<and>
     (ci_stream_position (sr_input row) = 0 \<longleftrightarrow> sr_stored_prev row = genesis_hash sha) \<and>
     sr_stored_prev row = h \<and>
     compute_event_hash sha ser (sr_input row) = sr_stored_hash row"

declare walk_loop.simps [simp del]

lemma walk_start_at_head: "walk_start sha = at_head (genesis_hash sha) (- 1)"
  by (simp add: walk_start_def at_head_def)

lemma walk_at_head_Nil [simp]: "walk_loop sha ser observe (at_head h p) obs [] = (ChainOk h p, obs)"
  by (simp add: at_head_def walk_loop.simps)

lemma walk_link:
  assumes "link_ok sha ser h p row"
  shows "walk_loop sha ser observe (at_head h p) obs (row # rows) =
    walk_loop sha ser observe (at_head (sr_stored_hash row) (ci_stream_position (sr_input row)))
      (observe (ci_stream_position (sr_input row)) (sr_stored_hash row) obs) rows"
  using assms by (auto simp: at_head_def link_ok_def Let_def walk_loop.simps)

lemma walk_no_link:
  assumes "\<not> link_ok sha ser h p row"
  shows "\<exists>reason. fst (walk_loop sha ser observe (at_head h p) obs (row # rows)) =
    ChainBroken (ci_stream_position (sr_input row)) reason"
  using assms by (auto simp: at_head_def link_ok_def Let_def walk_loop.simps)

lemma walk_append:
  "fst (walk_loop sha ser observe (at_head h p) obs (xs @ ys)) = ChainOk h' p' \<longleftrightarrow>
   (\<exists>hm pm obs'. walk_loop sha ser observe (at_head h p) obs xs = (ChainOk hm pm, obs') \<and>
      fst (walk_loop sha ser observe (at_head hm pm) obs' ys) = ChainOk h' p')"
proof (induction xs arbitrary: h p obs)
  case (Cons row xs)
  show ?case
  proof (cases "link_ok sha ser h p row")
    case True
    then show ?thesis by (simp only: append_Cons walk_link [OF True] Cons.IH)
  next
    case False
    have no: "fst (walk_loop sha ser observe (at_head h p) obs (row # zs)) \<noteq> ChainOk a b" for zs a b
      using walk_no_link [OF False, of observe obs zs] by auto
    have "walk_loop sha ser observe (at_head h p) obs (row # xs) \<noteq> (ChainOk a b, c)" for a b c
    proof
      assume "walk_loop sha ser observe (at_head h p) obs (row # xs) = (ChainOk a b, c)"
      with no [of xs a b] show False by simp
    qed
    with no [of "xs @ ys"] show ?thesis by simp
  qed
qed simp

text \<open>The verdict does not depend on what the closure observes.\<close>

lemma walk_verdict:
  "fst (walk_loop sha ser observe (at_head h p) obs rows) = fst (walk_loop sha ser observe' (at_head h p) obs' rows)"
proof (induction rows arbitrary: h p obs obs')
  case (Cons row rows)
  show ?case
  proof (cases "link_ok sha ser h p row")
    case True
    show ?thesis by (simp only: walk_link [OF True]) (rule Cons.IH)
  next
    case False
    then show ?thesis by (auto simp: at_head_def link_ok_def Let_def walk_loop.simps)
  qed
qed simp

lemma walk_never_sealed: "fst (walk_loop sha ser observe (at_head h p) obs rows) \<noteq> SealedGap g"
proof (induction rows arbitrary: h p obs)
  case (Cons row rows)
  then show ?case
    using walk_no_link [of sha ser h p row observe obs rows]
    by (cases "link_ok sha ser h p row") (auto simp: walk_link)
qed simp

lemma verify_snoc:
  "verify_stream_chain sha ser (rows @ [row]) = ChainOk h p \<longleftrightarrow>
   (\<exists>hm pm. verify_stream_chain sha ser rows = ChainOk hm pm \<and> link_ok sha ser hm pm row \<and>
      h = sr_stored_hash row \<and> p = ci_stream_position (sr_input row))"
proof -
  have one: "fst (walk_loop sha ser observe (at_head a b) obs [row]) = ChainOk h p \<longleftrightarrow>
      link_ok sha ser a b row \<and> h = sr_stored_hash row \<and> p = ci_stream_position (sr_input row)"
    for observe :: "u64 \<Rightarrow> event_hash \<Rightarrow> unit \<Rightarrow> unit" and obs a b
    using walk_no_link [of sha ser a b row observe obs "[]"]
    by (cases "link_ok sha ser a b row") (auto simp: walk_link)
  show ?thesis
    unfolding verify_stream_chain_def walk_stream_chain_def walk_start_at_head walk_append one
    by (metis fst_conv prod.collapse)
qed

lemma verify_Nil [simp]: "verify_stream_chain sha ser [] = ChainOk (genesis_hash sha) (- 1)"
  by (simp add: verify_stream_chain_def walk_stream_chain_def walk_start_at_head)

text \<open>Well-linked rows, by index.\<close>

definition row_linked :: "sha256 \<Rightarrow> to_vec \<Rightarrow> stream_row list \<Rightarrow> nat \<Rightarrow> bool" where
  "row_linked sha ser rows i \<longleftrightarrow>
     ci_stream_position (sr_input (rows ! i)) = of_nat i \<and>
     sr_stored_prev (rows ! i) = (if i = 0 then genesis_hash sha else sr_stored_hash (rows ! (i - 1))) \<and>
     (ci_stream_position (sr_input (rows ! i)) = 0 \<longleftrightarrow> sr_stored_prev (rows ! i) = genesis_hash sha) \<and>
     compute_event_hash sha ser (sr_input (rows ! i)) = sr_stored_hash (rows ! i)"

definition well_linked :: "sha256 \<Rightarrow> to_vec \<Rightarrow> stream_row list \<Rightarrow> bool" where
  "well_linked sha ser rows \<longleftrightarrow> (\<forall>i<length rows. row_linked sha ser rows i)"

definition head_of :: "sha256 \<Rightarrow> stream_row list \<Rightarrow> event_hash" where
  "head_of sha rows = (if rows = [] then genesis_hash sha else sr_stored_hash (last rows))"

lemma well_linked_snoc:
  "well_linked sha ser (rows @ [row]) \<longleftrightarrow>
   well_linked sha ser rows \<and> link_ok sha ser (head_of sha rows) (of_nat (length rows) - 1) row"
proof -
  have old: "row_linked sha ser (rows @ [row]) i \<longleftrightarrow> row_linked sha ser rows i" if "i < length rows" for i
  proof -
    have "(rows @ [row]) ! i = rows ! i" "(rows @ [row]) ! (i - 1) = rows ! (i - 1)"
      using that by (simp_all add: nth_append)
    then show ?thesis by (simp only: row_linked_def)
  qed
  have prev: "(if length rows = 0 then genesis_hash sha else sr_stored_hash ((rows @ [row]) ! (length rows - 1)))
      = head_of sha rows"
    by (cases rows rule: rev_cases) (simp_all add: head_of_def nth_append)
  have "row_linked sha ser (rows @ [row]) (length rows) \<longleftrightarrow>
      link_ok sha ser (head_of sha rows) (of_nat (length rows) - 1) row"
    unfolding row_linked_def prev by (simp add: link_ok_def) blast
  then show ?thesis
    using old by (simp only: well_linked_def length_append_singleton less_Suc_eq) blast
qed

lemma verify_iff_well_linked:
  "verify_stream_chain sha ser rows = ChainOk h p \<longleftrightarrow>
   well_linked sha ser rows \<and> p = of_nat (length rows) - 1 \<and> h = head_of sha rows"
proof (induction rows arbitrary: h p rule: rev_induct)
  case Nil
  show ?case by (auto simp: well_linked_def head_of_def)
next
  case (snoc row rows)
  have "head_of sha (rows @ [row]) = sr_stored_hash row" by (simp add: head_of_def)
  moreover have "(of_nat (length (rows @ [row])) - 1 :: u64) = of_nat (length rows)" by simp
  moreover have "ci_stream_position (sr_input row) = of_nat (length rows)"
    if "link_ok sha ser (head_of sha rows) (of_nat (length rows) - 1) row"
    using that by (simp add: link_ok_def)
  ultimately show ?case
    unfolding verify_snoc snoc.IH well_linked_snoc by metis
qed

section \<open>Tamper evidence\<close>

text \<open>
  No two of the inputs at hand collide: not under SHA-256 (nor with the genesis message), not under
  JSON serialisation of their payloads, and their fields fit the length prefixes.
\<close>

definition collision_free :: "sha256 \<Rightarrow> to_vec \<Rightarrow> chain_input set \<Rightarrow> bool" where
  "collision_free sha ser I \<longleftrightarrow>
     inj_on sha (insert genesis_preimage (canonical_event_bytes ser ` I)) \<and>
     inj_on ser ((\<lambda>i. canonicalize_json (ci_payload i)) ` I) \<and>
     (\<forall>i\<in>I. input_sized ser i)"

lemma not_genesis: "canonical_event_bytes ser i \<noteq> genesis_preimage"
  by (simp add: canonical_event_bytes_def domain_tag_def genesis_preimage_def)

lemma collision_free_hash:
  assumes "collision_free sha ser I" and "i \<in> I" and "j \<in> I"
    and "compute_event_hash sha ser i = compute_event_hash sha ser j"
  shows "attested i = attested j"
proof (rule canonical_bytes_inj)
  show "input_sized ser i" "input_sized ser j" using assms(1-3) by (simp_all add: collision_free_def)
  show "canonical_event_bytes ser i = canonical_event_bytes ser j"
    using assms by (auto simp: collision_free_def compute_event_hash_def dest: inj_onD)
  show "canonicalize_json (ci_payload i) = canonicalize_json (ci_payload j)"
    if "ser (canonicalize_json (ci_payload i)) = ser (canonicalize_json (ci_payload j))"
    using that assms(1-3) by (auto simp: collision_free_def dest: inj_onD)
qed

lemma collision_free_genesis:
  assumes "collision_free sha ser I" and "i \<in> I"
  shows "compute_event_hash sha ser i \<noteq> genesis_hash sha"
proof
  assume "compute_event_hash sha ser i = genesis_hash sha"
  then have "canonical_event_bytes ser i = genesis_preimage"
    using assms unfolding collision_free_def compute_event_hash_def genesis_hash_def
    by (auto intro: inj_onD)
  then show False using not_genesis by blast
qed

abbreviation views :: "chain_row list \<Rightarrow> stream_row list" where
  "views rows \<equiv> map as_stream_row rows"

definition content :: "chain_row \<Rightarrow> chain_input" where
  "content r = attested (sr_input (as_stream_row r))"

lemma as_stream_row_simps [simp]:
  "ci_prev_event_hash (sr_input (as_stream_row r)) = cr_stored_prev r"
  "ci_stream_position (sr_input (as_stream_row r)) = cr_stream_position r"
  "sr_stored_prev (as_stream_row r) = cr_stored_prev r"
  "sr_stored_hash (as_stream_row r) = cr_stored_hash r"
  by (simp_all add: as_stream_row_def)

lemma content_prev: "content r = content r' \<Longrightarrow> cr_stored_prev r = cr_stored_prev r'"
  by (metis as_stream_row_simps(1) attested_def chain_input.select_convs(1) chain_input.surjective
      chain_input.update_convs(8) content_def)

lemma same_head_same_chain:
  assumes "collision_free sha ser ((\<lambda>r. sr_input (as_stream_row r)) ` (set rows \<union> set rows'))"
    and "verify_stream_chain sha ser (views rows) = ChainOk h p"
    and "verify_stream_chain sha ser (views rows') = ChainOk h p'"
  shows "map (\<lambda>r. (content r, cr_stored_hash r)) rows = map (\<lambda>r. (content r, cr_stored_hash r)) rows'"
  using assms
proof (induction rows arbitrary: rows' h p p' rule: rev_induct)
  case Nil
  show ?case
  proof (cases rows' rule: rev_cases)
    case (snoc ys y)
    with Nil.prems(2,3) have "compute_event_hash sha ser (sr_input (as_stream_row y)) = genesis_hash sha"
      by (auto simp: verify_snoc link_ok_def)
    with collision_free_genesis [OF Nil.prems(1)] snoc show ?thesis by simp
  qed simp
next
  case (snoc x xs)
  obtain hx px where x: "verify_stream_chain sha ser (views xs) = ChainOk hx px"
      "link_ok sha ser hx px (as_stream_row x)" "h = cr_stored_hash x"
    using snoc.prems(2) by (auto simp: verify_snoc)
  consider "rows' = []" | ys y where "rows' = ys @ [y]" by (cases rows' rule: rev_cases) auto
  then show ?case
  proof cases
    case 1
    with snoc.prems(3) x have "compute_event_hash sha ser (sr_input (as_stream_row x)) = genesis_hash sha"
      by (auto simp: link_ok_def)
    with collision_free_genesis [OF snoc.prems(1)] show ?thesis by simp
  next
    case 2
    obtain hy py where y: "verify_stream_chain sha ser (views ys) = ChainOk hy py"
        "link_ok sha ser hy py (as_stream_row y)" "h = cr_stored_hash y"
      using snoc.prems(3) unfolding 2 by (auto simp: verify_snoc)
    have "content x = content y"
      unfolding content_def
      by (rule collision_free_hash [OF snoc.prems(1)]) (use x y in \<open>auto simp: 2 link_ok_def\<close>)
    moreover from content_prev [OF this] have "hx = hy" using x(2) y(2) by (simp add: link_ok_def)
    moreover have "collision_free sha ser ((\<lambda>r. sr_input (as_stream_row r)) ` (set xs \<union> set ys))"
      using snoc.prems(1) unfolding 2 collision_free_def
      by (auto elim!: inj_on_subset)
    ultimately show ?thesis
      using snoc.IH [of ys hx px py] x y by (simp add: 2)
  qed
qed

lemma canonicalize_key_order:
  assumes "mset kvs = mset kvs'" and "distinct (map fst kvs)"
  shows "canonicalize_json (JObject kvs) = canonicalize_json (JObject kvs')"
proof -
  have "sort_key fst kvs = sort_key fst kvs'"
    using assms by (intro sort_key_inj_key_eq) (auto simp: distinct_map)
  then show ?thesis by simp
qed

section \<open>Properties\<close>

text \<open>
  A stream of one event under stand-ins for the two third-party functions: the hash of a message is
  its length, and every payload is written the same way.
\<close>

definition sample_sha :: sha256 where "sample_sha s = of_nat (length s)"
definition sample_ser :: to_vec where "sample_ser v = ''{}''"

definition blank_row :: chain_row where
  "blank_row =
     \<lparr>cr_event_data = JObject [(''type'', JString ''ArtifactDeleted''), (''data'', JNull)], cr_event_id = 1,
      cr_stream_id = ''artifact-1'', cr_stream_category = ''artifact'', cr_stream_position = 0,
      cr_event_type = ''ArtifactDeleted'', cr_event_version = 1, cr_correlation_id = 2,
      cr_causation_id = None, cr_actor_type = ''system'', cr_actor_id = None,
      cr_actor_source_file = None, cr_actor_spec_digest = None,
      cr_stored_prev = genesis_hash sample_sha, cr_stored_hash = 0\<rparr>"

definition sample_row :: chain_row where
  "sample_row =
     blank_row\<lparr>cr_stored_hash := compute_event_hash sample_sha sample_ser (sr_input (as_stream_row blank_row))\<rparr>"

lemma length_fields:
  "length (u32_be m) = 4" "length (u64_be p) = 8" "length (uuid_bytes u) = 16" "length (hash_bytes h) = 32"
  "length (put_lp s) = 8 + length s"
  by (simp_all add: u32_be_def u64_be_def uuid_bytes_def hash_bytes_def put_lp_def)

lemma sample_row_input: "sr_input (as_stream_row sample_row) = sr_input (as_stream_row blank_row)"
  by (simp add: sample_row_def as_stream_row_def)

lemma sample_row_verifies:
  "verify_stream_chain sample_sha sample_ser (views [sample_row]) = ChainOk (cr_stored_hash sample_row) 0"
proof -
  have "link_ok sample_sha sample_ser (genesis_hash sample_sha) (- 1) (as_stream_row sample_row)"
    by (simp add: link_ok_def sample_row_input) (simp add: sample_row_def blank_row_def)
  then show ?thesis
    using verify_snoc [of sample_sha sample_ser "[]" "as_stream_row sample_row"]
    by (simp add: link_ok_def)
qed

lemma sample_row_collision_free:
  "collision_free sample_sha sample_ser {sr_input (as_stream_row sample_row)}"
  unfolding sample_row_input
  by (simp add: collision_free_def inj_on_def input_sized_def sized_def canonical_payload_bytes_def
      sample_ser_def sample_sha_def blank_row_def as_stream_row_def canonical_event_bytes_def length_fields
      put_opt_def domain_tag_def genesis_preimage_def)

text \<open>The same row with the keys of its payload in the other order.\<close>

definition swapped_row :: chain_row where
  "swapped_row = sample_row\<lparr>cr_event_data := JObject [(''data'', JNull), (''type'', JString ''ArtifactDeleted'')]\<rparr>"

lemma swapped_payload:
  "canonicalize_json (ci_payload (sr_input (as_stream_row swapped_row)))
     = canonicalize_json (ci_payload (sr_input (as_stream_row sample_row)))"
proof -
  have "canonicalize_json (JObject [(''data'', JNull), (''type'', JString ''ArtifactDeleted'')])
      = canonicalize_json (JObject [(''type'', JString ''ArtifactDeleted''), (''data'', JNull)])"
    by (rule canonicalize_key_order) simp_all
  then show ?thesis by (simp add: swapped_row_def sample_row_def blank_row_def as_stream_row_def)
qed

lemma swapped_bytes:
  "canonical_event_bytes ser (sr_input (as_stream_row swapped_row))
     = canonical_event_bytes ser (sr_input (as_stream_row sample_row))"
  by (simp only: canonical_event_bytes_def canonical_payload_bytes_def swapped_payload)
    (simp add: swapped_row_def as_stream_row_def)

lemma swapped_row_verifies:
  "verify_stream_chain sample_sha sample_ser (views [swapped_row]) = ChainOk (cr_stored_hash sample_row) 0"
proof -
  have "link_ok sample_sha sample_ser (genesis_hash sample_sha) (- 1) (as_stream_row swapped_row)"
    by (simp add: link_ok_def compute_event_hash_def swapped_bytes sample_row_input)
      (simp add: swapped_row_def sample_row_def blank_row_def compute_event_hash_def)
  moreover have "cr_stored_hash swapped_row = cr_stored_hash sample_row" by (simp add: swapped_row_def)
  ultimately show ?thesis
    using verify_snoc [of sample_sha sample_ser "[]" "as_stream_row swapped_row"]
    by (simp add: link_ok_def)
qed

lemma swapped_row_collision_free:
  "collision_free sample_sha sample_ser
     {sr_input (as_stream_row sample_row), sr_input (as_stream_row swapped_row)}"
proof -
  have "input_sized sample_ser (sr_input (as_stream_row swapped_row))"
    using sample_row_collision_free
    by (simp add: collision_free_def input_sized_def canonical_payload_bytes_def swapped_payload)
      (simp add: swapped_row_def as_stream_row_def)
  then show ?thesis
    using sample_row_collision_free by (simp add: collision_free_def swapped_bytes swapped_payload)
qed

text \<open>
  The bytes that are hashed determine the event. Two events with the same canonical bytes agree
  on every column the hash binds, and on their payloads up to the order of object keys, provided the
  fields fit their 64-bit length prefixes and the serialiser keeps the two payloads apart; and
  reordering the keys of an object does not change its canonical form.
\<close>

theorem canonical_encoding_injective:
  assumes "input_sized ser i" and "input_sized ser j"
    and "canonical_event_bytes ser i = canonical_event_bytes ser j"
    and "inj_on ser {canonicalize_json (ci_payload i), canonicalize_json (ci_payload j)}"
  shows "attested i = attested j \<and>
    (\<forall>kvs kvs'. mset kvs = mset kvs' \<and> distinct (map fst kvs) \<longrightarrow>
       canonicalize_json (JObject kvs) = canonicalize_json (JObject kvs'))"
proof (intro conjI allI impI)
  show "attested i = attested j"
    using assms by (intro canonical_bytes_inj) (auto dest: inj_onD)
qed (blast intro: canonicalize_key_order)

theorem canonical_encoding_injective_witness:
  "attested (sr_input (as_stream_row sample_row)) = attested (sr_input (as_stream_row swapped_row))"
  using canonical_encoding_injective [of sample_ser "sr_input (as_stream_row sample_row)"
      "sr_input (as_stream_row swapped_row)"] swapped_row_collision_free
  by (simp add: collision_free_def swapped_bytes swapped_payload)

text \<open>
  C37. The walk accepts exactly the well-linked streams: positions count up from zero, the first row
  names the genesis sentinel as its predecessor and no other does, every other row names the hash of
  the row before it, and every stored hash is the hash of its row. The verdict then carries the last
  row's hash and position. On any other stream the walk reports a break.
\<close>

theorem verify_accepts_exactly_linked:
  "(well_linked sha ser rows \<longrightarrow>
      verify_stream_chain sha ser rows = ChainOk (head_of sha rows) (of_nat (length rows) - 1)) \<and>
   (\<not> well_linked sha ser rows \<longrightarrow> (\<exists>at_position reason. verify_stream_chain sha ser rows = ChainBroken at_position reason))"
proof (intro conjI impI)
  show "verify_stream_chain sha ser rows = ChainOk (head_of sha rows) (of_nat (length rows) - 1)"
    if "well_linked sha ser rows"
    using that by (simp add: verify_iff_well_linked)
  assume "\<not> well_linked sha ser rows"
  moreover have "verify_stream_chain sha ser rows \<noteq> SealedGap h" for h
    by (simp add: verify_stream_chain_def walk_stream_chain_def walk_start_at_head walk_never_sealed)
  ultimately show "\<exists>at_position reason. verify_stream_chain sha ser rows = ChainBroken at_position reason"
    by (cases "verify_stream_chain sha ser rows") (auto simp: verify_iff_well_linked)
qed

theorem verify_accepts_exactly_linked_witness:
  "verify_stream_chain sample_sha sample_ser (views [sample_row])
     = ChainOk (head_of sample_sha (views [sample_row])) (of_nat (length (views [sample_row])) - 1)"
  using verify_accepts_exactly_linked [of sample_sha sample_ser "views [sample_row]"] sample_row_verifies
  by (metis stream_verdict.distinct(1))

text \<open>
  C13. Tampering with a stream changes its head. If two versions of a stream both verify and end in
  the same hash, and no two of the messages hashed in them collide, then they have the same rows: the
  same number of events, with the same bound columns, payloads and stored hashes, in the same order.
\<close>

theorem chain_is_tamper_evident:
  assumes "collision_free sha ser ((\<lambda>r. sr_input (as_stream_row r)) ` (set rows \<union> set rows'))"
    and "verify_stream_chain sha ser (views rows) = ChainOk h p"
    and "verify_stream_chain sha ser (views rows') = ChainOk h p'"
  shows "map content rows = map content rows' \<and> map cr_stored_hash rows = map cr_stored_hash rows' \<and>
    length rows = length rows' \<and> p = p'"
proof -
  have same: "map (\<lambda>r. (content r, cr_stored_hash r)) rows = map (\<lambda>r. (content r, cr_stored_hash r)) rows'"
    by (rule same_head_same_chain [OF assms])
  then have "map fst (map (\<lambda>r. (content r, cr_stored_hash r)) rows) = map fst (map (\<lambda>r. (content r, cr_stored_hash r)) rows')"
    and "map snd (map (\<lambda>r. (content r, cr_stored_hash r)) rows) = map snd (map (\<lambda>r. (content r, cr_stored_hash r)) rows')"
    by simp_all
  moreover have "length rows = length rows'" using same by (rule map_eq_imp_length_eq)
  moreover from this have "p = p'" using assms(2,3) by (simp add: verify_iff_well_linked)
  ultimately show ?thesis by (simp add: comp_def)
qed

theorem chain_is_tamper_evident_witness:
  "map content [sample_row] = map content [swapped_row] \<and> cr_event_data sample_row \<noteq> cr_event_data swapped_row"
proof
  show "map content [sample_row] = map content [swapped_row]"
    using chain_is_tamper_evident [of sample_sha sample_ser "[sample_row]" "[swapped_row]", OF _ sample_row_verifies
        swapped_row_verifies] swapped_row_collision_free by (simp add: insert_commute)
  show "cr_event_data sample_row \<noteq> cr_event_data swapped_row"
    by (simp add: swapped_row_def sample_row_def blank_row_def)
qed

end
