(* ===== verification/Event_Streams.thy ===== *)
theory Event_Streams
  imports Event_Chain
begin

text \<open>
  Stream identifiers and actors (\<^verbatim>\<open>events/mod.rs\<close>), and the columns they are stored in
  (\<^verbatim>\<open>hort-adapters-postgres/src/mappers.rs\<close>). The text form of a UUID comes from the \<^verbatim>\<open>uuid\<close> crate:
  \<open>uuid_str\<close> prints one, \<open>uuid_parse\<close> reads one, and \<open>new_v5\<close> derives one from a name.
\<close>

section \<open>Streams\<close>

datatype stream_category =
    CatArtifact | CatPolicy | CatAdmin | CatRef | CatArtifactGroup | CatCuration | CatRepository
  | CatAuthAttempts | CatAuthorization | CatUser | CatDownloadAudit | CatTokenUse | CatRetentionPolicy

fun requires_admin :: "stream_category \<Rightarrow> bool" where
  "requires_admin CatArtifact = False"
| "requires_admin CatArtifactGroup = False"
| "requires_admin CatRef = False"
| "requires_admin CatCuration = False"
| "requires_admin CatRepository = False"
| "requires_admin CatPolicy = True"
| "requires_admin CatAdmin = True"
| "requires_admin CatAuthorization = True"
| "requires_admin CatUser = True"
| "requires_admin CatAuthAttempts = True"
| "requires_admin CatDownloadAudit = True"
| "requires_admin CatTokenUse = True"
| "requires_admin CatRetentionPolicy = True"

record stream_id =
  si_category :: stream_category
  si_entity_id :: uuid

text \<open>
  The category appears in three tables of the code: in the text form of a stream identifier, in the
  category column of a row, and in the label the category reads bind.
\<close>

fun category_display :: "stream_category \<Rightarrow> string" where
  "category_display CatArtifact = ''artifact''"
| "category_display CatPolicy = ''policy''"
| "category_display CatAdmin = ''admin''"
| "category_display CatRef = ''ref''"
| "category_display CatArtifactGroup = ''artifact_group''"
| "category_display CatCuration = ''curation''"
| "category_display CatRepository = ''repository''"
| "category_display CatAuthAttempts = ''auth''"
| "category_display CatAuthorization = ''authorization''"
| "category_display CatUser = ''user''"
| "category_display CatDownloadAudit = ''download_audit''"
| "category_display CatTokenUse = ''token_use''"
| "category_display CatRetentionPolicy = ''retention_policy''"

definition stream_id_to_string :: "(uuid \<Rightarrow> string) \<Rightarrow> stream_id \<Rightarrow> string" where
  "stream_id_to_string uuid_str s = category_display (si_category s) @ ''-'' @ uuid_str (si_entity_id s)"

fun category_column :: "stream_category \<Rightarrow> string" where
  "category_column CatArtifact = ''artifact''"
| "category_column CatPolicy = ''policy''"
| "category_column CatAdmin = ''admin''"
| "category_column CatRef = ''ref''"
| "category_column CatArtifactGroup = ''artifact_group''"
| "category_column CatCuration = ''curation''"
| "category_column CatRepository = ''repository''"
| "category_column CatAuthAttempts = ''auth''"
| "category_column CatAuthorization = ''authorization''"
| "category_column CatUser = ''user''"
| "category_column CatDownloadAudit = ''download_audit''"
| "category_column CatTokenUse = ''token_use''"
| "category_column CatRetentionPolicy = ''retention_policy''"

definition stream_id_to_columns :: "(uuid \<Rightarrow> string) \<Rightarrow> stream_id \<Rightarrow> string \<times> string" where
  "stream_id_to_columns uuid_str s = (stream_id_to_string uuid_str s, category_column (si_category s))"

fun category_label :: "stream_category \<Rightarrow> string" where
  "category_label CatArtifact = ''artifact''"
| "category_label CatPolicy = ''policy''"
| "category_label CatAdmin = ''admin''"
| "category_label CatRef = ''ref''"
| "category_label CatArtifactGroup = ''artifact_group''"
| "category_label CatCuration = ''curation''"
| "category_label CatRepository = ''repository''"
| "category_label CatAuthAttempts = ''auth''"
| "category_label CatAuthorization = ''authorization''"
| "category_label CatUser = ''user''"
| "category_label CatDownloadAudit = ''download_audit''"
| "category_label CatTokenUse = ''token_use''"
| "category_label CatRetentionPolicy = ''retention_policy''"

text \<open>\<^verbatim>\<open>str::split_once\<close>: the text before and after the first occurrence of a character.\<close>

fun split_once :: "char \<Rightarrow> string \<Rightarrow> (string \<times> string) option" where
  "split_once c [] = None"
| "split_once c (d # ds) =
     (if d = c then Some ([], ds) else map_option (\<lambda>(a, b). (d # a, b)) (split_once c ds))"

datatype stream_id_error = InvalidStreamIdFormat string | UnknownStreamCategory string | InvalidStreamUuid string

definition category_parse :: "string \<Rightarrow> stream_category option" where
  "category_parse s =
     (if s = ''artifact'' then Some CatArtifact
      else if s = ''policy'' then Some CatPolicy
      else if s = ''admin'' then Some CatAdmin
      else if s = ''ref'' then Some CatRef
      else if s = ''artifact_group'' then Some CatArtifactGroup
      else if s = ''curation'' then Some CatCuration
      else if s = ''repository'' then Some CatRepository
      else if s = ''auth'' then Some CatAuthAttempts
      else if s = ''authorization'' then Some CatAuthorization
      else if s = ''user'' then Some CatUser
      else if s = ''download_audit'' then Some CatDownloadAudit
      else if s = ''token_use'' then Some CatTokenUse
      else if s = ''retention_policy'' then Some CatRetentionPolicy
      else None)"

definition stream_id_from_str ::
    "(string \<Rightarrow> uuid option) \<Rightarrow> string \<Rightarrow> stream_id_error domain_error + stream_id" where
  "stream_id_from_str uuid_parse s =
     (case split_once (CHR ''-'') s of
        None \<Rightarrow> Inl (Validation (InvalidStreamIdFormat s))
      | Some (cat_str, uuid_text) \<Rightarrow>
          (case category_parse cat_str of
             None \<Rightarrow> Inl (Validation (UnknownStreamCategory cat_str))
           | Some category \<Rightarrow>
               (case uuid_parse uuid_text of
                  None \<Rightarrow> Inl (Validation (InvalidStreamUuid uuid_text))
                | Some entity_id \<Rightarrow> Inr \<lparr>si_category = category, si_entity_id = entity_id\<rparr>)))"

text \<open>\<^verbatim>\<open>StreamId::eventstore_retention\<close>: the stream of retention tombstones.\<close>

definition eventstore_retention :: "(string \<Rightarrow> uuid) \<Rightarrow> stream_id" where
  "eventstore_retention new_v5 =
     \<lparr>si_category = CatAdmin, si_entity_id = new_v5 ''eventstore-retention''\<rparr>"

section \<open>Actors\<close>

datatype internal_actor = SystemActor | TimerActor | RetentionSchedulerActor

record gitops_actor =
  ga_source_file :: string
  ga_spec_digest :: event_hash
  ga_applied_at :: timestamp

datatype actor = ApiActor uuid | InternalActor internal_actor | GitOpsActor gitops_actor

definition timer_actor :: actor where "timer_actor = InternalActor TimerActor"

text \<open>The stored form is the record of the four actor columns.\<close>

fun actor_to_columns :: "actor \<Rightarrow> actor_canonical" where
  "actor_to_columns (ApiActor user_id) =
     \<lparr>ac_actor_type = ''api'', ac_actor_id = Some user_id, ac_actor_source_file = None, ac_actor_spec_digest = None\<rparr>"
| "actor_to_columns (InternalActor SystemActor) =
     \<lparr>ac_actor_type = ''system'', ac_actor_id = None, ac_actor_source_file = None, ac_actor_spec_digest = None\<rparr>"
| "actor_to_columns (InternalActor TimerActor) =
     \<lparr>ac_actor_type = ''timer'', ac_actor_id = None, ac_actor_source_file = None, ac_actor_spec_digest = None\<rparr>"
| "actor_to_columns (InternalActor RetentionSchedulerActor) =
     \<lparr>ac_actor_type = ''retention_scheduler'', ac_actor_id = None, ac_actor_source_file = None, ac_actor_spec_digest = None\<rparr>"
| "actor_to_columns (GitOpsActor g) =
     \<lparr>ac_actor_type = ''gitops'', ac_actor_id = None, ac_actor_source_file = Some (ga_source_file g),
      ac_actor_spec_digest = Some (hash_bytes (ga_spec_digest g))\<rparr>"

datatype actor_error =
    ApiActorMissingUserId
  | InternalActorHasId string
  | GitOpsNeedsColumns
  | UnknownActorType string
  | GitOpsMissingSourceFile
  | GitOpsMissingSpecDigest
  | GitOpsDigestLength nat

definition from_persisted :: "string \<Rightarrow> uuid option \<Rightarrow> actor_error domain_error + actor" where
  "from_persisted actor_type actor_id =
     (if actor_type = ''api'' then
        (case actor_id of Some uid \<Rightarrow> Inr (ApiActor uid) | None \<Rightarrow> Inl (Invariant ApiActorMissingUserId))
      else if actor_type = ''system'' \<and> actor_id = None then Inr (InternalActor SystemActor)
      else if actor_type = ''timer'' \<and> actor_id = None then Inr (InternalActor TimerActor)
      else if actor_type = ''retention_scheduler'' \<and> actor_id = None then
        Inr (InternalActor RetentionSchedulerActor)
      else if actor_type \<in> {''system'', ''timer'', ''retention_scheduler''} then
        Inl (Invariant (InternalActorHasId actor_type))
      else if actor_type = ''gitops'' then Inl (Invariant GitOpsNeedsColumns)
      else Inl (Invariant (UnknownActorType actor_type)))"

definition from_persisted_gitops :: "string \<Rightarrow> event_hash \<Rightarrow> timestamp \<Rightarrow> actor" where
  "from_persisted_gitops source_file spec_digest applied_at =
     GitOpsActor \<lparr>ga_source_file = source_file, ga_spec_digest = spec_digest, ga_applied_at = applied_at\<rparr>"

text \<open>A byte column read into a 32-byte array.\<close>

definition be_value :: "string \<Rightarrow> nat" where "be_value s = foldl (\<lambda>n c. n * 256 + byte_of c) 0 s"

definition hash_of_bytes :: "string \<Rightarrow> event_hash option" where
  "hash_of_bytes s = (if length s = 32 then Some (of_nat (be_value s)) else None)"

text \<open>The actor of a row: the first half of \<^verbatim>\<open>TryFrom<EventRow>\<close>.\<close>

definition actor_from_columns :: "actor_canonical \<Rightarrow> timestamp \<Rightarrow> actor_error domain_error + actor" where
  "actor_from_columns c stored_at =
     (if ac_actor_type c = ''gitops'' then
        (case ac_actor_source_file c of
           None \<Rightarrow> Inl (Invariant GitOpsMissingSourceFile)
         | Some source_file \<Rightarrow>
             (case ac_actor_spec_digest c of
                None \<Rightarrow> Inl (Invariant GitOpsMissingSpecDigest)
              | Some digest_bytes \<Rightarrow>
                  (case hash_of_bytes digest_bytes of
                     None \<Rightarrow> Inl (Invariant (GitOpsDigestLength (length digest_bytes)))
                   | Some digest \<Rightarrow> Inr (from_persisted_gitops source_file digest stored_at))))
      else from_persisted (ac_actor_type c) (ac_actor_id c))"

section \<open>Persisted events\<close>

record 'e persisted_event =
  pe_event_id :: uuid
  pe_stream_id :: stream_id
  pe_stream_position :: u64
  pe_global_position :: u64
  pe_event :: 'e
  pe_correlation_id :: uuid
  pe_causation_id :: "uuid option"
  pe_actor :: actor
  pe_event_version :: u32
  pe_stored_at :: timestamp

section \<open>Reading back what was written\<close>

lemma category_tables_agree: "category_column c = category_display c" "category_label c = category_display c"
  by (cases c; simp)+

lemma category_parse_display [simp]: "category_parse (category_display c) = Some c"
  by (cases c) (simp_all add: category_parse_def)

lemma category_parse_Some: "category_parse s = Some c \<longleftrightarrow> s = category_display c"
  by (cases c) (auto simp: category_parse_def split: if_splits)

lemma category_display_inj: "category_display c = category_display d \<longleftrightarrow> c = d"
  by (metis category_parse_display option.inject)

lemma split_once_append: "c \<notin> set a \<Longrightarrow> split_once c (a @ c # b) = Some (a, b)"
  by (induction a) auto

lemma no_dash_in_category: "CHR ''-'' \<notin> set (category_display c)"
  by (cases c) simp_all

lemma split_stream_id:
  "split_once (CHR ''-'') (stream_id_to_string uuid_str s) = Some (category_display (si_category s), uuid_str (si_entity_id s))"
  using split_once_append [OF no_dash_in_category] by (simp add: stream_id_to_string_def)

lemma stream_id_to_string_inj:
  assumes "stream_id_to_string uuid_str s = stream_id_to_string uuid_str t" and "inj uuid_str"
  shows "s = t"
  using split_stream_id [of uuid_str s] split_stream_id [of uuid_str t] assms
  by (cases s; cases t) (auto simp: category_display_inj dest: injD)

lemma be_value_snoc: "be_value (s @ [c]) = be_value s * 256 + byte_of c"
  by (simp add: be_value_def)

lemma be_value_be_bytes: "x < 256 ^ n \<Longrightarrow> be_value (be_bytes n x) = x"
proof (induction n arbitrary: x)
  case (Suc n)
  then have "be_value (be_bytes n (x div 256)) = x div 256"
    by (simp add: less_mult_imp_div_less mult.commute)
  then show ?case by (simp add: be_value_snoc byte_of_def)
qed (simp add: be_value_def)

lemma hash_of_hash_bytes [simp]: "hash_of_bytes (hash_bytes h) = Some h"
proof -
  have "unat h < 256 ^ 32"
    using unsigned_less [of h, where 'a = nat] by simp
  then show ?thesis by (simp add: hash_of_bytes_def hash_bytes_def be_value_be_bytes)
qed

text \<open>
  What of an actor survives storage: all of it, except the time a gitops actor was applied, which is
  read back as the time the row was stored.
\<close>

fun restored_actor :: "timestamp \<Rightarrow> actor \<Rightarrow> actor" where
  "restored_actor stored_at (GitOpsActor g) = GitOpsActor (g\<lparr>ga_applied_at := stored_at\<rparr>)"
| "restored_actor stored_at a = a"

lemma actor_columns_roundtrip: "actor_from_columns (actor_to_columns a) stored_at = Inr (restored_actor stored_at a)"
  by (cases a rule: actor_to_columns.cases)
    (simp_all add: actor_from_columns_def from_persisted_def from_persisted_gitops_def)

text \<open>A stand-in for the UUID parser that reads the sixteen bytes \<open>uuid_bytes\<close> writes.\<close>

definition sample_uuid_parse :: "string \<Rightarrow> uuid option" where
  "sample_uuid_parse s = Some (of_nat (be_value s))"

lemma sample_uuid_roundtrip: "sample_uuid_parse (uuid_bytes u) = Some u"
proof -
  have "unat u < 256 ^ 16"
    using unsigned_less [of u, where 'a = nat] by simp
  then show ?thesis by (simp add: sample_uuid_parse_def uuid_bytes_def be_value_be_bytes)
qed

text \<open>
  Stream identifiers and actors survive storage. A stream identifier parses back from its text,
  two of them never share a text, and the category column and the label the category reads bind are
  the category in that text; an actor is read back from its columns, up to the time a gitops actor
  was applied, which becomes the time of storage; and the columns never mix: only an API row carries
  an actor id and only a gitops row a source file and a 32-byte digest. The hypothesis is that the
  UUID parser reads what the UUID printer writes.
\<close>

theorem stream_and_actor_roundtrip:
  assumes "\<And>u. uuid_parse (uuid_str u) = Some u"
  shows "stream_id_from_str uuid_parse (stream_id_to_string uuid_str s) = Inr s \<and>
    (stream_id_to_string uuid_str s = stream_id_to_string uuid_str t \<longrightarrow> s = t) \<and>
    snd (stream_id_to_columns uuid_str s) = category_label (si_category s) \<and>
    category_parse (category_label (si_category s)) = Some (si_category s) \<and>
    actor_from_columns (actor_to_columns a) stored_at = Inr (restored_actor stored_at a) \<and>
    (ac_actor_id (actor_to_columns a) \<noteq> None \<longleftrightarrow> ac_actor_type (actor_to_columns a) = ''api'') \<and>
    (ac_actor_source_file (actor_to_columns a) \<noteq> None \<longleftrightarrow> ac_actor_type (actor_to_columns a) = ''gitops'') \<and>
    map_option length (ac_actor_spec_digest (actor_to_columns a)) =
      (if ac_actor_type (actor_to_columns a) = ''gitops'' then Some 32 else None)"
proof (intro conjI impI)
  show "stream_id_from_str uuid_parse (stream_id_to_string uuid_str s) = Inr s"
    by (simp add: stream_id_from_str_def split_stream_id assms)
  show "s = t" if "stream_id_to_string uuid_str s = stream_id_to_string uuid_str t"
    using that by (rule stream_id_to_string_inj) (metis assms injI option.inject)
  show "actor_from_columns (actor_to_columns a) stored_at = Inr (restored_actor stored_at a)"
    by (rule actor_columns_roundtrip)
qed (cases a rule: actor_to_columns.cases;
    simp add: stream_id_to_columns_def category_tables_agree hash_bytes_def)+

theorem stream_and_actor_roundtrip_witness:
  "stream_id_from_str sample_uuid_parse (stream_id_to_string uuid_bytes \<lparr>si_category = CatTokenUse, si_entity_id = 7\<rparr>)
     = Inr \<lparr>si_category = CatTokenUse, si_entity_id = 7\<rparr>"
  using stream_and_actor_roundtrip [of sample_uuid_parse uuid_bytes] sample_uuid_roundtrip by blast

end
