(* ===== verification/Scan_Policy_Fold.thy ===== *)
theory Scan_Policy_Fold
  imports Scan_Policy Event_Streams
begin

text \<open>
  The scan-policy event stream and its fold (\<^verbatim>\<open>entities/scan_policy_fold.rs\<close>,
  \<^verbatim>\<open>events/policy_events.rs\<close>): the per-field encoding that both the field updates and the
  creation snapshot use, the diff of two policies, and the replay of a stream into its
  projection. The derived serde implementations of the scope, the threshold, the string lists
  and the signer patterns are the parameter \<open>codec\<close>.
\<close>

section \<open>Fields\<close>

datatype policy_field =
    FName | FScope | FSeverityThreshold | FQuarantineDuration | FRequireApproval | FProvenanceMode
  | FProvenanceBackends | FProvenanceIdentities | FMaxArtifactAge | FLicensePolicy | FScanBackends
  | FRescanIntervalHours | FNegligibleAction | FEnforcement | FCompositeVerdictMode

fun is_gate_affecting :: "policy_field \<Rightarrow> bool" where
  "is_gate_affecting FSeverityThreshold = True"
| "is_gate_affecting FLicensePolicy = True"
| "is_gate_affecting FNegligibleAction = True"
| "is_gate_affecting FEnforcement = True"
| "is_gate_affecting _ = False"

fun next_policy_field :: "policy_field \<Rightarrow> policy_field option" where
  "next_policy_field FName = Some FScope"
| "next_policy_field FScope = Some FSeverityThreshold"
| "next_policy_field FSeverityThreshold = Some FQuarantineDuration"
| "next_policy_field FQuarantineDuration = Some FRequireApproval"
| "next_policy_field FRequireApproval = Some FProvenanceMode"
| "next_policy_field FProvenanceMode = Some FProvenanceBackends"
| "next_policy_field FProvenanceBackends = Some FProvenanceIdentities"
| "next_policy_field FProvenanceIdentities = Some FMaxArtifactAge"
| "next_policy_field FMaxArtifactAge = Some FLicensePolicy"
| "next_policy_field FLicensePolicy = Some FScanBackends"
| "next_policy_field FScanBackends = Some FRescanIntervalHours"
| "next_policy_field FRescanIntervalHours = Some FNegligibleAction"
| "next_policy_field FNegligibleAction = Some FEnforcement"
| "next_policy_field FEnforcement = Some FCompositeVerdictMode"
| "next_policy_field FCompositeVerdictMode = None"

text \<open>\<^verbatim>\<open>std::iter::successors\<close>, which the chain of fields leaves after fifteen elements.\<close>

fun successors :: "nat \<Rightarrow> ('a \<Rightarrow> 'a option) \<Rightarrow> 'a option \<Rightarrow> 'a list" where
  "successors 0 f x = []"
| "successors (Suc n) f None = []"
| "successors (Suc n) f (Some a) = a # successors n f (f a)"

definition policy_field_count :: nat where "policy_field_count = 15"

definition policy_fields :: "policy_field list" where
  "policy_fields = successors (Suc policy_field_count) next_policy_field (Some FName)"

fun snapshot_key :: "policy_field \<Rightarrow> string" where
  "snapshot_key FName = ''name''"
| "snapshot_key FScope = ''scope''"
| "snapshot_key FSeverityThreshold = ''severity_threshold''"
| "snapshot_key FQuarantineDuration = ''quarantine_duration_secs''"
| "snapshot_key FRequireApproval = ''require_approval''"
| "snapshot_key FProvenanceMode = ''provenance_mode''"
| "snapshot_key FProvenanceBackends = ''provenance_backends''"
| "snapshot_key FProvenanceIdentities = ''provenance_identities''"
| "snapshot_key FMaxArtifactAge = ''max_artifact_age_secs''"
| "snapshot_key FLicensePolicy = ''license_policy''"
| "snapshot_key FScanBackends = ''scan_backends''"
| "snapshot_key FRescanIntervalHours = ''rescan_interval_hours''"
| "snapshot_key FNegligibleAction = ''negligible_action''"
| "snapshot_key FEnforcement = ''enforcement''"
| "snapshot_key FCompositeVerdictMode = ''composite_verdict_mode''"

section \<open>Encoding and decoding a field\<close>

record policy_codec =
  enc_scope :: "policy_scope \<Rightarrow> json"
  dec_scope :: "json \<Rightarrow> policy_scope option"
  enc_threshold :: "severity_threshold \<Rightarrow> json"
  dec_threshold :: "json \<Rightarrow> severity_threshold option"
  enc_strings :: "string list \<Rightarrow> json"
  dec_strings :: "json \<Rightarrow> string list option"
  enc_identities :: "signer_identity_pattern list \<Rightarrow> json"
  dec_identities :: "json \<Rightarrow> signer_identity_pattern list option"

definition policy_field_value :: "policy_codec \<Rightarrow> scan_policy_projection \<Rightarrow> policy_field \<Rightarrow> json" where
  "policy_field_value codec policy field =
     (case field of
        FName \<Rightarrow> JString (pol_name policy)
      | FScope \<Rightarrow> enc_scope codec (pol_scope policy)
      | FSeverityThreshold \<Rightarrow> enc_threshold codec (pol_severity_threshold policy)
      | FQuarantineDuration \<Rightarrow> json_of_i64 (pol_quarantine_duration_secs policy)
      | FRequireApproval \<Rightarrow> JBool (pol_require_approval policy)
      | FProvenanceMode \<Rightarrow> JString (provenance_mode_to_string (pol_provenance_mode policy))
      | FProvenanceBackends \<Rightarrow> enc_strings codec (pol_provenance_backends policy)
      | FProvenanceIdentities \<Rightarrow> enc_identities codec (pol_provenance_identities policy)
      | FMaxArtifactAge \<Rightarrow>
          (case pol_max_artifact_age_secs policy of Some secs \<Rightarrow> json_of_i64 secs | None \<Rightarrow> JNull)
      | FLicensePolicy \<Rightarrow> pol_license_policy policy
      | FScanBackends \<Rightarrow> enc_strings codec (pol_scan_backends policy)
      | FRescanIntervalHours \<Rightarrow> json_of_i64 (pol_rescan_interval_hours policy)
      | FNegligibleAction \<Rightarrow> JString (negligible_action_to_string (pol_negligible_action policy))
      | FEnforcement \<Rightarrow> JString (scan_enforcement_to_string (pol_enforcement policy))
      | FCompositeVerdictMode \<Rightarrow>
          JString (composite_verdict_mode_to_string (pol_composite_verdict_mode policy)))"

datatype fold_msg =
    DecodeError policy_field json string
  | SerdeDecodeError policy_field json
  | WireDecodeError type_msg
  | MissingSnapshotEntry uuid string policy_field
  | NameDisagrees uuid string string
  | ScopeDisagrees uuid
  | MustOpenWithCreated string
  | SecondCreated uuid
  | ForeignEvent string uuid
  | WrongPolicy uuid string uuid
  | AtPosition fold_msg u64

type_synonym 'a fold_result = "fold_msg domain_error + 'a"

definition decode_error :: "policy_field \<Rightarrow> json \<Rightarrow> string \<Rightarrow> fold_msg domain_error" where
  "decode_error field v expected = Validation (DecodeError field v expected)"

definition ok_or_else :: "'a option \<Rightarrow> 'e \<Rightarrow> 'e + 'a" where
  "ok_or_else x e = (case x of Some v \<Rightarrow> Inr v | None \<Rightarrow> Inl e)"

definition decode_string :: "policy_field \<Rightarrow> json \<Rightarrow> string fold_result" where
  "decode_string field v = ok_or_else (json_as_str v) (decode_error field v ''a JSON string'')"

definition decode_i64 :: "policy_field \<Rightarrow> json \<Rightarrow> int fold_result" where
  "decode_i64 field v = ok_or_else (json_as_i64 v) (decode_error field v ''a JSON integer'')"

definition decode_serde :: "(json \<Rightarrow> 'a option) \<Rightarrow> policy_field \<Rightarrow> json \<Rightarrow> 'a fold_result" where
  "decode_serde dec field v = ok_or_else (dec v) (Validation (SerdeDecodeError field v))"

definition decode_wire :: "(string \<Rightarrow> 'a type_result) \<Rightarrow> policy_field \<Rightarrow> json \<Rightarrow> 'a fold_result" where
  "decode_wire from_str field v =
     and_then (decode_string field v) (\<lambda>s. map_sum (map_domain_error WireDecodeError) id (from_str s))"

text \<open>
  Every arm assigns only after its decode has succeeded, so the policy that an error leaves behind
  is the policy it was given; the result carries the new policy.
\<close>

definition set_policy_field ::
    "policy_codec \<Rightarrow> (string \<Rightarrow> string) \<Rightarrow> scan_policy_projection \<Rightarrow> policy_field \<Rightarrow> json
     \<Rightarrow> scan_policy_projection fold_result" where
  "set_policy_field codec uni policy field v =
     (case field of
        FName \<Rightarrow> and_then (decode_string field v) (\<lambda>x. Inr (policy\<lparr>pol_name := x\<rparr>))
      | FScope \<Rightarrow> and_then (decode_serde (dec_scope codec) field v) (\<lambda>x. Inr (policy\<lparr>pol_scope := x\<rparr>))
      | FSeverityThreshold \<Rightarrow>
          and_then (decode_serde (dec_threshold codec) field v) (\<lambda>x. Inr (policy\<lparr>pol_severity_threshold := x\<rparr>))
      | FQuarantineDuration \<Rightarrow>
          and_then (decode_i64 field v) (\<lambda>x. Inr (policy\<lparr>pol_quarantine_duration_secs := x\<rparr>))
      | FRequireApproval \<Rightarrow>
          and_then (ok_or_else (json_as_bool v) (decode_error field v ''a JSON boolean''))
            (\<lambda>x. Inr (policy\<lparr>pol_require_approval := x\<rparr>))
      | FProvenanceMode \<Rightarrow>
          and_then (decode_wire (provenance_mode_from_str uni) field v)
            (\<lambda>x. Inr (policy\<lparr>pol_provenance_mode := x\<rparr>))
      | FProvenanceBackends \<Rightarrow>
          and_then (decode_serde (dec_strings codec) field v) (\<lambda>x. Inr (policy\<lparr>pol_provenance_backends := x\<rparr>))
      | FProvenanceIdentities \<Rightarrow>
          and_then (decode_serde (dec_identities codec) field v)
            (\<lambda>x. Inr (policy\<lparr>pol_provenance_identities := x\<rparr>))
      | FMaxArtifactAge \<Rightarrow>
          (if json_is_null v then Inr (policy\<lparr>pol_max_artifact_age_secs := None\<rparr>)
           else and_then (decode_i64 field v) (\<lambda>x. Inr (policy\<lparr>pol_max_artifact_age_secs := Some x\<rparr>)))
      | FLicensePolicy \<Rightarrow> Inr (policy\<lparr>pol_license_policy := v\<rparr>)
      | FScanBackends \<Rightarrow>
          and_then (decode_serde (dec_strings codec) field v) (\<lambda>x. Inr (policy\<lparr>pol_scan_backends := x\<rparr>))
      | FRescanIntervalHours \<Rightarrow>
          and_then (decode_i64 field v) (\<lambda>hours.
            if i32_min \<le> hours \<and> hours \<le> i32_max
            then Inr (policy\<lparr>pol_rescan_interval_hours := hours\<rparr>)
            else Inl (decode_error field v ''a JSON integer in i32 range''))
      | FNegligibleAction \<Rightarrow>
          and_then (decode_wire (negligible_action_from_str uni) field v)
            (\<lambda>x. Inr (policy\<lparr>pol_negligible_action := x\<rparr>))
      | FEnforcement \<Rightarrow>
          and_then (decode_wire (scan_enforcement_from_str uni) field v)
            (\<lambda>x. Inr (policy\<lparr>pol_enforcement := x\<rparr>))
      | FCompositeVerdictMode \<Rightarrow>
          and_then (decode_wire (composite_verdict_mode_from_str uni) field v)
            (\<lambda>x. Inr (policy\<lparr>pol_composite_verdict_mode := x\<rparr>)))"

section \<open>Events, diff and snapshot\<close>

record policy_created =
  pcr_policy_id :: uuid
  pcr_name :: string
  pcr_scope :: policy_scope
  pcr_config_snapshot :: json

record policy_updated =
  pup_policy_id :: uuid
  pup_field :: policy_field
  pup_previous_value :: json
  pup_new_value :: json

record exclusion_added =
  exa_policy_id :: uuid
  exa_exclusion_id :: uuid
  exa_cve_id :: string
  exa_package_pattern :: "string option"
  exa_scope :: policy_scope
  exa_reason :: string
  exa_expires_at :: "timestamp option"

record exclusion_removed =
  exr_policy_id :: uuid
  exr_exclusion_id :: uuid
  exr_reason :: string

datatype policy_stream_event =
    PCreated policy_created
  | PUpdated policy_updated
  | PExclusionAdded exclusion_added
  | PExclusionRemoved exclusion_removed
  | PArchived uuid
  | PReactivated uuid
  | PForeign string

fun policy_event_type :: "policy_stream_event \<Rightarrow> string" where
  "policy_event_type (PCreated _) = ''PolicyCreated''"
| "policy_event_type (PUpdated _) = ''PolicyUpdated''"
| "policy_event_type (PExclusionAdded _) = ''ExclusionAdded''"
| "policy_event_type (PExclusionRemoved _) = ''ExclusionRemoved''"
| "policy_event_type (PArchived _) = ''PolicyArchived''"
| "policy_event_type (PReactivated _) = ''PolicyReactivated''"
| "policy_event_type (PForeign name) = name"

definition apply_policy_updated ::
    "policy_codec \<Rightarrow> (string \<Rightarrow> string) \<Rightarrow> scan_policy_projection \<Rightarrow> policy_updated
     \<Rightarrow> scan_policy_projection fold_result" where
  "apply_policy_updated codec uni policy update =
     set_policy_field codec uni policy (pup_field update) (pup_new_value update)"

definition diff_policy_fields ::
    "policy_codec \<Rightarrow> uuid \<Rightarrow> scan_policy_projection \<Rightarrow> scan_policy_projection \<Rightarrow> policy_updated list" where
  "diff_policy_fields codec policy_id current desired =
     List.map_filter (\<lambda>field.
         let previous_value = policy_field_value codec current field;
             new_value = policy_field_value codec desired field
         in if previous_value \<noteq> new_value
            then Some \<lparr>pup_policy_id = policy_id, pup_field = field,
                       pup_previous_value = previous_value, pup_new_value = new_value\<rparr>
            else None)
       policy_fields"

definition policy_config_snapshot :: "policy_codec \<Rightarrow> scan_policy_projection \<Rightarrow> json" where
  "policy_config_snapshot codec policy =
     JObject (map (\<lambda>field. (snapshot_key field, policy_field_value codec policy field)) policy_fields)"

section \<open>Replay\<close>

definition blank_policy :: "uuid \<Rightarrow> timestamp \<Rightarrow> scan_policy_projection" where
  "blank_policy policy_id created_at =
     \<lparr>pol_policy_id = policy_id, pol_name = [], pol_scope = ScopeGlobal,
      pol_severity_threshold = Critical, pol_quarantine_duration_secs = 0,
      pol_require_approval = False, pol_provenance_mode = ProvOff, pol_provenance_backends = [],
      pol_provenance_identities = [], pol_max_artifact_age_secs = None, pol_license_policy = JNull,
      pol_archived = False, pol_scan_backends = [], pol_rescan_interval_hours = 0,
      pol_negligible_action = NegIgnore, pol_enforcement = EnforceReject,
      pol_composite_verdict_mode = Observed, pol_stream_version = 0, pol_created_at = created_at,
      pol_updated_at = created_at\<rparr>"

definition replay_policy_created ::
    "policy_codec \<Rightarrow> (string \<Rightarrow> string) \<Rightarrow> policy_created \<Rightarrow> timestamp \<Rightarrow> scan_policy_projection fold_result" where
  "replay_policy_created codec uni created created_at =
     and_then
       (try_fold (\<lambda>policy field.
           and_then (ok_or_else (json_get (pcr_config_snapshot created) (snapshot_key field))
               (Validation (MissingSnapshotEntry (pcr_policy_id created) (snapshot_key field) field)))
             (\<lambda>v. set_policy_field codec uni policy field v))
         (blank_policy (pcr_policy_id created) created_at) policy_fields)
       (\<lambda>policy.
          if pol_name policy \<noteq> pcr_name created
          then Inl (Invariant (NameDisagrees (pcr_policy_id created) (pcr_name created) (pol_name policy)))
          else if pol_scope policy \<noteq> pcr_scope created
          then Inl (Invariant (ScopeDisagrees (pcr_policy_id created)))
          else Inr policy)"

definition exclusion_projection_of :: "exclusion_added \<Rightarrow> actor \<Rightarrow> exclusion_projection" where
  "exclusion_projection_of added actor =
     \<lparr>ex_exclusion_id = exa_exclusion_id added,
      ex_policy_id = exa_policy_id added,
      ex_cve_id = exa_cve_id added,
      ex_package_pattern = exa_package_pattern added,
      ex_scope = exa_scope added,
      ex_reason = exa_reason added,
      ex_added_by_actor_id = (case actor of ApiActor user_id \<Rightarrow> Some user_id | _ \<Rightarrow> None),
      ex_expires_at = exa_expires_at added\<rparr>"

record scan_policy_replay =
  rp_policy :: scan_policy_projection
  rp_exclusions :: "exclusion_projection list"

definition require_same_policy ::
    "uuid \<Rightarrow> uuid \<Rightarrow> policy_stream_event \<Rightarrow> unit fold_result" where
  "require_same_policy stream_policy_id event_policy_id event =
     (if stream_policy_id = event_policy_id then Inr ()
      else Inl (Invariant (WrongPolicy stream_policy_id (policy_event_type event) event_policy_id)))"

text \<open>An event that is refused leaves the replay as it was; an accepted one carries the new replay.\<close>

definition apply_policy_event ::
    "policy_codec \<Rightarrow> (string \<Rightarrow> string) \<Rightarrow> scan_policy_replay \<Rightarrow> policy_stream_event \<Rightarrow> actor
     \<Rightarrow> scan_policy_replay fold_result" where
  "apply_policy_event codec uni replay event actor =
     (let policy_id = pol_policy_id (rp_policy replay) in
      case event of
        PUpdated update \<Rightarrow>
          and_then (require_same_policy policy_id (pup_policy_id update) event) (\<lambda>_.
          and_then (apply_policy_updated codec uni (rp_policy replay) update) (\<lambda>policy.
          Inr (replay\<lparr>rp_policy := policy\<rparr>)))
      | PArchived archived \<Rightarrow>
          and_then (require_same_policy policy_id archived event) (\<lambda>_.
          Inr (replay\<lparr>rp_policy := (rp_policy replay)\<lparr>pol_archived := True\<rparr>\<rparr>))
      | PReactivated reactivated \<Rightarrow>
          and_then (require_same_policy policy_id reactivated event) (\<lambda>_.
          Inr (replay\<lparr>rp_policy := (rp_policy replay)\<lparr>pol_archived := False\<rparr>\<rparr>))
      | PExclusionAdded added \<Rightarrow>
          and_then (require_same_policy policy_id (exa_policy_id added) event) (\<lambda>_.
          Inr (replay\<lparr>rp_exclusions := rp_exclusions replay @ [exclusion_projection_of added actor]\<rparr>))
      | PExclusionRemoved removed \<Rightarrow>
          and_then (require_same_policy policy_id (exr_policy_id removed) event) (\<lambda>_.
          Inr (replay\<lparr>rp_exclusions :=
                 filter (\<lambda>e. ex_exclusion_id e \<noteq> exr_exclusion_id removed) (rp_exclusions replay)\<rparr>))
      | PCreated _ \<Rightarrow> Inl (Invariant (SecondCreated policy_id))
      | PForeign name \<Rightarrow> Inl (Invariant (ForeignEvent name policy_id)))"

fun at_position :: "fold_msg domain_error \<Rightarrow> u64 \<Rightarrow> fold_msg domain_error" where
  "at_position (Invariant m) position = Invariant (AtPosition m position)"
| "at_position (Validation m) position = Validation (AtPosition m position)"
| "at_position other position = other"

definition map_err :: "('e \<Rightarrow> 'f) \<Rightarrow> 'e + 'a \<Rightarrow> 'f + 'a" where
  "map_err f r = map_sum f id r"

definition fold_step ::
    "policy_codec \<Rightarrow> (string \<Rightarrow> string) \<Rightarrow> scan_policy_replay \<Rightarrow> policy_stream_event persisted_event
     \<Rightarrow> scan_policy_replay fold_result" where
  "fold_step codec uni replay persisted =
     and_then (map_err (\<lambda>e. at_position e (pe_stream_position persisted))
                 (apply_policy_event codec uni replay (pe_event persisted) (pe_actor persisted)))
       (\<lambda>r. Inr (r\<lparr>rp_policy := (rp_policy r)\<lparr>pol_updated_at := pe_stored_at persisted\<rparr>\<rparr>))"

definition fold_scan_policy ::
    "policy_codec \<Rightarrow> (string \<Rightarrow> string) \<Rightarrow> policy_stream_event persisted_event list
     \<Rightarrow> scan_policy_replay fold_result" where
  "fold_scan_policy codec uni events =
     (case events of
        [] \<Rightarrow> Inl (NotFound ''ScanPolicy'' ''<empty policy stream>'')
      | first # rest \<Rightarrow>
          (case pe_event first of
             PCreated created \<Rightarrow>
               and_then (replay_policy_created codec uni created (pe_stored_at first)) (\<lambda>policy.
               and_then (try_fold (fold_step codec uni) \<lparr>rp_policy = policy, rp_exclusions = []\<rparr> rest) (\<lambda>replay.
               Inr (replay\<lparr>rp_policy := (rp_policy replay)\<lparr>pol_stream_version := pe_stream_position (last events)\<rparr>\<rparr>)))
           | other \<Rightarrow> Inl (Invariant (MustOpenWithCreated (policy_event_type other)))))"

text \<open>
  \<^verbatim>\<open>apply_policy_batch\<close> stops at the first refused event; its caller discards the replay then, so
  only the successful result is the new replay.
\<close>

definition apply_policy_batch ::
    "policy_codec \<Rightarrow> (string \<Rightarrow> string) \<Rightarrow> scan_policy_replay \<Rightarrow> policy_stream_event list \<Rightarrow> actor
     \<Rightarrow> timestamp \<Rightarrow> u64 \<Rightarrow> scan_policy_replay fold_result" where
  "apply_policy_batch codec uni replay events actor appended_at new_stream_version =
     and_then (try_fold (\<lambda>r e. apply_policy_event codec uni r e actor) replay events) (\<lambda>r.
     Inr (r\<lparr>rp_policy := (rp_policy r)\<lparr>pol_stream_version := new_stream_version,
                                       pol_updated_at := appended_at\<rparr>\<rparr>))"

section \<open>The contract of a field-wise encoding\<close>

text \<open>
  A state whose fields are read as JSON and written from JSON, one at a time. Writing what was
  read from another state makes the two agree on that field and disturbs no other.
\<close>

locale field_codec =
  fixes read_field :: "'s \<Rightarrow> 'f \<Rightarrow> 'v"
    and write_field :: "'s \<Rightarrow> 'f \<Rightarrow> 'v \<Rightarrow> 'e + 's"
    and sound :: "'s \<Rightarrow> bool"
  assumes write_read:
    "sound t \<Longrightarrow> \<exists>s'. write_field s f (read_field t f) = Inr s' \<and>
       read_field s' f = read_field t f \<and> (\<forall>g. g \<noteq> f \<longrightarrow> read_field s' g = read_field s g)"
begin

lemma write_all:
  assumes "sound t"
  shows "\<exists>s'. try_fold (\<lambda>s f. write_field s f (read_field t f)) s fs = Inr s' \<and>
    (\<forall>f. read_field s' f = (if f \<in> set fs then read_field t f else read_field s f))"
proof (induction fs arbitrary: s)
  case (Cons f fs)
  from write_read [OF assms, of s f] obtain s1 where s1: "write_field s f (read_field t f) = Inr s1"
      "read_field s1 f = read_field t f" "\<And>g. g \<noteq> f \<Longrightarrow> read_field s1 g = read_field s g"
    by blast
  from Cons.IH [of s1] obtain s2 where
      "try_fold (\<lambda>s f. write_field s f (read_field t f)) s1 fs = Inr s2"
      "\<forall>g. read_field s2 g = (if g \<in> set fs then read_field t g else read_field s1 g)"
    by blast
  with s1 show ?case by auto
qed simp

text \<open>Writing only the fields on which the two states differ is enough.\<close>

lemma write_differing:
  assumes "sound t"
  shows "\<exists>s'. try_fold (\<lambda>s f. write_field s f (read_field t f)) s
      (filter (\<lambda>f. read_field s f \<noteq> read_field t f) fs) = Inr s' \<and>
    (\<forall>f\<in>set fs. read_field s' f = read_field t f)"
  using write_all [OF assms, of s "filter (\<lambda>f. read_field s f \<noteq> read_field t f) fs"] by force

end

section \<open>The policy satisfies the contract\<close>

text \<open>
  What the encoding relies on: the derived serde implementations decode what they encode, and the
  integer fields of a policy are within the widths of their Rust types.
\<close>

definition codec_ok :: "policy_codec \<Rightarrow> bool" where
  "codec_ok codec \<longleftrightarrow>
     (\<forall>x. dec_scope codec (enc_scope codec x) = Some x) \<and>
     (\<forall>x. dec_threshold codec (enc_threshold codec x) = Some x) \<and>
     (\<forall>x. dec_strings codec (enc_strings codec x) = Some x) \<and>
     (\<forall>x. dec_identities codec (enc_identities codec x) = Some x)"

definition in_i64 :: "int \<Rightarrow> bool" where "in_i64 i \<longleftrightarrow> i64_min \<le> i \<and> i \<le> i64_max"

definition policy_sound :: "scan_policy_projection \<Rightarrow> bool" where
  "policy_sound p \<longleftrightarrow>
     in_i64 (pol_quarantine_duration_secs p) \<and>
     (\<forall>a. pol_max_artifact_age_secs p = Some a \<longrightarrow> in_i64 a) \<and>
     i32_min \<le> pol_rescan_interval_hours p \<and> pol_rescan_interval_hours p \<le> i32_max"

text \<open>Writing into \<open>p\<close> the value that \<open>q\<close> has in one field.\<close>

fun copy_field :: "policy_field \<Rightarrow> scan_policy_projection \<Rightarrow> scan_policy_projection \<Rightarrow> scan_policy_projection" where
  "copy_field FName q p = p\<lparr>pol_name := pol_name q\<rparr>"
| "copy_field FScope q p = p\<lparr>pol_scope := pol_scope q\<rparr>"
| "copy_field FSeverityThreshold q p = p\<lparr>pol_severity_threshold := pol_severity_threshold q\<rparr>"
| "copy_field FQuarantineDuration q p = p\<lparr>pol_quarantine_duration_secs := pol_quarantine_duration_secs q\<rparr>"
| "copy_field FRequireApproval q p = p\<lparr>pol_require_approval := pol_require_approval q\<rparr>"
| "copy_field FProvenanceMode q p = p\<lparr>pol_provenance_mode := pol_provenance_mode q\<rparr>"
| "copy_field FProvenanceBackends q p = p\<lparr>pol_provenance_backends := pol_provenance_backends q\<rparr>"
| "copy_field FProvenanceIdentities q p = p\<lparr>pol_provenance_identities := pol_provenance_identities q\<rparr>"
| "copy_field FMaxArtifactAge q p = p\<lparr>pol_max_artifact_age_secs := pol_max_artifact_age_secs q\<rparr>"
| "copy_field FLicensePolicy q p = p\<lparr>pol_license_policy := pol_license_policy q\<rparr>"
| "copy_field FScanBackends q p = p\<lparr>pol_scan_backends := pol_scan_backends q\<rparr>"
| "copy_field FRescanIntervalHours q p = p\<lparr>pol_rescan_interval_hours := pol_rescan_interval_hours q\<rparr>"
| "copy_field FNegligibleAction q p = p\<lparr>pol_negligible_action := pol_negligible_action q\<rparr>"
| "copy_field FEnforcement q p = p\<lparr>pol_enforcement := pol_enforcement q\<rparr>"
| "copy_field FCompositeVerdictMode q p = p\<lparr>pol_composite_verdict_mode := pol_composite_verdict_mode q\<rparr>"

lemma decode_wire_show:
  "from_str s = Inr x \<Longrightarrow> decode_wire from_str field (JString s) = Inr x"
  by (simp add: decode_wire_def decode_string_def json_as_str_def ok_or_else_def)

lemma decode_i64_of: "in_i64 i \<Longrightarrow> decode_i64 field (json_of_i64 i) = Inr i"
  using json_i64_roundtrip [of i] by (simp add: decode_i64_def ok_or_else_def in_i64_def)

lemma json_of_i64_not_null: "json_is_null (json_of_i64 i) = False" "json_of_i64 i \<noteq> JNull"
  by (simp_all add: json_is_null_def json_of_i64_def)

lemma i32_in_i64: "i32_min \<le> i \<Longrightarrow> i \<le> i32_max \<Longrightarrow> in_i64 i"
  by (simp add: in_i64_def i32_min_def i32_max_def i64_min_def i64_max_def)

lemma set_policy_field_of_value:
  assumes "codec_ok codec" and "policy_sound q"
  shows "set_policy_field codec uni p field (policy_field_value codec q field) = Inr (copy_field field q p)"
proof (cases field)
  case FMaxArtifactAge
  then show ?thesis
    using assms(2)
    by (auto simp: set_policy_field_def policy_field_value_def policy_sound_def json_of_i64_not_null
        decode_i64_of json_is_null_def [of JNull] split: option.split)
next
  case FRescanIntervalHours
  then show ?thesis
    using assms(2) by (simp add: set_policy_field_def policy_field_value_def policy_sound_def decode_i64_of i32_in_i64)
qed (use assms in \<open>auto simp: set_policy_field_def policy_field_value_def policy_sound_def codec_ok_def
      decode_i64_of decode_string_def decode_serde_def ok_or_else_def json_as_str_def json_as_bool_def
      decode_wire_show provenance_mode_wire.parse_show negligible_action_wire.parse_show
      scan_enforcement_wire.parse_show composite_verdict_mode_wire.parse_show\<close>)

lemma policy_field_value_copy:
  "policy_field_value codec (copy_field f q p) g =
     (if g = f then policy_field_value codec q g else policy_field_value codec p g)"
  by (cases f; cases g) (simp_all add: policy_field_value_def)

interpretation policy_codec_fields: field_codec "policy_field_value codec" "set_policy_field codec uni"
    "\<lambda>p. codec_ok codec \<and> policy_sound p" for codec uni
  by unfold_locales (auto simp: set_policy_field_of_value policy_field_value_copy)

section \<open>Lemmas on the fold\<close>

lemma policy_fields_all: "f \<in> set policy_fields"
  by (cases f) (simp_all add: policy_fields_def policy_field_count_def eval_nat_numeral)

lemma policy_fields_distinct: "distinct policy_fields"
  by (simp add: policy_fields_def policy_field_count_def eval_nat_numeral)

lemma snapshot_key_inj: "snapshot_key f = snapshot_key g \<Longrightarrow> f = g"
  by (cases f; cases g) simp_all

lemma map_of_map_key:
  "(\<And>a b. key a = key b \<Longrightarrow> a = b) \<Longrightarrow> map_of (map (\<lambda>x. (key x, val x)) xs) (key f) =
     (if f \<in> set xs then Some (val f) else None)"
  by (induction xs) auto

lemma snapshot_lookup:
  "json_get (policy_config_snapshot codec p) (snapshot_key f) = Some (policy_field_value codec p f)"
  by (simp add: json_get_def policy_config_snapshot_def map_of_map_key snapshot_key_inj policy_fields_all)

lemma try_fold_map: "try_fold f s (map g xs) = try_fold (\<lambda>s x. f s (g x)) s xs"
  by (induction xs arbitrary: s) (simp_all add: and_then_def split: sum.split)

text \<open>The fields outside the configuration.\<close>

definition same_meta :: "scan_policy_projection \<Rightarrow> scan_policy_projection \<Rightarrow> bool" where
  "same_meta p q \<longleftrightarrow> pol_policy_id p = pol_policy_id q \<and> pol_archived p = pol_archived q \<and>
     pol_stream_version p = pol_stream_version q \<and> pol_created_at p = pol_created_at q \<and>
     pol_updated_at p = pol_updated_at q"

lemma copy_field_meta: "same_meta (copy_field f q p) p"
  by (cases f) (simp_all add: same_meta_def)

lemma copy_field_sound: "policy_sound p \<Longrightarrow> policy_sound q \<Longrightarrow> policy_sound (copy_field f q p)"
  by (cases f) (simp_all add: policy_sound_def)

lemma json_of_i64_inj: "in_i64 i \<Longrightarrow> in_i64 j \<Longrightarrow> json_of_i64 i = json_of_i64 j \<Longrightarrow> i = j"
  by (metis json_i64_roundtrip in_i64_def option.inject)

lemma values_determine:
  assumes "codec_ok codec" and "policy_sound p" and "policy_sound q" and "same_meta p q"
    and eq: "\<And>f. policy_field_value codec p f = policy_field_value codec q f"
  shows "p = q"
proof (rule scan_policy_projection.equality)
  have inj: "enc x = enc y \<Longrightarrow> x = y" if "\<forall>x. dec (enc x) = Some x" for enc :: "'a \<Rightarrow> json" and dec x y
    using that by (metis option.inject)
  note laws = assms(1) [unfolded codec_ok_def]
  show "pol_scope p = pol_scope q"
    using inj [of "dec_scope codec" "enc_scope codec"] laws eq [of FScope] by (simp add: policy_field_value_def)
  show "pol_severity_threshold p = pol_severity_threshold q"
    using inj [of "dec_threshold codec" "enc_threshold codec"] laws eq [of FSeverityThreshold]
    by (simp add: policy_field_value_def)
  show "pol_provenance_backends p = pol_provenance_backends q" "pol_scan_backends p = pol_scan_backends q"
    using inj [of "dec_strings codec" "enc_strings codec"] laws eq [of FProvenanceBackends] eq [of FScanBackends]
    by (simp_all add: policy_field_value_def)
  show "pol_provenance_identities p = pol_provenance_identities q"
    using inj [of "dec_identities codec" "enc_identities codec"] laws eq [of FProvenanceIdentities]
    by (simp add: policy_field_value_def)
  show "pol_provenance_mode p = pol_provenance_mode q"
    using provenance_mode_wire.show_inj eq [of FProvenanceMode] by (simp add: policy_field_value_def)
  show "pol_negligible_action p = pol_negligible_action q"
    using negligible_action_wire.show_inj eq [of FNegligibleAction] by (simp add: policy_field_value_def)
  show "pol_enforcement p = pol_enforcement q"
    using scan_enforcement_wire.show_inj eq [of FEnforcement] by (simp add: policy_field_value_def)
  show "pol_composite_verdict_mode p = pol_composite_verdict_mode q"
    using composite_verdict_mode_wire.show_inj eq [of FCompositeVerdictMode] by (simp add: policy_field_value_def)
  show "pol_quarantine_duration_secs p = pol_quarantine_duration_secs q"
    using assms(2,3) json_of_i64_inj eq [of FQuarantineDuration] by (simp add: policy_field_value_def policy_sound_def)
  show "pol_rescan_interval_hours p = pol_rescan_interval_hours q"
    using assms(2,3) json_of_i64_inj i32_in_i64 eq [of FRescanIntervalHours]
    by (simp add: policy_field_value_def policy_sound_def)
  show "pol_max_artifact_age_secs p = pol_max_artifact_age_secs q"
    using assms(2,3) json_of_i64_inj eq [of FMaxArtifactAge] json_of_i64_not_null(2)
    by (auto simp: policy_field_value_def policy_sound_def split: option.splits) metis
  show "pol_name p = pol_name q" "pol_require_approval p = pol_require_approval q"
      "pol_license_policy p = pol_license_policy q"
    using eq [of FName] eq [of FRequireApproval] eq [of FLicensePolicy] by (simp_all add: policy_field_value_def)
qed (use assms(4) in \<open>simp_all add: same_meta_def\<close>)

text \<open>Writing fields of a sound policy into a sound policy keeps soundness and the rest.\<close>

lemma write_fields_frame:
  assumes "codec_ok codec" and "policy_sound q" and "policy_sound p"
    and "try_fold (\<lambda>s f. set_policy_field codec uni s f (policy_field_value codec q f)) p fs = Inr r"
  shows "policy_sound r \<and> same_meta r p"
proof (rule try_fold_invariant [where P = "\<lambda>r. policy_sound r \<and> same_meta r p", OF assms(4)])
  show "policy_sound p \<and> same_meta p p" using assms(3) by (simp add: same_meta_def)
next
  fix x f y
  assume x: "policy_sound x \<and> same_meta x p"
    and "set_policy_field codec uni x f (policy_field_value codec q f) = Inr y"
  then have y: "y = copy_field f q x" by (simp add: set_policy_field_of_value [OF assms(1,2)])
  show "policy_sound y \<and> same_meta y p"
    unfolding y using x copy_field_sound [of x q f] assms(2) copy_field_meta [of f q x]
    by (simp add: same_meta_def)
qed

lemma diff_as_map:
  "diff_policy_fields codec i current desired =
     map (\<lambda>f. \<lparr>pup_policy_id = i, pup_field = f, pup_previous_value = policy_field_value codec current f,
               pup_new_value = policy_field_value codec desired f\<rparr>)
       (filter (\<lambda>f. policy_field_value codec current f \<noteq> policy_field_value codec desired f) policy_fields)"
  unfolding diff_policy_fields_def
  by (induction policy_fields) (auto simp: List.map_filter_def Let_def)

lemma apply_diff:
  assumes "codec_ok codec" and "policy_sound current" and "policy_sound desired"
  shows "try_fold (apply_policy_updated codec uni) current (diff_policy_fields codec i current desired) =
    Inr (desired\<lparr>pol_policy_id := pol_policy_id current, pol_archived := pol_archived current,
                 pol_stream_version := pol_stream_version current, pol_created_at := pol_created_at current,
                 pol_updated_at := pol_updated_at current\<rparr>)"
proof -
  obtain r where r: "try_fold (\<lambda>s f. set_policy_field codec uni s f (policy_field_value codec desired f)) current
      (filter (\<lambda>f. policy_field_value codec current f \<noteq> policy_field_value codec desired f) policy_fields) = Inr r"
    and eq: "\<And>f. policy_field_value codec r f = policy_field_value codec desired f"
    using policy_codec_fields.write_differing [of codec desired uni current policy_fields] assms policy_fields_all
    by auto
  let ?goal = "desired\<lparr>pol_policy_id := pol_policy_id current, pol_archived := pol_archived current,
                 pol_stream_version := pol_stream_version current, pol_created_at := pol_created_at current,
                 pol_updated_at := pol_updated_at current\<rparr>"
  have frame: "policy_sound r \<and> same_meta r current"
    by (rule write_fields_frame [OF assms(1,3,2) r])
  have "r = ?goal"
  proof (rule values_determine [OF assms(1)])
    show "policy_sound r" "same_meta r ?goal" using frame by (simp_all add: same_meta_def)
    show "policy_sound ?goal" using assms(3) by (simp add: policy_sound_def)
    show "policy_field_value codec r f = policy_field_value codec ?goal f" for f
      using eq [of f] by (cases f) (simp_all add: policy_field_value_def)
  qed
  with r show ?thesis by (simp add: diff_as_map try_fold_map apply_policy_updated_def)
qed

lemma replay_snapshot:
  assumes "codec_ok codec" and "policy_sound p"
  shows "replay_policy_created codec uni
      \<lparr>pcr_policy_id = i, pcr_name = pol_name p, pcr_scope = pol_scope p,
       pcr_config_snapshot = policy_config_snapshot codec p\<rparr> t =
    Inr (p\<lparr>pol_policy_id := i, pol_archived := False, pol_stream_version := 0, pol_created_at := t,
           pol_updated_at := t\<rparr>)"
proof -
  let ?goal = "p\<lparr>pol_policy_id := i, pol_archived := False, pol_stream_version := 0, pol_created_at := t,
           pol_updated_at := t\<rparr>"
  obtain r where r: "try_fold (\<lambda>s f. set_policy_field codec uni s f (policy_field_value codec p f))
      (blank_policy i t) policy_fields = Inr r"
    and eq: "\<And>f. policy_field_value codec r f = policy_field_value codec p f"
    using policy_codec_fields.write_all [of codec p uni "blank_policy i t" policy_fields] assms policy_fields_all
    by auto
  have "policy_sound (blank_policy i t)"
    by (simp add: policy_sound_def blank_policy_def in_i64_def i64_min_def i64_max_def i32_min_def i32_max_def)
  then have frame: "policy_sound r \<and> same_meta r (blank_policy i t)"
    by (rule write_fields_frame [OF assms(1,2) _ r])
  have "r = ?goal"
  proof (rule values_determine [OF assms(1)])
    show "policy_sound r" "same_meta r ?goal" using frame by (simp_all add: same_meta_def blank_policy_def)
    show "policy_sound ?goal" using assms(2) by (simp add: policy_sound_def)
    show "policy_field_value codec r f = policy_field_value codec ?goal f" for f
      using eq [of f] by (cases f) (simp_all add: policy_field_value_def)
  qed
  with r show ?thesis by (simp add: replay_policy_created_def snapshot_lookup ok_or_else_def)
qed

text \<open>Neither the version nor the update stamp is read by the events.\<close>

definition stamp_updated :: "timestamp \<Rightarrow> scan_policy_replay \<Rightarrow> scan_policy_replay" where
  "stamp_updated t r = r\<lparr>rp_policy := (rp_policy r)\<lparr>pol_updated_at := t\<rparr>\<rparr>"

definition stamp_version :: "u64 \<Rightarrow> scan_policy_replay \<Rightarrow> scan_policy_replay" where
  "stamp_version v r = r\<lparr>rp_policy := (rp_policy r)\<lparr>pol_stream_version := v\<rparr>\<rparr>"

lemma set_policy_field_stamps:
  "set_policy_field codec uni (p\<lparr>pol_updated_at := t\<rparr>) f x =
     map_sum id (\<lambda>p. p\<lparr>pol_updated_at := t\<rparr>) (set_policy_field codec uni p f x)"
  "set_policy_field codec uni (p\<lparr>pol_stream_version := v\<rparr>) f x =
     map_sum id (\<lambda>p. p\<lparr>pol_stream_version := v\<rparr>) (set_policy_field codec uni p f x)"
  by (cases f; simp add: set_policy_field_def and_then_def split: sum.split)+

lemma apply_policy_event_stamps:
  "apply_policy_event codec uni (stamp_updated t r) e a = map_sum id (stamp_updated t) (apply_policy_event codec uni r e a)"
  "apply_policy_event codec uni (stamp_version v r) e a = map_sum id (stamp_version v) (apply_policy_event codec uni r e a)"
  by (cases e; simp add: apply_policy_event_def stamp_updated_def stamp_version_def Let_def and_then_def
      apply_policy_updated_def set_policy_field_stamps split: sum.split)+

lemma stamp_updated_idem [simp]: "stamp_updated t (stamp_updated u r) = stamp_updated t r"
  by (simp add: stamp_updated_def)

lemma fold_step_stamped:
  "fold_step codec uni r p = (case apply_policy_event codec uni r (pe_event p) (pe_actor p) of
     Inl e \<Rightarrow> Inl (at_position e (pe_stream_position p)) | Inr r' \<Rightarrow> Inr (stamp_updated (pe_stored_at p) r'))"
  by (simp add: fold_step_def map_err_def stamp_updated_def and_then_def split: sum.split)

lemma fold_steps_stamped:
  assumes "\<forall>p\<in>set ps. pe_actor p = a"
    and "try_fold (\<lambda>r e. apply_policy_event codec uni r e a) r (map pe_event ps) = Inr r'"
  shows "try_fold (fold_step codec uni) (stamp_updated t r) ps = Inr (stamp_updated (last (t # map pe_stored_at ps)) r')"
  using assms
proof (induction ps arbitrary: r t)
  case (Cons p ps)
  then obtain r1 where r1: "apply_policy_event codec uni r (pe_event p) a = Inr r1"
      "try_fold (\<lambda>r e. apply_policy_event codec uni r e a) r1 (map pe_event ps) = Inr r'"
    by auto
  moreover have "fold_step codec uni (stamp_updated t r) p = Inr (stamp_updated (pe_stored_at p) r1)"
    using Cons.prems(1) r1(1) by (simp add: fold_step_stamped apply_policy_event_stamps)
  ultimately show ?case using Cons by simp
qed simp

lemma try_fold_apply_stamp_version:
  "try_fold (\<lambda>r e. apply_policy_event codec uni r e a) (stamp_version v r) es =
     map_sum id (stamp_version v) (try_fold (\<lambda>r e. apply_policy_event codec uni r e a) r es)"
  by (induction es arbitrary: r) (auto simp: apply_policy_event_stamps and_then_def split: sum.split)

section \<open>Properties\<close>

text \<open>A codec that satisfies the contract.\<close>

definition sample_codec :: policy_codec where
  "sample_codec =
     \<lparr>enc_scope = (\<lambda>x. case x of ScopeGlobal \<Rightarrow> JNull | ScopeRepository i \<Rightarrow> JString (replicate (unat i) CHR ''0'')),
      dec_scope = (\<lambda>j. case j of JNull \<Rightarrow> Some ScopeGlobal
                             | JString s \<Rightarrow> Some (ScopeRepository (of_nat (length s))) | _ \<Rightarrow> None),
      enc_threshold = (\<lambda>x. JString (severity_to_string x)),
      dec_threshold = (\<lambda>j. case j of JString s \<Rightarrow> (case severity_from_str id s of Inr x \<Rightarrow> Some x | Inl _ \<Rightarrow> None)
                                 | _ \<Rightarrow> None),
      enc_strings = (\<lambda>xs. JArray (map JString xs)),
      dec_strings = (\<lambda>j. case j of JArray xs \<Rightarrow> those (map json_as_str xs) | _ \<Rightarrow> None),
      enc_identities = (\<lambda>ps. JObject (map (\<lambda>p. (sip_issuer p, JString (sip_san p))) ps)),
      dec_identities = (\<lambda>j. case j of
          JObject kvs \<Rightarrow> those (map (\<lambda>(k, v). map_option (\<lambda>s. \<lparr>sip_issuer = k, sip_san = s\<rparr>) (json_as_str v)) kvs)
        | _ \<Rightarrow> None)\<rparr>"

lemma those_map_Some: "those (map (\<lambda>x. Some (f x)) xs) = Some (map f xs)"
  by (induction xs) simp_all

lemma sample_codec_ok: "codec_ok sample_codec"
  by (simp add: codec_ok_def sample_codec_def severity_wire.parse_show comp_def json_as_str_def
      those_map_Some case_prod_beta split: policy_scope.split) (simp add: map_idI)

text \<open>
  C33. Diffing two policies and applying the diff are inverse. The field updates computed between a
  current and a desired policy, applied in order, always succeed and produce the desired
  configuration, with the identity, the archived flag and the stamps of the current policy; and
  the diff of a policy with itself is empty.
\<close>

theorem policy_diff_roundtrip:
  assumes "codec_ok codec" and "policy_sound current" and "policy_sound desired"
  shows "try_fold (apply_policy_updated codec uni) current (diff_policy_fields codec i current desired) =
      Inr (desired\<lparr>pol_policy_id := pol_policy_id current, pol_archived := pol_archived current,
                   pol_stream_version := pol_stream_version current, pol_created_at := pol_created_at current,
                   pol_updated_at := pol_updated_at current\<rparr>) \<and>
    diff_policy_fields codec i current current = []"
  using apply_diff [OF assms] by (simp add: diff_as_map)

theorem policy_diff_roundtrip_witness:
  "try_fold (apply_policy_updated sample_codec id) (blank_policy 1 0)
     (diff_policy_fields sample_codec 1 (blank_policy 1 0) ((blank_policy 1 9)\<lparr>pol_name := ''strict''\<rparr>)) =
   Inr ((blank_policy 1 0)\<lparr>pol_name := ''strict''\<rparr>)"
  using policy_diff_roundtrip [OF sample_codec_ok, of "blank_policy 1 0" "(blank_policy 1 9)\<lparr>pol_name := ''strict''\<rparr>" id 1]
  by (simp add: policy_sound_def blank_policy_def in_i64_def i64_min_def i64_max_def i32_min_def i32_max_def)

text \<open>
  A creation snapshot replays to the policy it was taken from: every configuration field is
  recovered, the replayed policy is active, at version zero, and stamped with the instant of the
  event.
\<close>

theorem policy_snapshot_roundtrip:
  assumes "codec_ok codec" and "policy_sound p"
  shows "replay_policy_created codec uni
      \<lparr>pcr_policy_id = i, pcr_name = pol_name p, pcr_scope = pol_scope p,
       pcr_config_snapshot = policy_config_snapshot codec p\<rparr> t =
    Inr (p\<lparr>pol_policy_id := i, pol_archived := False, pol_stream_version := 0, pol_created_at := t,
           pol_updated_at := t\<rparr>)"
  by (rule replay_snapshot [OF assms])

theorem policy_snapshot_roundtrip_witness:
  "is_ok (replay_policy_created sample_codec id
      \<lparr>pcr_policy_id = 4, pcr_name = [], pcr_scope = ScopeGlobal,
       pcr_config_snapshot = policy_config_snapshot sample_codec (blank_policy 1 0)\<rparr> 50)"
  using policy_snapshot_roundtrip [OF sample_codec_ok, of "blank_policy 1 0" id 4 50]
  by (simp add: policy_sound_def blank_policy_def in_i64_def i64_min_def i64_max_def i32_min_def i32_max_def)

text \<open>
  C28. Applying a batch in place agrees with replaying the extended stream. If a stream folds to a
  replay, and a non-empty batch applied to that replay succeeds, then the stream extended by the
  batch, as appended by the same actor, folds to the same replay but for the instant of the last
  update: the replay takes the instant the store gave the last event, the batch the clock reading after the append. When
  these are the same, so are the two results.
\<close>

theorem batch_agrees_with_replay:
  assumes "fold_scan_policy codec uni es = Inr r"
    and "apply_policy_batch codec uni r (map pe_event ps) a t (pe_stream_position (last ps)) = Inr r'"
    and "ps \<noteq> []" and "\<forall>p\<in>set ps. pe_actor p = a"
  shows "fold_scan_policy codec uni (es @ ps) = Inr (r'\<lparr>rp_policy := (rp_policy r')\<lparr>pol_updated_at := pe_stored_at (last ps)\<rparr>\<rparr>) \<and>
    (pe_stored_at (last ps) = t \<longrightarrow> fold_scan_policy codec uni (es @ ps) = Inr r')"
proof -
  obtain first rest created policy r0 where es: "es = first # rest" "pe_event first = PCreated created"
      "replay_policy_created codec uni created (pe_stored_at first) = Inr policy"
      "try_fold (fold_step codec uni) \<lparr>rp_policy = policy, rp_exclusions = []\<rparr> rest = Inr r0"
      "r = stamp_version (pe_stream_position (last es)) r0"
    using assms(1)
    by (auto simp: fold_scan_policy_def stamp_version_def split: list.splits policy_stream_event.splits)
  obtain r1 where r1: "try_fold (\<lambda>r e. apply_policy_event codec uni r e a) r (map pe_event ps) = Inr r1"
      "r' = stamp_updated t (stamp_version (pe_stream_position (last ps)) r1)"
    using assms(2) by (auto simp: apply_policy_batch_def stamp_updated_def stamp_version_def)
  obtain r2 where r2: "try_fold (\<lambda>r e. apply_policy_event codec uni r e a) r0 (map pe_event ps) = Inr r2"
      "r1 = stamp_version (pe_stream_position (last es)) r2"
    using r1(1) unfolding es(5) try_fold_apply_stamp_version
    by (cases "try_fold (\<lambda>r e. apply_policy_event codec uni r e a) r0 (map pe_event ps)") auto
  obtain p qs where ps: "ps = p # qs" using assms(3) by (cases ps) auto
  obtain r3 where r3: "apply_policy_event codec uni r0 (pe_event p) a = Inr r3"
      "try_fold (\<lambda>r e. apply_policy_event codec uni r e a) r3 (map pe_event qs) = Inr r2"
    using r2(1) by (auto simp: ps)
  have "fold_step codec uni r0 p = Inr (stamp_updated (pe_stored_at p) r3)"
    using assms(4) r3(1) by (simp add: ps fold_step_stamped)
  moreover have "try_fold (fold_step codec uni) (stamp_updated (pe_stored_at p) r3) qs =
      Inr (stamp_updated (last (pe_stored_at p # map pe_stored_at qs)) r2)"
    by (rule fold_steps_stamped [OF _ r3(2)]) (use assms(4) in \<open>simp add: ps\<close>)
  moreover have "last (pe_stored_at p # map pe_stored_at qs) = pe_stored_at (last ps)"
    by (simp add: ps last_map)
  ultimately have "try_fold (fold_step codec uni) r0 ps = Inr (stamp_updated (pe_stored_at (last ps)) r2)"
    by (simp add: ps)
  then have "fold_scan_policy codec uni (es @ ps) = Inr (r'\<lparr>rp_policy := (rp_policy r')\<lparr>pol_updated_at := pe_stored_at (last ps)\<rparr>\<rparr>)"
    using es(1-4) assms(3)
    by (simp add: fold_scan_policy_def try_fold_append r1(2) r2(2) stamp_updated_def stamp_version_def)
  then show ?thesis by (simp add: r1(2) stamp_updated_def)
qed

definition sample_envelope :: "u64 \<Rightarrow> policy_stream_event \<Rightarrow> timestamp \<Rightarrow> policy_stream_event persisted_event" where
  "sample_envelope pos e t =
     \<lparr>pe_event_id = 1, pe_stream_id = \<lparr>si_category = CatPolicy, si_entity_id = 4\<rparr>, pe_stream_position = pos, pe_global_position = pos, pe_event = e,
      pe_correlation_id = 2, pe_causation_id = None, pe_actor = ApiActor 7, pe_event_version = 1,
      pe_stored_at = t\<rparr>"

theorem batch_agrees_with_replay_witness:
  "\<exists>r'. fold_scan_policy sample_codec id
     ([sample_envelope 0 (PCreated \<lparr>pcr_policy_id = 4, pcr_name = [], pcr_scope = ScopeGlobal,
         pcr_config_snapshot = policy_config_snapshot sample_codec (blank_policy 1 0)\<rparr>) 50]
      @ [sample_envelope 1 (PArchived 4) 60]) = Inr r' \<and> pol_archived (rp_policy r')"
proof -
  let ?created = "sample_envelope 0 (PCreated \<lparr>pcr_policy_id = 4, pcr_name = [], pcr_scope = ScopeGlobal,
         pcr_config_snapshot = policy_config_snapshot sample_codec (blank_policy 1 0)\<rparr>) 50"
  let ?r = "\<lparr>rp_policy = blank_policy 4 50, rp_exclusions = []\<rparr>"
  have sound: "policy_sound (blank_policy 1 0)"
    by (simp add: policy_sound_def blank_policy_def in_i64_def i64_min_def i64_max_def i32_min_def i32_max_def)
  have fold: "fold_scan_policy sample_codec id [?created] = Inr ?r"
    using replay_snapshot [OF sample_codec_ok sound, of id 4 50]
    by (simp add: fold_scan_policy_def sample_envelope_def blank_policy_def)
  have batch: "apply_policy_batch sample_codec id ?r (map pe_event [sample_envelope 1 (PArchived 4) 60]) (ApiActor 7) 60
      (pe_stream_position (last [sample_envelope 1 (PArchived 4) 60]))
    = Inr \<lparr>rp_policy = (blank_policy 4 50)\<lparr>pol_archived := True, pol_stream_version := 1, pol_updated_at := 60\<rparr>,
           rp_exclusions = []\<rparr>"
    by (simp add: apply_policy_batch_def apply_policy_event_def require_same_policy_def sample_envelope_def
        blank_policy_def Let_def)
  have "fold_scan_policy sample_codec id ([?created] @ [sample_envelope 1 (PArchived 4) 60]) =
      Inr \<lparr>rp_policy = (blank_policy 4 50)\<lparr>pol_archived := True, pol_stream_version := 1, pol_updated_at := 60\<rparr>,
           rp_exclusions = []\<rparr>"
    by (rule batch_agrees_with_replay [OF fold batch, THEN conjunct2, THEN mp]) (simp_all add: sample_envelope_def)
  then show ?thesis by auto
qed

end
