(* ===== verification/Retention.thy ===== *)
theory Retention
  imports Artifact_Events
begin

text \<open>
  Retention (\<^verbatim>\<open>retention/\<close>): the predicate language and its validation, scopes, the evaluation of
  a predicate against one artifact with the reason it records, the resolution of a finding's age,
  and the event-sourced retention policy.
\<close>

section \<open>Modes and predicates\<close>

datatype retention_evaluation_mode = Execute | DryRun

fun retention_mode_as_str :: "retention_evaluation_mode \<Rightarrow> string" where
  "retention_mode_as_str Execute = ''execute''"
| "retention_mode_as_str DryRun = ''dry_run''"

fun is_destructive :: "retention_evaluation_mode \<Rightarrow> bool" where
  "is_destructive Execute = True"
| "is_destructive DryRun = False"

definition retention_mode_from_str :: "string \<Rightarrow> string + retention_evaluation_mode" where
  "retention_mode_from_str v =
     (if v = ''execute'' then Inr Execute
      else if v = ''dry_run'' then Inr DryRun
      else Inl ''mode must be one of: execute, dry_run'')"

datatype boolean_op = And | Or

datatype policy_predicate =
    AgeExceeds u64
  | UnusedFor u64
  | KeepLastN u32
  | Composite boolean_op "policy_predicate list"
  | HasFindingAboveSeverity severity_threshold
  | HasFindingAboveCvss f32
  | HasFixAvailable
  | HasFindingDetectedFor u64

definition max_composite_depth :: nat where "max_composite_depth = 8"
definition max_composite_children :: nat where "max_composite_children = 64"
definition max_cvss :: f32 where "max_cvss = f32_ten"

datatype retention_msg =
    DurationMustBePositive
  | KeepLastZero
  | CvssNotFinite
  | CvssOutOfRange f32
  | NestingTooDeep
  | EmptyComposite
  | TooManyChildren nat
  | ReposEmpty
  | TooManyRepos nat
  | PatternEmpty
  | PatternTooLong nat
  | ManualReasonEmpty
  | ManualReasonTooLong nat
  | RankZero
  | RankExceedsTotal u32 u32
  | RankWithinKeep u32 u32
  | NoFinding
  | ReasonCvssRange f32
  | SourceWithoutDate
  | ScanPrecedesKnownSince
  | PolicyNameEmpty
  | PolicyNameTooLong nat
  | EmptyStream
  | MustOpenWithCreatedEvent string
  | MixedAggregates uuid uuid
  | PolicyIsArchived uuid string
  | SecondCreatedEvent

type_synonym 'a retention_result = "retention_msg domain_error + 'a"

fun is_security_driven :: "policy_predicate \<Rightarrow> bool" where
  "is_security_driven (HasFindingAboveSeverity _) = True"
| "is_security_driven (HasFindingAboveCvss _) = True"
| "is_security_driven HasFixAvailable = True"
| "is_security_driven (HasFindingDetectedFor _) = True"
| "is_security_driven (Composite _ children) = list_ex is_security_driven children"
| "is_security_driven (AgeExceeds _) = False"
| "is_security_driven (UnusedFor _) = False"
| "is_security_driven (KeepLastN _) = False"

definition validate_duration :: "u64 \<Rightarrow> unit retention_result" where
  "validate_duration secs = (if secs = 0 then Inl (Validation DurationMustBePositive) else Inr ())"

fun validate_at_depth :: "nat \<Rightarrow> policy_predicate \<Rightarrow> unit retention_result" where
  "validate_at_depth depth (AgeExceeds secs) = validate_duration secs"
| "validate_at_depth depth (UnusedFor secs) = validate_duration secs"
| "validate_at_depth depth (HasFindingDetectedFor secs) = validate_duration secs"
| "validate_at_depth depth (KeepLastN n) = (if n = 0 then Inl (Validation KeepLastZero) else Inr ())"
| "validate_at_depth depth (HasFindingAboveCvss score) =
     (if \<not> f32_is_finite score then Inl (Validation CvssNotFinite)
      else if f32_lt score f32_zero \<or> f32_lt max_cvss score then Inl (Validation (CvssOutOfRange score))
      else Inr ())"
| "validate_at_depth depth (Composite op children) =
     (if depth \<ge> max_composite_depth then Inl (Validation NestingTooDeep)
      else if children = [] then Inl (Validation EmptyComposite)
      else if length children > max_composite_children
      then Inl (Validation (TooManyChildren (length children)))
      else check_each (validate_at_depth (depth + 1)) children)"
| "validate_at_depth depth (HasFindingAboveSeverity _) = Inr ()"
| "validate_at_depth depth HasFixAvailable = Inr ()"

definition predicate_validate :: "policy_predicate \<Rightarrow> unit retention_result" where
  "predicate_validate p = validate_at_depth 0 p"

fun as_duration :: "policy_predicate \<Rightarrow> duration option" where
  "as_duration (AgeExceeds s) = Some (uint s * 1000000000)"
| "as_duration (UnusedFor s) = Some (uint s * 1000000000)"
| "as_duration (HasFindingDetectedFor s) = Some (uint s * 1000000000)"
| "as_duration _ = None"

section \<open>Scopes\<close>

datatype retention_scope =
    AllRepos
  | Repos "uuid list"
  | ScopeFormat repository_format
  | PackageNamePattern string
  | ScopeIngestSource ingest_source

definition max_repos_in_scope :: nat where "max_repos_in_scope = 1024"
definition max_package_pattern_len :: nat where "max_package_pattern_len = 512"

definition excludes_direct_uploads :: "retention_scope \<Rightarrow> bool" where
  "excludes_direct_uploads s = (case s of ScopeIngestSource Proxied \<Rightarrow> True | _ \<Rightarrow> False)"

definition scope_matches ::
    "retention_scope \<Rightarrow> uuid \<Rightarrow> repository_format \<Rightarrow> string \<Rightarrow> ingest_source \<Rightarrow> bool" where
  "scope_matches scope repository_id format name ingest_source =
     (case scope of
        AllRepos \<Rightarrow> True
      | Repos ids \<Rightarrow> repository_id \<in> set ids
      | ScopeFormat f \<Rightarrow> f = format
      | PackageNamePattern p \<Rightarrow> exclusion_pattern_matches p name
      | ScopeIngestSource s \<Rightarrow> s = ingest_source)"

definition scope_validate :: "retention_scope \<Rightarrow> unit retention_result" where
  "scope_validate scope =
     (case scope of
        Repos ids \<Rightarrow>
          (if ids = [] then Inl (Validation ReposEmpty)
           else if length ids > max_repos_in_scope then Inl (Validation (TooManyRepos (length ids)))
           else Inr ())
      | PackageNamePattern p \<Rightarrow>
          (if p = [] then Inl (Validation PatternEmpty)
           else if length p > max_package_pattern_len then Inl (Validation (PatternTooLong (length p)))
           else Inr ())
      | _ \<Rightarrow> Inr ())"

section \<open>How long a vulnerability has been known\<close>

datatype finding_age_anchor_source = AdvisoryPublication string | FirstObservation

record finding_age_anchor =
  fa_known_since :: timestamp
  fa_source :: finding_age_anchor_source

definition distinct_vulnerability_ids :: "finding list \<Rightarrow> string list" where
  "distinct_vulnerability_ids findings =
     foldl (\<lambda>ids f. let i = to_ascii_lowercase (f_vulnerability_id f) in
                    if i \<in> set ids then ids else ids @ [i]) [] findings"

definition published_anchor :: "finding list \<Rightarrow> string \<Rightarrow> finding_age_anchor option" where
  "published_anchor findings vuln_id =
     map_option (\<lambda>(published, scanner).
         \<lparr>fa_known_since = published, fa_source = AdvisoryPublication scanner\<rparr>)
       (min_by (\<lambda>a b. fst a < fst b)
         (List.map_filter (\<lambda>f. map_option (\<lambda>published. (published, f_source_scanner f))
                                   (f_advisory_published_at f))
           (filter (\<lambda>f. eq_ignore_ascii_case (f_vulnerability_id f) vuln_id) findings)))"

definition observed_anchor :: "(string \<times> timestamp) list \<Rightarrow> string \<Rightarrow> finding_age_anchor option" where
  "observed_anchor first_observed vuln_id =
     map_option (\<lambda>seen. \<lparr>fa_known_since = seen, fa_source = FirstObservation\<rparr>)
       (min_by (<) (map snd (filter (\<lambda>(i, _). eq_ignore_ascii_case i vuln_id) first_observed)))"

definition per_vuln_anchor ::
    "finding list \<Rightarrow> (string \<times> timestamp) list \<Rightarrow> string \<Rightarrow> finding_age_anchor option" where
  "per_vuln_anchor findings first_observed vuln_id =
     (case published_anchor findings vuln_id of
        Some a \<Rightarrow> Some a
      | None \<Rightarrow> observed_anchor first_observed vuln_id)"

definition resolve_finding_age_anchor ::
    "finding list \<Rightarrow> (string \<times> timestamp) list \<Rightarrow> finding_age_anchor option" where
  "resolve_finding_age_anchor findings first_observed =
     foldl (\<lambda>best vuln_id.
         (case per_vuln_anchor findings first_observed vuln_id of
            None \<Rightarrow> best
          | Some candidate \<Rightarrow>
              (case best of
                 None \<Rightarrow> Some candidate
               | Some b \<Rightarrow> if fa_known_since candidate < fa_known_since b then Some candidate else best)))
       None (distinct_vulnerability_ids findings)"

section \<open>Evaluation\<close>

datatype expiration_reason =
    AgeExceeded timestamp u64
  | UnusedTtl "timestamp option" u64
  | KeepLastNExceeded u32 u32 u32
  | ManualExpiry uuid string
  | SecurityFinding severity_threshold "f32 option" u32 bool "timestamp option"
      "finding_age_anchor_source option" timestamp

fun metric_label :: "expiration_reason \<Rightarrow> string" where
  "metric_label (AgeExceeded _ _) = ''age_exceeded''"
| "metric_label (UnusedTtl _ _) = ''unused_ttl''"
| "metric_label (KeepLastNExceeded _ _ _) = ''keep_last_n''"
| "metric_label (ManualExpiry _ _) = ''manual''"
| "metric_label (SecurityFinding _ _ _ _ _ _ _) = ''security_finding''"

definition max_manual_reason_len :: nat where "max_manual_reason_len = 4096"

fun reason_validate :: "expiration_reason \<Rightarrow> unit retention_result" where
  "reason_validate (ManualExpiry actor reason) =
     (if reason = [] then Inl (Validation ManualReasonEmpty)
      else if length reason > max_manual_reason_len
      then Inl (Validation (ManualReasonTooLong (length reason)))
      else Inr ())"
| "reason_validate (KeepLastNExceeded keep versions rank) =
     (if rank = 0 then Inl (Validation RankZero)
      else if rank > versions then Inl (Validation (RankExceedsTotal rank versions))
      else if rank \<le> keep then Inl (Validation (RankWithinKeep rank keep))
      else Inr ())"
| "reason_validate (SecurityFinding severity cvss findings fix known_since source latest_scan_at) =
     (if findings = 0 then Inl (Validation NoFinding)
      else case (case cvss of
                   None \<Rightarrow> None
                 | Some c \<Rightarrow> if \<not> f32_is_finite c \<or> f32_lt c f32_zero \<or> f32_lt f32_ten c then Some c else None) of
        Some c \<Rightarrow> Inl (Validation (ReasonCvssRange c))
      | None \<Rightarrow>
          (if known_since = None \<and> source \<noteq> None then Inl (Validation SourceWithoutDate)
           else if (source = None \<or> source = Some FirstObservation) \<and>
                   (case known_since of None \<Rightarrow> False | Some k \<Rightarrow> latest_scan_at < k)
           then Inl (Validation ScanPrecedesKnownSince)
           else Inr ()))"
| "reason_validate (AgeExceeded _ _) = Inr ()"
| "reason_validate (UnusedTtl _ _) = Inr ()"

record evaluation_inputs =
  ei_now :: timestamp
  ei_created_at :: timestamp
  ei_last_downloaded_at :: "timestamp option"
  ei_keep_rank :: "(u32 \<times> u32) option"
  ei_tag_targeted :: bool
  ei_findings :: "finding list"
  ei_finding_age_anchor :: "finding_age_anchor option"
  ei_latest_scan_at :: timestamp

fun tier_rank :: "severity_threshold \<Rightarrow> nat" where
  "tier_rank Critical = 3"
| "tier_rank High = 2"
| "tier_rank Medium = 1"
| "tier_rank Low = 0"

definition severity_at_or_above :: "severity_threshold \<Rightarrow> severity_threshold \<Rightarrow> bool" where
  "severity_at_or_above have_tier threshold \<longleftrightarrow> tier_rank have_tier \<ge> tier_rank threshold"

text \<open>
  \<^verbatim>\<open>to_std\<close> fails on a negative span; \<^verbatim>\<open>as_secs\<close> drops the sub-second part.
\<close>

definition elapsed_at_least :: "timestamp \<Rightarrow> timestamp \<Rightarrow> u64 \<Rightarrow> bool" where
  "elapsed_at_least anchor now secs =
     (let delta = now - anchor in
      if delta < 0 then False else delta div 1000000000 \<ge> uint secs)"

fun matches_bool :: "evaluation_inputs \<Rightarrow> policy_predicate \<Rightarrow> bool" where
  "matches_bool inputs (AgeExceeds secs) = elapsed_at_least (ei_created_at inputs) (ei_now inputs) secs"
| "matches_bool inputs (UnusedFor secs) =
     (case ei_last_downloaded_at inputs of
        None \<Rightarrow> elapsed_at_least (ei_created_at inputs) (ei_now inputs) secs
      | Some dl \<Rightarrow> elapsed_at_least dl (ei_now inputs) secs)"
| "matches_bool inputs (KeepLastN keep) =
     (case ei_keep_rank inputs of
        None \<Rightarrow> False
      | Some (rank, _) \<Rightarrow> if ei_tag_targeted inputs then False else rank > keep)"
| "matches_bool inputs (HasFindingAboveSeverity threshold) =
     list_ex (\<lambda>f. severity_at_or_above (f_severity f) threshold) (ei_findings inputs)"
| "matches_bool inputs (HasFindingAboveCvss least) =
     list_ex (\<lambda>f. case f_cvss_score f of None \<Rightarrow> False | Some c \<Rightarrow> f32_le least c) (ei_findings inputs)"
| "matches_bool inputs HasFixAvailable = list_ex (\<lambda>f. f_fixed_versions f \<noteq> []) (ei_findings inputs)"
| "matches_bool inputs (HasFindingDetectedFor secs) =
     (case ei_finding_age_anchor inputs of
        None \<Rightarrow> False
      | Some anchor \<Rightarrow>
          ei_findings inputs \<noteq> [] \<and> elapsed_at_least (fa_known_since anchor) (ei_now inputs) secs)"
| "matches_bool inputs (Composite op kids) =
     (case op of
        And \<Rightarrow> list_all (\<lambda>k. matches_bool inputs k) kids
      | Or \<Rightarrow> list_ex (\<lambda>k. matches_bool inputs k) kids)"

fun matched_via_security :: "evaluation_inputs \<Rightarrow> policy_predicate \<Rightarrow> bool" where
  "matched_via_security inputs (HasFindingAboveSeverity _) = True"
| "matched_via_security inputs (HasFindingAboveCvss _) = True"
| "matched_via_security inputs HasFixAvailable = True"
| "matched_via_security inputs (HasFindingDetectedFor _) = True"
| "matched_via_security inputs (Composite op kids) =
     (case op of
        And \<Rightarrow> list_ex (\<lambda>k. matched_via_security inputs k) kids
      | Or \<Rightarrow> list_ex (\<lambda>k. matches_bool inputs k \<and> matched_via_security inputs k) kids)"
| "matched_via_security inputs (AgeExceeds _) = False"
| "matched_via_security inputs (UnusedFor _) = False"
| "matched_via_security inputs (KeepLastN _) = False"

definition max_severity :: "finding list \<Rightarrow> severity_threshold" where
  "max_severity findings =
     foldl (\<lambda>m f. if severity_at_or_above (f_severity f) m then f_severity f else m) Low findings"

definition max_cvss_score :: "finding list \<Rightarrow> f32 option" where
  "max_cvss_score findings =
     foldl (\<lambda>acc c. Some (case acc of None \<Rightarrow> c | Some a \<Rightarrow> f32_max a c)) None
       (List.map_filter f_cvss_score findings)"

definition security_reason :: "evaluation_inputs \<Rightarrow> expiration_reason" where
  "security_reason inputs =
     SecurityFinding
       (max_severity (ei_findings inputs))
       (max_cvss_score (ei_findings inputs))
       (if length (ei_findings inputs) < 4294967296 then of_nat (length (ei_findings inputs)) else - 1)
       (list_ex (\<lambda>f. f_fixed_versions f \<noteq> []) (ei_findings inputs))
       (map_option fa_known_since (ei_finding_age_anchor inputs))
       (map_option fa_source (ei_finding_age_anchor inputs))
       (ei_latest_scan_at inputs)"

function (sequential) non_security_reason :: "evaluation_inputs \<Rightarrow> policy_predicate \<Rightarrow> expiration_reason" where
  "non_security_reason inputs (AgeExceeds secs) = AgeExceeded (ei_created_at inputs) secs"
| "non_security_reason inputs (UnusedFor secs) = UnusedTtl (ei_last_downloaded_at inputs) secs"
| "non_security_reason inputs (KeepLastN keep) =
     (let (rank, versions) =
        (case ei_keep_rank inputs of
           Some r \<Rightarrow> r
         | None \<Rightarrow> (if keep = - 1 then - 1 else keep + 1, keep))
      in KeepLastNExceeded keep versions rank)"
| "non_security_reason inputs (Composite op kids) =
     (case find (\<lambda>k. matches_bool inputs k \<and> \<not> matched_via_security inputs k) kids of
        Some k \<Rightarrow> non_security_reason inputs k
      | None \<Rightarrow> AgeExceeded (ei_created_at inputs) 0)"
| "non_security_reason inputs _ = security_reason inputs"
  by pat_completeness auto

lemma find_Some_in_set: "find P xs = Some x \<Longrightarrow> x \<in> set xs \<and> P x"
  by (auto simp: find_Some_iff)

termination non_security_reason
  by (relation "measure (\<lambda>(inputs, p). size p)")
    (auto dest!: find_Some_in_set size_list_estimation' [OF _ order_refl, where f = size])

datatype evaluation_outcome = NoMatch | Matched expiration_reason

definition evaluate :: "policy_predicate \<Rightarrow> evaluation_inputs \<Rightarrow> evaluation_outcome" where
  "evaluate p inputs =
     (if \<not> matches_bool inputs p then NoMatch
      else if matched_via_security inputs p then Matched (security_reason inputs)
      else Matched (non_security_reason inputs p))"

section \<open>The retention policy aggregate\<close>

datatype retention_policy_event =
    RetentionCreated uuid string policy_predicate retention_scope timestamp
  | RetentionUpdated uuid policy_predicate retention_scope timestamp
  | RetentionArchived uuid uuid timestamp
  | RetentionEvaluated uuid timestamp u32 u32

fun aggregate_id :: "retention_policy_event \<Rightarrow> uuid" where
  "aggregate_id (RetentionCreated i _ _ _ _) = i"
| "aggregate_id (RetentionUpdated i _ _ _) = i"
| "aggregate_id (RetentionArchived i _ _) = i"
| "aggregate_id (RetentionEvaluated i _ _ _) = i"

definition max_retention_name_len :: nat where "max_retention_name_len = 256"

definition validate_name :: "string \<Rightarrow> unit retention_result" where
  "validate_name name =
     (if name = [] then Inl (Validation PolicyNameEmpty)
      else if length name > max_retention_name_len then Inl (Validation (PolicyNameTooLong (length name)))
      else Inr ())"

fun retention_event_validate :: "retention_policy_event \<Rightarrow> unit retention_result" where
  "retention_event_validate (RetentionCreated _ name p scope _) =
     and_then (validate_name name) (\<lambda>_.
     and_then (predicate_validate p) (\<lambda>_. scope_validate scope))"
| "retention_event_validate (RetentionUpdated _ p scope _) =
     and_then (predicate_validate p) (\<lambda>_. scope_validate scope)"
| "retention_event_validate (RetentionArchived _ _ _) = Inr ()"
| "retention_event_validate (RetentionEvaluated _ _ _ _) = Inr ()"

fun retention_variant_name :: "retention_policy_event \<Rightarrow> string" where
  "retention_variant_name (RetentionCreated _ _ _ _ _) = ''Created''"
| "retention_variant_name (RetentionUpdated _ _ _ _) = ''Updated''"
| "retention_variant_name (RetentionArchived _ _ _) = ''Archived''"
| "retention_variant_name (RetentionEvaluated _ _ _ _) = ''Evaluated''"

record retention_policy =
  ret_id :: uuid
  ret_name :: string
  ret_predicate :: policy_predicate
  ret_scope :: retention_scope
  ret_archived :: bool
  ret_created_at :: timestamp
  ret_updated_at :: timestamp
  ret_last_evaluated_at :: "timestamp option"
  ret_last_matched_count :: u32
  ret_last_expired_count :: u32
  ret_stream_version :: u64

text \<open>
  Every error of \<^verbatim>\<open>apply_appended\<close> is returned before the first assignment, so a failed call leaves
  the aggregate as it was and the result alone describes the call.
\<close>

fun retention_change :: "retention_policy_event \<Rightarrow> retention_policy \<Rightarrow> retention_policy retention_result" where
  "retention_change (RetentionCreated _ _ _ _ _) self = Inl (Invariant SecondCreatedEvent)"
| "retention_change (RetentionUpdated i p scope at_time) self =
     and_then (retention_event_validate (RetentionUpdated i p scope at_time)) (\<lambda>_.
       Inr (self\<lparr>ret_predicate := p, ret_scope := scope, ret_updated_at := at_time\<rparr>))"
| "retention_change (RetentionArchived _ _ at_time) self =
     Inr (self\<lparr>ret_archived := True, ret_updated_at := at_time\<rparr>)"
| "retention_change (RetentionEvaluated _ at_time matched expired) self =
     Inr (self\<lparr>ret_last_evaluated_at := Some at_time, ret_last_matched_count := matched,
               ret_last_expired_count := expired\<rparr>)"

definition apply_appended ::
    "retention_policy \<Rightarrow> retention_policy_event \<Rightarrow> retention_policy retention_result" where
  "apply_appended self event =
     (if aggregate_id event \<noteq> ret_id self
      then Inl (Invariant (MixedAggregates (ret_id self) (aggregate_id event)))
      else if ret_archived self
      then Inl (Invariant (PolicyIsArchived (ret_id self) (retention_variant_name event)))
      else and_then (retention_change event self) (\<lambda>s.
        Inr (s\<lparr>ret_stream_version := ret_stream_version s + 1\<rparr>)))"

definition retention_opened :: "uuid \<Rightarrow> string \<Rightarrow> policy_predicate \<Rightarrow> retention_scope \<Rightarrow> timestamp \<Rightarrow> retention_policy" where
  "retention_opened i name p scope at_time =
     \<lparr>ret_id = i, ret_name = name, ret_predicate = p, ret_scope = scope, ret_archived = False,
      ret_created_at = at_time, ret_updated_at = at_time, ret_last_evaluated_at = None,
      ret_last_matched_count = 0, ret_last_expired_count = 0, ret_stream_version = 0\<rparr>"

fun retention_project :: "retention_policy_event list \<Rightarrow> retention_policy retention_result" where
  "retention_project [] = Inl (Invariant EmptyStream)"
| "retention_project (RetentionCreated i name p scope at_time # events) =
     and_then (retention_event_validate (RetentionCreated i name p scope at_time)) (\<lambda>_.
       try_fold apply_appended (retention_opened i name p scope at_time) events)"
| "retention_project (event # events) =
     Inl (Invariant (MustOpenWithCreatedEvent (retention_variant_name event)))"

section \<open>Leaves of a predicate and the reason they record\<close>

fun leaves :: "policy_predicate \<Rightarrow> policy_predicate list" where
  "leaves (Composite op kids) = concat (map leaves kids)"
| "leaves p = [p]"

fun is_leaf :: "policy_predicate \<Rightarrow> bool" where
  "is_leaf (Composite _ _) = False"
| "is_leaf _ = True"

fun well_nested :: "policy_predicate \<Rightarrow> bool" where
  "well_nested (Composite op kids) \<longleftrightarrow> kids \<noteq> [] \<and> list_all well_nested kids"
| "well_nested _ = True"

lemma leaves_are_leaves: "l \<in> set (leaves p) \<Longrightarrow> is_leaf l"
  by (induction p rule: leaves.induct) auto

lemma validated_well_nested: "is_ok (validate_at_depth d p) \<Longrightarrow> well_nested p"
  by (induction d p rule: validate_at_depth.induct)
    (auto simp: check_each_ok list_all_iff split: if_splits)

text \<open>A match through the security arm comes from a security leaf that matches on its own.\<close>

lemma security_leaf:
  "matches_bool inputs p \<Longrightarrow> matched_via_security inputs p \<Longrightarrow>
   \<exists>l\<in>set (leaves p). matches_bool inputs l \<and> matched_via_security inputs l"
  by (induction inputs p rule: matched_via_security.induct)
    (auto simp: list_ex_iff list_all_iff split: boolean_op.splits, blast+)

text \<open>
  A composite that matches without its security arm has a child that does: for \<open>And\<close> any child, since
  there is one, and for \<open>Or\<close> the child that matched.
\<close>

lemma non_security_child:
  assumes "matches_bool inputs (Composite op kids)" and "\<not> matched_via_security inputs (Composite op kids)"
    and "kids \<noteq> []"
  shows "\<exists>k. find (\<lambda>k. matches_bool inputs k \<and> \<not> matched_via_security inputs k) kids = Some k"
proof -
  have "\<exists>k\<in>set kids. matches_bool inputs k \<and> \<not> matched_via_security inputs k"
    using assms by (cases op; cases kids) (auto simp: list_ex_iff list_all_iff)
  then show ?thesis
    by (metis (no_types, lifting) find_None_iff not_None_eq)
qed

lemma non_security_leaf:
  "well_nested p \<Longrightarrow> matches_bool inputs p \<Longrightarrow> \<not> matched_via_security inputs p \<Longrightarrow>
   \<exists>l\<in>set (leaves p). matches_bool inputs l \<and> \<not> matched_via_security inputs l \<and>
     non_security_reason inputs p = non_security_reason inputs l"
proof (induction inputs p rule: non_security_reason.induct)
  case (4 inputs op kids)
  obtain k where k: "find (\<lambda>k. matches_bool inputs k \<and> \<not> matched_via_security inputs k) kids = Some k"
    using non_security_child [OF "4.prems"(2,3)] "4.prems"(1) by auto
  have in_kids: "k \<in> set kids" "matches_bool inputs k" "\<not> matched_via_security inputs k"
    using find_Some_in_set [OF k] by simp_all
  with "4.IH" [OF k] "4.prems"(1) show ?case
    by (auto simp: k list_all_iff simp del: matches_bool.simps matched_via_security.simps)
qed auto

lemma security_match_has_findings:
  "is_leaf l \<Longrightarrow> matches_bool inputs l \<Longrightarrow> matched_via_security inputs l \<Longrightarrow> ei_findings inputs \<noteq> []"
  by (cases l) (auto split: option.splits)

lemma evaluate_leaf:
  assumes "well_nested p" and "evaluate p inputs = Matched r"
  shows "\<exists>l\<in>set (leaves p). evaluate l inputs = Matched r"
proof (cases "matched_via_security inputs p")
  case True
  with assms obtain l where "l \<in> set (leaves p)" "matches_bool inputs l" "matched_via_security inputs l"
    using security_leaf by (auto simp: evaluate_def split: if_splits)
  with True assms show ?thesis by (force simp: evaluate_def split: if_splits)
next
  case False
  with assms obtain l where "l \<in> set (leaves p)" "matches_bool inputs l" "\<not> matched_via_security inputs l"
      "non_security_reason inputs p = non_security_reason inputs l"
    using non_security_leaf [of p inputs] by (auto simp: evaluate_def split: if_splits)
  with False assms show ?thesis by (force simp: evaluate_def split: if_splits)
qed

section \<open>The snapshot a security expiry records\<close>

lemma max_severity_foldl:
  fixes fs :: "finding list"
  defines "m b \<equiv> foldl (\<lambda>m f. if severity_at_or_above (f_severity f) m then f_severity f else m) b fs"
  shows "m b \<in> insert b (f_severity ` set fs) \<and>
    (\<forall>x\<in>insert b (f_severity ` set fs). tier_rank x \<le> tier_rank (m b))"
  unfolding m_def
proof (induction fs arbitrary: b)
  case (Cons f fs)
  show ?case
    using Cons.IH [of "if severity_at_or_above (f_severity f) b then f_severity f else b"]
    by (auto simp: severity_at_or_above_def split: if_splits)
qed simp

lemma tier_rank_inj: "tier_rank a = tier_rank b \<Longrightarrow> a = b"
  by (cases a; cases b) simp_all

lemma tier_rank_tier: "tier_rank s + severity_tier s = 3"
  by (cases s) simp_all

lemma max_severity_is_highest:
  assumes "findings \<noteq> []"
  shows "highest_severity findings = Some (max_severity findings)"
proof -
  let ?m = "max_severity findings"
  obtain f fs where fs: "findings = f # fs" using assms by (cases findings) auto
  have "\<exists>h. foldl (\<lambda>best f.
        (case best of
           None \<Rightarrow> Some (f_severity f)
         | Some b \<Rightarrow> if severity_tier (f_severity f) < severity_tier b then Some (f_severity f) else best))
       (Some b) gs = Some h" for b and gs :: "finding list"
    by (induction gs arbitrary: b) auto
  then obtain h where h: "highest_severity findings = Some h"
    by (auto simp: highest_severity_def fs)
  have best: "h \<in> f_severity ` set findings" "\<forall>x\<in>f_severity ` set findings. severity_tier h \<le> severity_tier x"
    using highest_severity_foldl [of "f_severity f" fs h] h by (auto simp: highest_severity_def fs)
  have top: "?m \<in> insert Low (f_severity ` set findings)"
      "\<forall>x\<in>insert Low (f_severity ` set findings). tier_rank x \<le> tier_rank ?m"
    using max_severity_foldl [of Low findings] by (simp_all add: max_severity_def)
  have "tier_rank h \<le> tier_rank ?m" using best(1) top(2) by blast
  moreover have "tier_rank ?m \<le> tier_rank h"
  proof (cases "?m = Low")
    case False
    with top(1) have "severity_tier h \<le> severity_tier ?m" using best(2) by blast
    then show ?thesis using tier_rank_tier [of h] tier_rank_tier [of ?m] by linarith
  qed simp
  ultimately show ?thesis using h tier_rank_inj by (metis le_antisym)
qed

lemma max_cvss_score_in:
  assumes "max_cvss_score findings = Some c"
  shows "\<exists>f\<in>set findings. f_cvss_score f = Some c"
proof -
  have acc: "foldl (\<lambda>acc c. Some (case acc of None \<Rightarrow> c | Some a \<Rightarrow> f32_max a c)) a cs = Some c \<Longrightarrow>
      a = Some c \<or> c \<in> set cs" for a cs
  proof (induction cs arbitrary: a)
    case (Cons x cs)
    from Cons.IH [OF Cons.prems [simplified]] show ?case
      by (auto simp: f32_max_def split: option.splits if_splits)
  qed simp
  show ?thesis
    using acc [of None "List.map_filter f_cvss_score findings"] assms
    by (auto simp: max_cvss_score_def List.map_filter_def)
qed

definition cvss_in_range :: "f32 \<Rightarrow> bool" where
  "cvss_in_range c \<longleftrightarrow> f32_is_finite c \<and> \<not> f32_lt c f32_zero \<and> \<not> f32_lt f32_ten c"

text \<open>
  What a decided reason still needs to pass its own validation, which depends on what the caller
  resolved: a score within the CVSS range, no observation of ours after the scan it comes from, a rank
  within its group.
\<close>

definition recordable :: "expiration_reason \<Rightarrow> bool" where
  "recordable r \<longleftrightarrow>
     (case r of
        SecurityFinding _ cvss _ _ known_since source latest_scan_at \<Rightarrow>
          (\<forall>c. cvss = Some c \<longrightarrow> cvss_in_range c) \<and>
          (source = Some FirstObservation \<longrightarrow> (\<forall>k. known_since = Some k \<longrightarrow> k \<le> latest_scan_at))
      | KeepLastNExceeded keep versions rank \<Rightarrow> 1 \<le> rank \<and> rank \<le> versions
      | _ \<Rightarrow> True)"

lemma security_reason_valid:
  assumes "ei_findings inputs \<noteq> []"
  shows "is_ok (reason_validate (security_reason inputs)) \<longleftrightarrow> recordable (security_reason inputs)"
proof -
  have counted: "(if length fs < 4294967296 then of_nat (length fs) else - 1 :: u32) \<noteq> 0"
    if "fs \<noteq> []" for fs :: "finding list"
    using that by (auto simp: word_of_nat_eq_0_iff nat_dvd_not_less)
  show ?thesis
    using counted [OF assms]
    by (cases "max_cvss_score (ei_findings inputs)"; cases "ei_finding_age_anchor inputs")
      (auto simp: security_reason_def recordable_def cvss_in_range_def)
qed

lemma leaf_reason_valid:
  assumes "is_leaf l" and "evaluate l inputs = Matched r"
  shows "is_ok (reason_validate r) \<longleftrightarrow> recordable r"
proof (cases "matched_via_security inputs l")
  case True
  with assms have "r = security_reason inputs" "ei_findings inputs \<noteq> []"
    using security_match_has_findings [of l inputs] by (auto simp: evaluate_def split: if_splits)
  with security_reason_valid show ?thesis by simp
next
  case False
  with assms have r: "r = non_security_reason inputs l" "matches_bool inputs l"
    by (auto simp: evaluate_def split: if_splits)
  have one: "1 \<le> n \<longleftrightarrow> n \<noteq> 0" for n :: u32 by (simp add: word_le_nat_alt unat_eq_0 [symmetric] Suc_le_eq)
  show ?thesis
    using r assms(1) False
    by (cases l) (auto simp: recordable_def one not_le not_less split: option.splits if_splits)
qed

section \<open>The dates a vulnerability is known from\<close>

definition published_dates :: "finding list \<Rightarrow> string \<Rightarrow> timestamp set" where
  "published_dates findings v =
     {d. \<exists>f\<in>set findings. eq_ignore_ascii_case (f_vulnerability_id f) v \<and> f_advisory_published_at f = Some d}"

definition observed_dates :: "(string \<times> timestamp) list \<Rightarrow> string \<Rightarrow> timestamp set" where
  "observed_dates first_observed v = {d. \<exists>(i, seen)\<in>set first_observed. eq_ignore_ascii_case i v \<and> seen = d}"

definition known_dates :: "finding list \<Rightarrow> (string \<times> timestamp) list \<Rightarrow> timestamp set" where
  "known_dates findings first_observed =
     (\<Union>v\<in>f_vulnerability_id ` set findings.
        if published_dates findings v = {} then observed_dates first_observed v
        else published_dates findings v)"

lemma min_by_key:
  fixes k :: "'a \<Rightarrow> int"
  shows "min_by (\<lambda>a b. k a < k b) xs = None \<longleftrightarrow> xs = []"
    and "min_by (\<lambda>a b. k a < k b) xs = Some m \<Longrightarrow> m \<in> set xs \<and> (\<forall>y\<in>set xs. k m \<le> k y)"
proof -
  show "min_by (\<lambda>a b. k a < k b) xs = None \<longleftrightarrow> xs = []" by (cases xs) auto
  assume m: "min_by (\<lambda>a b. k a < k b) xs = Some m"
  then obtain y ys where xs: "xs = y # ys" by (cases xs) auto
  have "m \<in> set (y # ys) \<and> (\<forall>z\<in>set (y # ys). \<not> k z < k m)"
    unfolding m [unfolded xs min_by.simps option.inject, symmetric]
    by (rule foldl_min_by) auto
  then show "m \<in> set xs \<and> (\<forall>y\<in>set xs. k m \<le> k y)" by (simp add: xs not_less)
qed

lemma set_map_filter_eq: "set (List.map_filter g xs) = {y. \<exists>x\<in>set xs. g x = Some y}"
  by (force simp: List.map_filter_def)

lemma eq_ignore_lower [simp]: "eq_ignore_ascii_case i (to_ascii_lowercase v) = eq_ignore_ascii_case i v"
  by (simp add: eq_ignore_ascii_case_def)

lemma set_distinct_ids:
  "set (distinct_vulnerability_ids findings) = (\<lambda>f. to_ascii_lowercase (f_vulnerability_id f)) ` set findings"
proof -
  have "set (foldl (\<lambda>ids f. let i = to_ascii_lowercase (f_vulnerability_id f) in
          if i \<in> set ids then ids else ids @ [i]) ids fs)
      = set ids \<union> (\<lambda>f. to_ascii_lowercase (f_vulnerability_id f)) ` set fs" for ids and fs :: "finding list"
    by (induction fs arbitrary: ids) (auto simp: Let_def)
  then show ?thesis by (simp add: distinct_vulnerability_ids_def)
qed

lemma published_anchor_spec:
  "published_anchor fs v = None \<longleftrightarrow> published_dates fs v = {}"
  "published_anchor fs v = Some a \<Longrightarrow>
     fa_known_since a \<in> published_dates fs v \<and> (\<forall>d\<in>published_dates fs v. fa_known_since a \<le> d) \<and>
     (\<exists>f\<in>set fs. f_advisory_published_at f = Some (fa_known_since a) \<and>
        fa_source a = AdvisoryPublication (f_source_scanner f))"
proof -
  let ?c = "List.map_filter (\<lambda>f. map_option (\<lambda>published. (published, f_source_scanner f))
              (f_advisory_published_at f)) (filter (\<lambda>f. eq_ignore_ascii_case (f_vulnerability_id f) v) fs)"
  have dates: "published_dates fs v = fst ` set ?c"
    by (force simp: published_dates_def set_map_filter_eq)
  show "published_anchor fs v = None \<longleftrightarrow> published_dates fs v = {}"
    unfolding dates by (simp add: published_anchor_def min_by_key(1) [of fst])
  assume "published_anchor fs v = Some a"
  then obtain m where m: "min_by (\<lambda>a b. fst a < fst b) ?c = Some m"
      and a: "a = \<lparr>fa_known_since = fst m, fa_source = AdvisoryPublication (snd m)\<rparr>"
    by (auto simp: published_anchor_def case_prod_beta)
  have least: "m \<in> set ?c" "\<forall>y\<in>set ?c. fst m \<le> fst y" using min_by_key(2) [OF m] by auto
  moreover have "\<exists>f\<in>set fs. f_advisory_published_at f = Some (fst m) \<and> snd m = f_source_scanner f"
    using least(1) by (auto simp: set_map_filter_eq)
  ultimately show "fa_known_since a \<in> published_dates fs v \<and> (\<forall>d\<in>published_dates fs v. fa_known_since a \<le> d) \<and>
     (\<exists>f\<in>set fs. f_advisory_published_at f = Some (fa_known_since a) \<and>
        fa_source a = AdvisoryPublication (f_source_scanner f))"
    unfolding dates by (simp add: a)
qed

lemma observed_anchor_spec:
  "observed_anchor obs v = None \<longleftrightarrow> observed_dates obs v = {}"
  "observed_anchor obs v = Some a \<Longrightarrow>
     fa_known_since a \<in> observed_dates obs v \<and> (\<forall>d\<in>observed_dates obs v. fa_known_since a \<le> d) \<and>
     fa_source a = FirstObservation"
proof -
  let ?c = "map snd (filter (\<lambda>(i, _). eq_ignore_ascii_case i v) obs)"
  have dates: "observed_dates obs v = set ?c"
    by (force simp: observed_dates_def)
  show "observed_anchor obs v = None \<longleftrightarrow> observed_dates obs v = {}"
    unfolding dates set_empty observed_anchor_def option.map_disc_iff
    by (rule min_by_key(1) [of "\<lambda>x. x"])
  assume "observed_anchor obs v = Some a"
  then show "fa_known_since a \<in> observed_dates obs v \<and> (\<forall>d\<in>observed_dates obs v. fa_known_since a \<le> d) \<and>
     fa_source a = FirstObservation"
    unfolding dates using min_by_key(2) [of "\<lambda>x. x" ?c] by (auto simp: observed_anchor_def)
qed

lemma per_vuln_anchor_lower: "per_vuln_anchor fs obs (to_ascii_lowercase v) = per_vuln_anchor fs obs v"
proof -
  have "published_anchor fs (to_ascii_lowercase v) = published_anchor fs v"
    and "observed_anchor obs (to_ascii_lowercase v) = observed_anchor obs v"
    by (simp_all add: published_anchor_def observed_anchor_def)
  then show ?thesis by (simp only: per_vuln_anchor_def)
qed

lemma per_vuln_anchor_none:
  "per_vuln_anchor fs obs v = None \<longleftrightarrow>
   (if published_dates fs v = {} then observed_dates obs v else published_dates fs v) = {}"
  using published_anchor_spec(1) [of fs v] observed_anchor_spec(1) [of obs v]
  by (auto simp: per_vuln_anchor_def split: option.splits)

lemma per_vuln_anchor_some:
  assumes "per_vuln_anchor fs obs v = Some a"
  defines "dates \<equiv> if published_dates fs v = {} then observed_dates obs v else published_dates fs v"
  shows "fa_known_since a \<in> dates \<and> (\<forall>d\<in>dates. fa_known_since a \<le> d) \<and>
    (case fa_source a of
       AdvisoryPublication scanner \<Rightarrow>
         \<exists>f\<in>set fs. f_advisory_published_at f = Some (fa_known_since a) \<and> f_source_scanner f = scanner
     | FirstObservation \<Rightarrow> published_dates fs v = {} \<and> fa_known_since a \<in> observed_dates obs v)"
proof (cases "published_anchor fs v")
  case None
  with assms(1) have "observed_anchor obs v = Some a" by (simp add: per_vuln_anchor_def)
  from observed_anchor_spec(2) [OF this] None show ?thesis
    by (simp add: published_anchor_spec(1) dates_def)
next
  case (Some b)
  with assms(1) have "published_anchor fs v = Some a" by (simp add: per_vuln_anchor_def)
  from published_anchor_spec(2) [OF this] this published_anchor_spec(1) [of fs v] show ?thesis
    by (auto simp: dates_def)
qed

lemma resolve_is_min_by:
  "resolve_finding_age_anchor fs obs =
     min_by (\<lambda>a b. fa_known_since a < fa_known_since b)
       (List.map_filter (per_vuln_anchor fs obs) (distinct_vulnerability_ids fs))"
proof -
  let ?step = "\<lambda>best v. (case per_vuln_anchor fs obs v of None \<Rightarrow> best
      | Some candidate \<Rightarrow> (case best of None \<Rightarrow> Some candidate
          | Some b \<Rightarrow> if fa_known_since candidate < fa_known_since b then Some candidate else best))"
  have some: "foldl ?step (Some b) vs = Some (foldl (\<lambda>best y. if fa_known_since y < fa_known_since best
      then y else best) b (List.map_filter (per_vuln_anchor fs obs) vs))" for b vs
    by (induction vs arbitrary: b) (auto split: option.split)
  have "foldl ?step None vs = min_by (\<lambda>a b. fa_known_since a < fa_known_since b)
      (List.map_filter (per_vuln_anchor fs obs) vs)" for vs
    by (induction vs) (auto simp: some split: option.split)
  then show ?thesis by (simp add: resolve_finding_age_anchor_def)
qed

section \<open>Replay of a retention policy\<close>

fun is_archival :: "retention_policy_event \<Rightarrow> bool" where
  "is_archival (RetentionArchived _ _ _) = True"
| "is_archival _ = False"

fun configures :: "retention_policy_event \<Rightarrow> (policy_predicate \<times> retention_scope) option" where
  "configures (RetentionCreated _ _ p scope _) = Some (p, scope)"
| "configures (RetentionUpdated _ p scope _) = Some (p, scope)"
| "configures _ = None"

definition retention_valid :: "retention_policy \<Rightarrow> bool" where
  "retention_valid s \<longleftrightarrow> is_ok (validate_name (ret_name s)) \<and>
     is_ok (predicate_validate (ret_predicate s)) \<and> is_ok (scope_validate (ret_scope s))"

definition replay_of :: "retention_policy_event list \<Rightarrow> retention_policy \<Rightarrow> bool" where
  "replay_of es s \<longleftrightarrow> es \<noteq> [] \<and> retention_valid s \<and>
     (\<forall>e\<in>set es. aggregate_id e = ret_id s) \<and>
     ret_stream_version s = of_nat (length es - 1) \<and>
     (ret_archived s \<longleftrightarrow> is_archival (last es)) \<and> (\<forall>e\<in>set (butlast es). \<not> is_archival e) \<and>
     List.map_filter configures es \<noteq> [] \<and>
     (ret_predicate s, ret_scope s) = last (List.map_filter configures es)"

lemma retention_project_snoc:
  assumes "es \<noteq> []"
  shows "retention_project (es @ [e]) = and_then (retention_project es) (\<lambda>s. apply_appended s e)"
proof -
  obtain c rest where es: "es = c # rest" using assms by (cases es) auto
  have "and_then r Inr = r" for r :: "retention_policy retention_result" by (cases r) auto
  then show ?thesis
    by (cases c) (simp_all add: es try_fold_append and_then_assoc)
qed

lemma apply_appended_ok:
  assumes "apply_appended s e = Inr s'"
  shows "aggregate_id e = ret_id s \<and> \<not> ret_archived s \<and> ret_id s' = ret_id s \<and> ret_name s' = ret_name s \<and>
    ret_stream_version s' = ret_stream_version s + 1 \<and> ret_archived s' = is_archival e \<and>
    (ret_predicate s', ret_scope s') =
      (case configures e of None \<Rightarrow> (ret_predicate s, ret_scope s) | Some c \<Rightarrow> c) \<and>
    (retention_valid s \<longrightarrow> retention_valid s')"
  using assms
  by (cases e) (auto simp: apply_appended_def retention_valid_def split: if_splits sum.splits)

lemma map_filter_snoc:
  "List.map_filter g (xs @ [x]) = List.map_filter g xs @ (case g x of None \<Rightarrow> [] | Some y \<Rightarrow> [y])"
  by (auto simp: List.map_filter_def split: option.split)

lemma replay_of_snoc:
  assumes "replay_of es s" and "apply_appended s e = Inr s'"
  shows "replay_of (es @ [e]) s'"
proof -
  have "of_nat (length es - 1) + 1 = (of_nat (length es) :: u64)"
    using assms(1) by (cases es) (simp_all add: replay_of_def)
  moreover have "\<forall>x\<in>set es. \<not> is_archival x"
    using assms apply_appended_ok [OF assms(2)]
    by (metis append_butlast_last_id in_set_butlast_appendI replay_of_def rotate1.simps(2) set_ConsD set_rotate1)
  ultimately show ?thesis
    using assms(1) apply_appended_ok [OF assms(2)]
    by (auto simp: replay_of_def map_filter_snoc split: option.splits)
qed

lemma project_replay_of: "retention_project es = Inr s \<Longrightarrow> replay_of es s"
proof (induction es arbitrary: s rule: rev_induct)
  case (snoc e es)
  show ?case
  proof (cases "es = []")
    case True
    with snoc.prems show ?thesis
      by (cases e)
        (auto simp: replay_of_def retention_valid_def retention_opened_def List.map_filter_def split: sum.splits)
  next
    case False
    with snoc.prems obtain s0 where "retention_project es = Inr s0" "apply_appended s0 e = Inr s"
      by (auto simp: retention_project_snoc)
    with snoc.IH show ?thesis by (blast intro: replay_of_snoc)
  qed
qed simp

section \<open>Properties\<close>

definition sample_inputs :: evaluation_inputs where
  "sample_inputs =
     \<lparr>ei_now = 100000000000, ei_created_at = 0, ei_last_downloaded_at = None, ei_keep_rank = Some (3, 4),
      ei_tag_targeted = False, ei_findings = [sample_finding High], ei_finding_age_anchor = None,
      ei_latest_scan_at = 90000000000\<rparr>"

text \<open>
  C27. Every expiry a retention policy decides is justified. When a validated predicate matches, the
  recorded reason is the one that some leaf of the predicate that matches by itself would record: a
  composite never falls back to its defensive age reason with a zero TTL. A security reason is recorded
  only when there are findings, with the severity of the most severe one. The reason passes its own
  validation exactly if, for a security reason, the highest score is a number from 0 to 10 and a first
  observation does not come after the scan, and, for a rank reason, the rank is at least one and within the
  number of versions; an age or disuse reason always does. The evaluation itself does not check
  these: they are what its caller resolves.
\<close>

theorem retention_expiry_is_justified:
  assumes "is_ok (predicate_validate p)" and "evaluate p inputs = Matched r"
  shows "(\<exists>l\<in>set (leaves p). is_leaf l \<and> evaluate l inputs = Matched r) \<and>
    (metric_label r = ''security_finding'' \<longrightarrow>
       ei_findings inputs \<noteq> [] \<and> r = security_reason inputs \<and>
       (\<exists>sev c n fix since src at_time. r = SecurityFinding sev c n fix since src at_time \<and>
          highest_severity (ei_findings inputs) = Some sev)) \<and>
    (is_ok (reason_validate r) \<longleftrightarrow>
       (case r of
          SecurityFinding _ cvss _ _ known_since source latest_scan_at \<Rightarrow>
            (\<forall>c. cvss = Some c \<longrightarrow> cvss_in_range c) \<and>
            (source = Some FirstObservation \<longrightarrow> (\<forall>k. known_since = Some k \<longrightarrow> k \<le> latest_scan_at))
        | KeepLastNExceeded keep versions rank \<Rightarrow> 1 \<le> rank \<and> rank \<le> versions
        | _ \<Rightarrow> True))"
proof -
  obtain l where l: "l \<in> set (leaves p)" "evaluate l inputs = Matched r"
    using evaluate_leaf [OF validated_well_nested assms(2)] assms(1) by (auto simp: predicate_validate_def)
  have leaf: "is_leaf l" by (rule leaves_are_leaves [OF l(1)])
  have "ei_findings inputs \<noteq> [] \<and> r = security_reason inputs" if "metric_label r = ''security_finding''"
    using that l(2) leaf security_match_has_findings [OF leaf, of inputs]
    by (cases l) (auto simp: evaluate_def split: if_splits option.splits)
  then show ?thesis
    using l leaf leaf_reason_valid [OF leaf l(2)] max_severity_is_highest
    by (auto simp: security_reason_def recordable_def)
qed

theorem retention_expiry_is_justified_witness:
  "is_ok (reason_validate (security_reason sample_inputs)) \<and> ei_findings sample_inputs \<noteq> []"
  using retention_expiry_is_justified
    [of "Composite And [AgeExceeds 50, HasFindingAboveSeverity Medium]" sample_inputs "security_reason sample_inputs"]
  by (simp add: sample_inputs_def sample_finding_def predicate_validate_def validate_duration_def
      max_composite_depth_def max_composite_children_def evaluate_def elapsed_at_least_def
      severity_at_or_above_def security_reason_def max_cvss_score_def List.map_filter_def)

text \<open>
  Retention fails safe. An artifact that is dated in the future (by its creation and, if it was
  downloaded, its last download), that has no rank or is the target of a tag, and that has no
  finding matches no validated predicate, however its leaves are combined.
\<close>

theorem retention_fails_safe:
  assumes "is_ok (predicate_validate p)"
    and "ei_now inputs < ei_created_at inputs"
    and "case ei_last_downloaded_at inputs of None \<Rightarrow> True | Some dl \<Rightarrow> ei_now inputs < dl"
    and "ei_keep_rank inputs = None \<or> ei_tag_targeted inputs"
    and "ei_findings inputs = []"
  shows "evaluate p inputs = NoMatch"
proof (rule ccontr)
  assume "evaluate p inputs \<noteq> NoMatch"
  then obtain r where "evaluate p inputs = Matched r" by (cases "evaluate p inputs") auto
  then obtain l where "l \<in> set (leaves p)" "evaluate l inputs = Matched r"
    using evaluate_leaf validated_well_nested assms(1) by (metis predicate_validate_def)
  with leaves_are_leaves assms(2-) show False
    by (cases l) (fastforce simp: evaluate_def elapsed_at_least_def split: option.splits if_splits)+
qed

theorem retention_fails_safe_witness:
  "evaluate (Composite Or [AgeExceeds 1, KeepLastN 1, HasFixAvailable])
     (sample_inputs\<lparr>ei_now := - 1, ei_tag_targeted := True, ei_findings := []\<rparr>) = NoMatch"
  by (rule retention_fails_safe)
    (simp_all add: sample_inputs_def predicate_validate_def validate_duration_def max_composite_depth_def
      max_composite_children_def)

text \<open>
  The age of an artifact's vulnerabilities is the earliest date any of them is known from, where
  a vulnerability is known from its advisories' publication dates if there is one and from our own
  observations otherwise (ids compared without case). It is absent exactly when nothing dates any of
  them, and the source recorded with it is one that supplied the date.
\<close>

theorem finding_age_anchor_spec:
  "case resolve_finding_age_anchor fs obs of
     None \<Rightarrow> known_dates fs obs = {}
   | Some a \<Rightarrow>
       fa_known_since a \<in> known_dates fs obs \<and> (\<forall>d\<in>known_dates fs obs. fa_known_since a \<le> d) \<and>
       (case fa_source a of
          AdvisoryPublication scanner \<Rightarrow>
            \<exists>f\<in>set fs. f_advisory_published_at f = Some (fa_known_since a) \<and> f_source_scanner f = scanner
        | FirstObservation \<Rightarrow>
            \<exists>f\<in>set fs. published_dates fs (f_vulnerability_id f) = {} \<and>
              fa_known_since a \<in> observed_dates obs (f_vulnerability_id f))"
proof -
  let ?dates = "\<lambda>v. if published_dates fs v = {} then observed_dates obs v else published_dates fs v"
  let ?cands = "List.map_filter (per_vuln_anchor fs obs) (distinct_vulnerability_ids fs)"
  have cands: "set ?cands = {a. \<exists>f\<in>set fs. per_vuln_anchor fs obs (f_vulnerability_id f) = Some a}"
    by (auto simp: set_map_filter_eq set_distinct_ids per_vuln_anchor_lower)
  have none: "?cands = [] \<longleftrightarrow> known_dates fs obs = {}"
  proof -
    have "?cands = [] \<longleftrightarrow> (\<forall>f\<in>set fs. per_vuln_anchor fs obs (f_vulnerability_id f) = None)"
      unfolding set_empty [symmetric] cands
    proof (intro iffI ballI)
      fix f assume "{a. \<exists>f\<in>set fs. per_vuln_anchor fs obs (f_vulnerability_id f) = Some a} = {}" "f \<in> set fs"
      then show "per_vuln_anchor fs obs (f_vulnerability_id f) = None"
        by (cases "per_vuln_anchor fs obs (f_vulnerability_id f)") auto
    qed auto
    then show ?thesis unfolding per_vuln_anchor_none known_dates_def by blast
  qed
  show ?thesis
  proof (cases "resolve_finding_age_anchor fs obs")
    case None
    then show ?thesis using none min_by_key(1) [of fa_known_since ?cands] by (simp add: resolve_is_min_by)
  next
    case (Some a)
    then have a: "a \<in> set ?cands" "\<forall>b\<in>set ?cands. fa_known_since a \<le> fa_known_since b"
      using min_by_key(2) [of fa_known_since ?cands a] by (simp_all add: resolve_is_min_by)
    have least: "fa_known_since a \<le> d" if f: "f \<in> set fs" and d: "d \<in> ?dates (f_vulnerability_id f)" for f d
    proof -
      have "per_vuln_anchor fs obs (f_vulnerability_id f) \<noteq> None"
        unfolding per_vuln_anchor_none using d by blast
      then obtain b where b: "per_vuln_anchor fs obs (f_vulnerability_id f) = Some b" by blast
      with a(2) f have "fa_known_since a \<le> fa_known_since b" unfolding cands by blast
      also have "\<dots> \<le> d" using per_vuln_anchor_some [OF b] d by blast
      finally show ?thesis .
    qed
    obtain f where f: "f \<in> set fs" "per_vuln_anchor fs obs (f_vulnerability_id f) = Some a"
      using a(1) unfolding cands by blast
    note own = per_vuln_anchor_some [OF f(2)]
    have "fa_known_since a \<in> known_dates fs obs"
      unfolding known_dates_def using own f(1) by blast
    moreover have "\<forall>d\<in>known_dates fs obs. fa_known_since a \<le> d"
      unfolding known_dates_def using least by blast
    ultimately show ?thesis
      using own f(1) by (cases "fa_source a") (auto simp: Some)
  qed
qed

theorem finding_age_anchor_spec_witness:
  "known_dates [sample_finding High] [] = {} \<and>
   5 \<in> known_dates [sample_finding High] [(''cve-2026-1'', 5)]"
proof -
  have "resolve_finding_age_anchor [sample_finding High] [] = None"
    and "resolve_finding_age_anchor [sample_finding High] [(''cve-2026-1'', 5)]
      = Some \<lparr>fa_known_since = 5, fa_source = FirstObservation\<rparr>"
    by (simp_all add: resolve_is_min_by distinct_vulnerability_ids_def sample_finding_def per_vuln_anchor_lower
        per_vuln_anchor_def published_anchor_def observed_anchor_def eq_ignore_ascii_case_def
        to_ascii_lowercase_def char_to_lower_def byte_of_def char_of_def bit_Suc_0_iff)
  with finding_age_anchor_spec [of "[sample_finding High]" "[]"]
    finding_age_anchor_spec [of "[sample_finding High]" "[(''cve-2026-1'', 5)]"]
  show ?thesis by simp
qed

text \<open>
  A retention policy is what its stream says. A stream that replays has one aggregate id, its
  configuration is the last one the stream recorded and is valid, its version is the position of the
  last event, it is archived exactly when the last event archives it (and no earlier event does), and
  appending an event to the stream is applying it to the replayed policy, so that the write path and
  a later replay agree. Nothing can be appended to an archived policy.
\<close>

theorem retention_policy_replay:
  assumes "retention_project es = Inr s"
  shows "replay_of es s \<and>
    (\<forall>e. retention_project (es @ [e]) = apply_appended s e) \<and>
    (ret_archived s \<longrightarrow> (\<forall>e. \<not> is_ok (retention_project (es @ [e]))))"
proof -
  have replay: "replay_of es s" by (rule project_replay_of [OF assms])
  then have snoc: "retention_project (es @ [e]) = apply_appended s e" for e
    using assms by (simp add: retention_project_snoc replay_of_def)
  then show ?thesis using replay by (auto simp: apply_appended_def)
qed

theorem retention_policy_replay_witness:
  "replay_of [RetentionCreated 1 ''p'' (AgeExceeds 60) AllRepos 5, RetentionArchived 1 2 9]
     ((retention_opened 1 ''p'' (AgeExceeds 60) AllRepos 5)
        \<lparr>ret_archived := True, ret_updated_at := 9, ret_stream_version := 1\<rparr>)"
  using retention_policy_replay
    [of "[RetentionCreated 1 ''p'' (AgeExceeds 60) AllRepos 5, RetentionArchived 1 2 9]"
        "(retention_opened 1 ''p'' (AgeExceeds 60) AllRepos 5)
           \<lparr>ret_archived := True, ret_updated_at := 9, ret_stream_version := 1\<rparr>"]
  by (simp add: validate_name_def max_retention_name_len_def predicate_validate_def validate_duration_def
      scope_validate_def apply_appended_def retention_opened_def)

end
