(* ===== verification/Event_Store.thy ===== *)
theory Event_Store
  imports Event_Streams
begin

text \<open>
  The Postgres event store (\<^verbatim>\<open>hort-adapters-postgres/src/event_store.rs\<close>,
  \<^verbatim>\<open>event_chain_reader.rs\<close>, \<^verbatim>\<open>mappers.rs\<close>, \<^verbatim>\<open>contention.rs\<close>) over the \<^verbatim>\<open>events\<close> table of
  \<^verbatim>\<open>migrations/004_events.sql\<close>, and the stored payload envelope
  (\<^verbatim>\<open>hort-domain/src/events/stored_envelope.rs\<close>).

  A transaction runs at READ COMMITTED, so the statements of one operation see different committed
  states of the table. An operation therefore takes the state its tail read saw separately from the
  state its writes meet; everything between the two is what other transactions committed. Within
  the writes of one operation no other transaction commits: a row inserted at a position holds the
  unique-index entry until the transaction ends, so a competing insert waits for it.

  What \<^verbatim>\<open>DomainEvent\<close>'s variants contribute (their type names, validation and serde derive), the JSON
  printer, SHA-256, the \<^verbatim>\<open>uuid\<close> crate and the \<^verbatim>\<open>jsonb\<close> column type are fields of \<open>store_env\<close>. The
  failures a statement can have for reasons outside the table are fields of \<open>db_faults\<close>.
\<close>

section \<open>The stored payload envelope\<close>

fun normalise_signed_zero :: "json \<Rightarrow> json" where
  "normalise_signed_zero (JObject m) = JObject (map (\<lambda>(k, v). (k, normalise_signed_zero v)) m)"
| "normalise_signed_zero (JArray items) = JArray (map normalise_signed_zero items)"
| "normalise_signed_zero (JNumber n) =
     (case n of
        Float bits \<Rightarrow> if bits = 0x8000000000000000 then JNumber (Float 0) else JNumber n
      | _ \<Rightarrow> JNumber n)"
| "normalise_signed_zero scalar = scalar"

definition reshape_to_envelope :: "string \<Rightarrow> string \<Rightarrow> json \<Rightarrow> json" where
  "reshape_to_envelope event_type serde_key raw =
     (let payload =
        (case raw of
           JObject m \<Rightarrow> (case map_of m serde_key of Some v \<Rightarrow> v | None \<Rightarrow> JNull)
         | other \<Rightarrow> other)
      in normalise_signed_zero (JObject [(''data'', payload), (''type'', JString event_type)]))"

definition serde_key_for_event_type :: "string \<Rightarrow> string" where
  "serde_key_for_event_type event_type =
     (if event_type \<in> {''RetentionPolicyCreated'', ''RetentionPolicyUpdated'', ''RetentionPolicyArchived'',
        ''RetentionPolicyEvaluated''} then ''RetentionPolicyChanged'' else event_type)"

section \<open>Errors\<close>

datatype sql_error = DatabaseError "string option" | ConnectionError

datatype store_msg =
    BeginFailed sql_error
  | CommitFailed sql_error
  | ReadPositionFailed sql_error
  | StreamAlreadyExists string u64
  | StreamAtPosition string u64 u64
  | ConcurrentAppend string u64
  | ContendedBy string string
  | InsertFailed sql_error
  | EventTooLarge string nat
  | EventInvalid string
  | SealBeginFailed sql_error
  | SealReadFailed sql_error
  | SealCommitFailed sql_error
  | RoleNotAssumable sql_error
  | RemoveFailed sql_error
  | RemovalCountMismatch string nat u64
  | ReadFailed sql_error
  | NegativeLimit
  | CorruptStreamId "stream_id_error domain_error"
  | CorruptActor actor_error
  | EventDataMissing
  | DeserializeFailed string

type_synonym store_error = "store_msg domain_error"

definition sqlstate :: "sql_error \<Rightarrow> string option" where
  "sqlstate e = (case e of DatabaseError code \<Rightarrow> code | ConnectionError \<Rightarrow> None)"

definition contention_sqlstate :: "string \<Rightarrow> bool" where
  "contention_sqlstate code \<longleftrightarrow> code = ''40001'' \<or> code = ''40P01''"

definition contention_error :: "sql_error \<Rightarrow> string \<Rightarrow> store_error option" where
  "contention_error e op_name =
     (case sqlstate e of
        None \<Rightarrow> None
      | Some code \<Rightarrow> if contention_sqlstate code then Some (Contended (ContendedBy op_name code)) else None)"

text \<open>
  The whole-transaction retry: the operation threads the state it runs on, \<open>attempts\<close> is the budget
  and the call is the \<open>attempt\<close>-th.
\<close>

definition contention_retry_attempts :: nat where "contention_retry_attempts = 4"

function with_contention_retry ::
    "nat \<Rightarrow> nat \<Rightarrow> ('s \<Rightarrow> (store_error + 'a) \<times> 's) \<Rightarrow> 's \<Rightarrow> (store_error + 'a) \<times> 's" where
  "with_contention_retry attempts attempt f s =
     (case f s of
        (Inr v, s') \<Rightarrow> (Inr v, s')
      | (Inl (Contended detail), s') \<Rightarrow>
          if attempt < attempts then with_contention_retry attempts (attempt + 1) f s'
          else (Inl (Contended detail), s')
      | (Inl e, s') \<Rightarrow> (Inl e, s'))"
  by pat_completeness auto
termination
  by (relation "measure (\<lambda>(attempts, attempt, f, s). attempts - attempt)") auto

declare with_contention_retry.simps [simp del]

definition is_contended :: "(store_error + 'a) \<times> 's \<Rightarrow> bool" where
  "is_contended r = (case r of (Inl (Contended _), _) \<Rightarrow> True | _ \<Rightarrow> False)"

lemma with_contention_retry_eq:
  "with_contention_retry attempts attempt f s =
     (if is_contended (f s) \<and> attempt < attempts then with_contention_retry attempts (attempt + 1) f (snd (f s)) else f s)"
  by (subst with_contention_retry.simps, cases "f s", cases "fst (f s)")
    (auto simp: is_contended_def split: domain_error.split)

interpretation contention: bounded_retry "\<lambda>attempts c. with_contention_retry attempts (fst c) f (snd c)" fst "f \<circ> snd"
  is_contended "\<lambda>c. (fst c + 1, snd (f (snd c)))" for f
  by unfold_locales (simp_all add: with_contention_retry_eq [of _ "fst c" f "snd c" for c])

lemma contention_attempts:
  assumes "attempts \<noteq> 0"
  shows "\<exists>k<attempts. with_contention_retry attempts 1 f s = f (((snd \<circ> f) ^^ k) s) \<and>
    (\<forall>i<k. is_contended (f (((snd \<circ> f) ^^ i) s))) \<and> (is_contended (f (((snd \<circ> f) ^^ k) s)) \<longrightarrow> k + 1 = attempts)"
proof -
  have "((\<lambda>c. (fst c + 1, snd (f (snd c)))) ^^ k) (n, s) = (n + k, ((snd \<circ> f) ^^ k) s)" for k n
    by (induction k) simp_all
  then show ?thesis
    using contention.run_attempts [of "(1, s)" attempts f] assms by (auto simp: Suc_le_eq)
qed

section \<open>The events table\<close>

record event_row =
  er_chain :: chain_row
  er_global_position :: int
  er_stored_at :: timestamp

record event_table =
  et_rows :: "event_row list"
  et_sequence :: int

definition empty_table :: event_table where "empty_table = \<lparr>et_rows = [], et_sequence = 0\<rparr>"

text \<open>
  A position is a 64-bit integer that the column reads signed and the domain unsigned. The rows of a
  stream in the order of \<^verbatim>\<open>ORDER BY stream_position ASC\<close>; the tail read is its last row.
\<close>

definition position_of :: "event_row \<Rightarrow> int" where
  "position_of r = sint (cr_stream_position (er_chain r))"

definition stream_rows :: "event_table \<Rightarrow> string \<Rightarrow> event_row list" where
  "stream_rows tab sid = sort_key position_of (filter (\<lambda>r. cr_stream_id (er_chain r) = sid) (et_rows tab))"

definition read_tail :: "event_table \<Rightarrow> string \<Rightarrow> (u64 \<times> event_hash) option" where
  "read_tail tab sid =
     (let rows = stream_rows tab sid in
      if rows = [] then None
      else Some (cr_stream_position (er_chain (last rows)), cr_stored_hash (er_chain (last rows))))"

text \<open>
  One INSERT: the sequence advances even if the row is refused; the primary key on the event id and
  the unique index on stream and position refuse a second row.
\<close>

definition insert_event :: "timestamp \<Rightarrow> event_table \<Rightarrow> chain_row \<Rightarrow> (sql_error + int) \<times> event_table" where
  "insert_event now tab row =
     (let g = et_sequence tab + 1; tab' = tab\<lparr>et_sequence := g\<rparr> in
      if list_ex (\<lambda>r. cr_event_id (er_chain r) = cr_event_id row \<or>
           cr_stream_id (er_chain r) = cr_stream_id row \<and> cr_stream_position (er_chain r) = cr_stream_position row)
           (et_rows tab)
      then (Inl (DatabaseError (Some ''23505'')), tab')
      else (Inr g, tab'\<lparr>et_rows := et_rows tab @ [\<lparr>er_chain = row, er_global_position = g, er_stored_at = now\<rparr>]\<rparr>))"

definition rolled_back :: "event_table \<Rightarrow> event_table \<Rightarrow> event_table" where
  "rolled_back before after = before\<lparr>et_sequence := et_sequence after\<rparr>"

section \<open>Appending\<close>

datatype expected_version = NoStream | Exact u64 | AnyVersion

record 'e event_to_append =
  eta_event_id :: uuid
  eta_event :: 'e

record 'e append_events =
  ae_stream_id :: stream_id
  ae_expected_version :: expected_version
  ae_events :: "'e event_to_append list"
  ae_correlation_id :: uuid
  ae_causation_id :: "uuid option"
  ae_actor :: actor

record append_result =
  ar_stream_position :: u64
  ar_global_positions :: "u64 list"

record stream_sealed =
  ss_sealed_stream_id :: string
  ss_sealed_stream_category :: string
  ss_final_stream_position :: u64
  ss_final_event_hash :: event_hash
  ss_event_count :: u64
  ss_retention_policy_id :: uuid
  ss_actor_id :: "uuid option"

record 'e store_env =
  se_sha :: sha256
  se_ser :: to_vec
  se_jsonb :: "json \<Rightarrow> json"
  se_uuid_str :: "uuid \<Rightarrow> string"
  se_uuid_parse :: "string \<Rightarrow> uuid option"
  se_new_v5 :: "string \<Rightarrow> uuid"
  se_event_type :: "'e \<Rightarrow> string"
  se_serde_variant_key :: "'e \<Rightarrow> string"
  se_to_value :: "'e \<Rightarrow> json"
  se_from_value :: "json \<Rightarrow> 'e option"
  se_validate :: "'e \<Rightarrow> store_error + unit"
  se_stream_sealed :: "stream_sealed \<Rightarrow> 'e"
  se_as_stream_sealed :: "'e \<Rightarrow> stream_sealed option"

record db_faults =
  df_begin :: "sql_error option"
  df_tail :: "sql_error option"
  df_append_tail :: "sql_error option"
  df_insert :: "nat \<Rightarrow> sql_error option"
  df_role :: "sql_error option"
  df_delete :: "sql_error option"
  df_commit :: "sql_error option"

definition no_faults :: db_faults where
  "no_faults = \<lparr>df_begin = None, df_tail = None, df_append_tail = None, df_insert = (\<lambda>_. None), df_role = None,
     df_delete = None, df_commit = None\<rparr>"

definition stored_payload_envelope :: "'e store_env \<Rightarrow> 'e \<Rightarrow> json" where
  "stored_payload_envelope env ev =
     reshape_to_envelope (se_event_type env ev) (se_serde_variant_key env ev) (se_to_value env ev)"

definition max_event_json_bytes :: nat where "max_event_json_bytes = 65536"

fun validate_and_serialize :: "'e store_env \<Rightarrow> 'e event_to_append list \<Rightarrow> store_error + json list" where
  "validate_and_serialize env [] = Inr []"
| "validate_and_serialize env (to_append # rest) =
     and_then (se_validate env (eta_event to_append)) (\<lambda>_.
       let json = stored_payload_envelope env (eta_event to_append); size = length (se_ser env json) in
       if max_event_json_bytes < size
       then Inl (Validation (EventTooLarge (se_event_type env (eta_event to_append)) size))
       else and_then (validate_and_serialize env rest) (\<lambda>jsons. Inr (json # jsons)))"

text \<open>The mapping of an INSERT's error.\<close>

definition append_error :: "string \<Rightarrow> u64 \<Rightarrow> sql_error \<Rightarrow> store_error" where
  "append_error sid pos e =
     (if sqlstate e = Some ''23505'' then Conflict (ConcurrentAppend sid pos)
      else (case contention_error e ''event append'' of
              Some contended \<Rightarrow> contended
            | None \<Rightarrow> Invariant (InsertFailed e)))"

text \<open>The row an event becomes, given its predecessor's hash and its position.\<close>

definition chain_input_of ::
    "'e store_env \<Rightarrow> 'e append_events \<Rightarrow> u64 \<Rightarrow> event_hash \<Rightarrow> 'e event_to_append \<Rightarrow> json \<Rightarrow> chain_input" where
  "chain_input_of env batch pos prev to_append data =
     \<lparr>ci_prev_event_hash = prev,
      ci_event_id = eta_event_id to_append,
      ci_stream_id = fst (stream_id_to_columns (se_uuid_str env) (ae_stream_id batch)),
      ci_stream_category = snd (stream_id_to_columns (se_uuid_str env) (ae_stream_id batch)),
      ci_stream_position = pos,
      ci_event_type = se_event_type env (eta_event to_append),
      ci_event_version = 1,
      ci_payload = data,
      ci_correlation_id = ae_correlation_id batch,
      ci_causation_id = ae_causation_id batch,
      ci_actor = actor_to_columns (ae_actor batch)\<rparr>"

definition row_to_insert :: "'e store_env \<Rightarrow> chain_input \<Rightarrow> event_hash \<Rightarrow> chain_row" where
  "row_to_insert env i h =
     \<lparr>cr_event_data = se_jsonb env (ci_payload i), cr_event_id = ci_event_id i, cr_stream_id = ci_stream_id i,
      cr_stream_category = ci_stream_category i, cr_stream_position = ci_stream_position i,
      cr_event_type = ci_event_type i, cr_event_version = ci_event_version i,
      cr_correlation_id = ci_correlation_id i, cr_causation_id = ci_causation_id i,
      cr_actor_type = ac_actor_type (ci_actor i), cr_actor_id = ac_actor_id (ci_actor i),
      cr_actor_source_file = ac_actor_source_file (ci_actor i),
      cr_actor_spec_digest = ac_actor_spec_digest (ci_actor i),
      cr_stored_prev = ci_prev_event_hash i, cr_stored_hash = h\<rparr>"

fun append_loop ::
    "'e store_env \<Rightarrow> (nat \<Rightarrow> sql_error option) \<Rightarrow> timestamp \<Rightarrow> 'e append_events \<Rightarrow> nat \<Rightarrow> u64 \<Rightarrow> event_hash
     \<Rightarrow> u64 list \<Rightarrow> event_table \<Rightarrow> ('e event_to_append \<times> json) list
     \<Rightarrow> (store_error + append_result) \<times> event_table" where
  "append_loop env fault now batch i pos prev gps tab [] =
     (Inr \<lparr>ar_stream_position = pos, ar_global_positions = gps\<rparr>, tab)"
| "append_loop env fault now batch i pos prev gps tab ((to_append, data) # rest) =
     (let pos' = pos + 1;
          chain_input = chain_input_of env batch pos' prev to_append data;
          event_hash = compute_event_hash (se_sha env) (se_ser env) chain_input;
          sid = ci_stream_id chain_input
      in case fault i of
           Some e \<Rightarrow> (Inl (append_error sid pos' e), tab)
         | None \<Rightarrow>
             (case insert_event now tab (row_to_insert env chain_input event_hash) of
                (Inl e, tab') \<Rightarrow> (Inl (append_error sid pos' e), tab')
              | (Inr g, tab') \<Rightarrow>
                  append_loop env fault now batch (i + 1) pos' event_hash (gps @ [word_of_int g]) tab' rest))"

definition append_with_conn ::
    "'e store_env \<Rightarrow> sql_error option \<Rightarrow> (nat \<Rightarrow> sql_error option) \<Rightarrow> timestamp \<Rightarrow> event_table \<Rightarrow> event_table
     \<Rightarrow> 'e append_events \<Rightarrow> json list \<Rightarrow> (store_error + append_result) \<times> event_table" where
  "append_with_conn env tail_fault insert_fault now snap tab batch serialized =
     (let sid = fst (stream_id_to_columns (se_uuid_str env) (ae_stream_id batch)) in
      case tail_fault of
        Some e \<Rightarrow> (Inl (Invariant (ReadPositionFailed e)), tab)
      | None \<Rightarrow>
          (let (current_position, tail_event_hash) =
             (case read_tail snap sid of None \<Rightarrow> (- 1, None) | Some (pos, h) \<Rightarrow> (pos, Some h));
               prev = (case tail_event_hash of None \<Rightarrow> genesis_hash (se_sha env) | Some h \<Rightarrow> h);
               go = append_loop env insert_fault now batch 0 current_position prev [] tab (zip (ae_events batch) serialized)
           in case ae_expected_version batch of
                NoStream \<Rightarrow>
                  if current_position \<noteq> - 1 then (Inl (Conflict (StreamAlreadyExists sid current_position)), tab)
                  else go
              | Exact expected \<Rightarrow>
                  if current_position \<noteq> expected
                  then (Inl (Conflict (StreamAtPosition sid current_position expected)), tab)
                  else go
              | AnyVersion \<Rightarrow> go))"

text \<open>\<^verbatim>\<open>EventStore::append\<close>: a transaction that is rolled back unless it commits.\<close>

definition store_append ::
    "'e store_env \<Rightarrow> db_faults \<Rightarrow> timestamp \<Rightarrow> event_table \<Rightarrow> event_table \<Rightarrow> 'e append_events
     \<Rightarrow> (store_error + append_result) \<times> event_table" where
  "store_append env faults now snap tab batch =
     (case validate_and_serialize env (ae_events batch) of
        Inl e \<Rightarrow> (Inl e, tab)
      | Inr serialized \<Rightarrow>
          (case df_begin faults of
             Some e \<Rightarrow> (Inl (Invariant (BeginFailed e)), tab)
           | None \<Rightarrow>
               (case append_with_conn env (df_tail faults) (df_insert faults) now snap tab batch serialized of
                  (Inl e, tab') \<Rightarrow> (Inl e, rolled_back tab tab')
                | (Inr r, tab') \<Rightarrow>
                    (case df_commit faults of
                       Some e \<Rightarrow> (Inl (Invariant (CommitFailed e)), rolled_back tab tab')
                     | None \<Rightarrow> (Inr r, tab')))))"

section \<open>Sealing\<close>

datatype seal_outcome = Sealed | NotAtProvenVersion

record seal_authority = sa_final_stream_position :: u64

record seal_ids =
  sid_event_id :: uuid
  sid_correlation_id :: uuid

definition tombstone_of :: "string \<Rightarrow> string \<Rightarrow> u64 \<Rightarrow> event_hash \<Rightarrow> stream_sealed" where
  "tombstone_of target_id target_cat final_position final_event_hash =
     \<lparr>ss_sealed_stream_id = target_id, ss_sealed_stream_category = target_cat,
      ss_final_stream_position = final_position, ss_final_event_hash = final_event_hash,
      ss_event_count = final_position + 1, ss_retention_policy_id = 0, ss_actor_id = None\<rparr>"

definition seal_batch :: "'e store_env \<Rightarrow> seal_ids \<Rightarrow> stream_sealed \<Rightarrow> 'e append_events" where
  "seal_batch env ids tombstone =
     \<lparr>ae_stream_id = eventstore_retention (se_new_v5 env), ae_expected_version = AnyVersion,
      ae_events = [\<lparr>eta_event_id = sid_event_id ids, eta_event = se_stream_sealed env tombstone\<rparr>],
      ae_correlation_id = sid_correlation_id ids, ae_causation_id = None, ae_actor = timer_actor\<rparr>"

text \<open>
  The guarded DELETE: it removes the stream's rows unless the stream holds a later position, and
  reports how many rows it removed.
\<close>

definition delete_stream_rows :: "event_table \<Rightarrow> string \<Rightarrow> u64 \<Rightarrow> nat \<times> event_table" where
  "delete_stream_rows tab sid final_position =
     (if list_ex (\<lambda>r. cr_stream_id (er_chain r) = sid \<and> sint final_position < position_of r) (et_rows tab)
      then (0, tab)
      else (length (filter (\<lambda>r. cr_stream_id (er_chain r) = sid) (et_rows tab)),
            tab\<lparr>et_rows := filter (\<lambda>r. cr_stream_id (er_chain r) \<noteq> sid) (et_rows tab)\<rparr>))"

text \<open>
  \<open>snap\<close> is what the read of the sealed stream's tail saw, \<open>audit_snap\<close> what the tombstone's append
  saw of the audit stream's tail, \<open>tab\<close> what the writes meet.
\<close>

definition seal_and_remove ::
    "'e store_env \<Rightarrow> db_faults \<Rightarrow> timestamp \<Rightarrow> seal_ids \<Rightarrow> event_table \<Rightarrow> event_table \<Rightarrow> event_table
     \<Rightarrow> stream_id \<Rightarrow> seal_authority \<Rightarrow> (store_error + seal_outcome) \<times> event_table" where
  "seal_and_remove env faults now ids snap audit_snap tab stream authority =
     (let (target_id, target_cat) = stream_id_to_columns (se_uuid_str env) stream;
          refused = (case df_commit faults of
                       Some e \<Rightarrow> (Inl (Invariant (SealCommitFailed e)), tab)
                     | None \<Rightarrow> (Inr NotAtProvenVersion, tab))
      in case df_begin faults of
           Some e \<Rightarrow> (Inl (Invariant (SealBeginFailed e)), tab)
         | None \<Rightarrow>
        (case df_tail faults of
           Some e \<Rightarrow> (Inl (Invariant (SealReadFailed e)), tab)
         | None \<Rightarrow>
        (case read_tail snap target_id of
           None \<Rightarrow> refused
         | Some (final_position, final_event_hash) \<Rightarrow>
             if final_position \<noteq> sa_final_stream_position authority then refused
             else
               let event_count = final_position + 1;
                   batch = seal_batch env ids (tombstone_of target_id target_cat final_position final_event_hash)
               in case validate_and_serialize env (ae_events batch) of
                    Inl e \<Rightarrow> (Inl e, tab)
                  | Inr serialized \<Rightarrow>
                 (case append_with_conn env (df_append_tail faults) (df_insert faults) now audit_snap tab batch serialized of
                    (Inl e, tab1) \<Rightarrow> (Inl e, rolled_back tab tab1)
                  | (Inr _, tab1) \<Rightarrow>
                 (case df_role faults of
                    Some e \<Rightarrow> (Inl (Invariant (RoleNotAssumable e)), rolled_back tab tab1)
                  | None \<Rightarrow>
                 (case df_delete faults of
                    Some e \<Rightarrow> (Inl (Invariant (RemoveFailed e)), rolled_back tab tab1)
                  | None \<Rightarrow>
                      let (removed, tab2) = delete_stream_rows tab1 target_id final_position in
                      if of_nat removed \<noteq> event_count then
                        (if removed = 0 then (Inr NotAtProvenVersion, rolled_back tab tab1)
                         else (Inl (Invariant (RemovalCountMismatch target_id removed event_count)), rolled_back tab tab1))
                      else
                        (case df_commit faults of
                           Some e \<Rightarrow> (Inl (Invariant (SealCommitFailed e)), rolled_back tab tab1)
                         | None \<Rightarrow> (Inr Sealed, tab2))))))))"

definition delete_stream ::
    "'e store_env \<Rightarrow> db_faults \<Rightarrow> timestamp \<Rightarrow> seal_ids \<Rightarrow> event_table \<Rightarrow> event_table \<Rightarrow> event_table
     \<Rightarrow> stream_id \<Rightarrow> seal_authority \<Rightarrow> (store_error + seal_outcome) \<times> event_table" where
  "delete_stream env faults now ids snap audit_snap tab stream authority =
     seal_and_remove env faults now ids snap audit_snap tab stream authority"

section \<open>Reading\<close>

datatype read_from = FromStart | After u64
datatype subscribe_from = SubscribeStart | AfterGlobal u64

definition deserialize_event_data :: "'e store_env \<Rightarrow> string \<Rightarrow> json \<Rightarrow> store_error + 'e" where
  "deserialize_event_data env event_type event_data =
     (case json_get event_data ''data'' of
        None \<Rightarrow> Inl (Invariant EventDataMissing)
      | Some data \<Rightarrow>
          (case se_from_value env (JObject [(serde_key_for_event_type event_type, data)]) of
             None \<Rightarrow> Inl (Invariant (DeserializeFailed event_type))
           | Some ev \<Rightarrow> Inr ev))"

definition row_actor :: "chain_row \<Rightarrow> actor_canonical" where
  "row_actor r =
     \<lparr>ac_actor_type = cr_actor_type r, ac_actor_id = cr_actor_id r,
      ac_actor_source_file = cr_actor_source_file r, ac_actor_spec_digest = cr_actor_spec_digest r\<rparr>"

definition try_from_row :: "'e store_env \<Rightarrow> event_row \<Rightarrow> store_error + 'e persisted_event" where
  "try_from_row env row =
     (let r = er_chain row in
      case stream_id_from_str (se_uuid_parse env) (cr_stream_id r) of
        Inl e \<Rightarrow> Inl (Invariant (CorruptStreamId e))
      | Inr stream_id \<Rightarrow>
          (case actor_from_columns (row_actor r) (er_stored_at row) of
             Inl e \<Rightarrow> Inl (map_domain_error CorruptActor e)
           | Inr actor \<Rightarrow>
               and_then (deserialize_event_data env (cr_event_type r) (cr_event_data r)) (\<lambda>ev.
                 Inr \<lparr>pe_event_id = cr_event_id r, pe_stream_id = stream_id,
                   pe_stream_position = cr_stream_position r,
                   pe_global_position = word_of_int (er_global_position row), pe_event = ev,
                   pe_correlation_id = cr_correlation_id r, pe_causation_id = cr_causation_id r,
                   pe_actor = actor, pe_event_version = cr_event_version r,
                   pe_stored_at = er_stored_at row\<rparr>)))"

text \<open>Collecting an iterator of results: the first error wins.\<close>

fun collect_results :: "('x \<Rightarrow> 'er + 'y) \<Rightarrow> 'x list \<Rightarrow> 'er + 'y list" where
  "collect_results f [] = Inr []"
| "collect_results f (x # xs) = and_then (f x) (\<lambda>y. and_then (collect_results f xs) (\<lambda>ys. Inr (y # ys)))"

text \<open>\<^verbatim>\<open>LIMIT\<close>: Postgres refuses a negative one, which is what a count of $2^{63}$ or more becomes.\<close>

definition limited :: "u64 \<Rightarrow> 'x list \<Rightarrow> store_error + 'x list" where
  "limited max_count xs =
     (let limit = sint max_count in if limit < 0 then Inl (Invariant NegativeLimit) else Inr (take (nat limit) xs))"

definition after_position :: "read_from \<Rightarrow> int" where
  "after_position rf = (case rf of FromStart \<Rightarrow> - 1 | After n \<Rightarrow> sint n)"

definition read_stream ::
    "'e store_env \<Rightarrow> event_table \<Rightarrow> stream_id \<Rightarrow> read_from \<Rightarrow> u64 \<Rightarrow> store_error + 'e persisted_event list" where
  "read_stream env tab stream rf max_count =
     and_then (limited max_count (filter (\<lambda>r. after_position rf < position_of r)
        (stream_rows tab (stream_id_to_string (se_uuid_str env) stream))))
       (collect_results (try_from_row env))"

definition after_global :: "subscribe_from \<Rightarrow> int" where
  "after_global sf = (case sf of SubscribeStart \<Rightarrow> 0 | AfterGlobal n \<Rightarrow> sint n)"

text \<open>The rows of a category above a global position, in global order.\<close>

definition category_rows :: "event_table \<Rightarrow> string \<Rightarrow> int \<Rightarrow> event_row list" where
  "category_rows tab label after =
     sort_key er_global_position
       (filter (\<lambda>r. cr_stream_category (er_chain r) = label \<and> after < er_global_position r) (et_rows tab))"

definition read_category ::
    "'e store_env \<Rightarrow> event_table \<Rightarrow> stream_category \<Rightarrow> subscribe_from \<Rightarrow> u64 \<Rightarrow> store_error + 'e persisted_event list" where
  "read_category env tab cat sf max_count =
     and_then (limited max_count (category_rows tab (category_label cat) (after_global sf)))
       (collect_results (try_from_row env))"

text \<open>The merged read: one limited arm per category, concatenated, ordered and limited again.\<close>

fun merged_arms :: "event_table \<Rightarrow> string list \<Rightarrow> int \<Rightarrow> u64 \<Rightarrow> store_error + event_row list" where
  "merged_arms tab [] after max_count = Inr []"
| "merged_arms tab (label # labels) after max_count =
     and_then (limited max_count (category_rows tab label after)) (\<lambda>arm.
       and_then (merged_arms tab labels after max_count) (\<lambda>arms. Inr (arm @ arms)))"

text \<open>The duplicates a \<^verbatim>\<open>contains\<close> check keeps out, in first-seen order.\<close>

definition push_new :: "'x list \<Rightarrow> 'x \<Rightarrow> 'x list" where
  "push_new acc x = (if x \<in> set acc then acc else acc @ [x])"

definition read_categories ::
    "'e store_env \<Rightarrow> event_table \<Rightarrow> stream_category list \<Rightarrow> subscribe_from \<Rightarrow> u64
     \<Rightarrow> store_error + 'e persisted_event list" where
  "read_categories env tab categories sf max_count =
     (let labels = sort (foldl push_new [] (map category_label categories)) in
      if labels = [] then Inr []
      else and_then (merged_arms tab labels (after_global sf) max_count) (\<lambda>merged.
             and_then (limited max_count (sort_key er_global_position merged))
               (collect_results (try_from_row env))))"

text \<open>The default body of the port: a read per category, merged by the caller.\<close>

fun read_each ::
    "(stream_category \<Rightarrow> store_error + 'e persisted_event list) \<Rightarrow> stream_category list
     \<Rightarrow> store_error + 'e persisted_event list" where
  "read_each read [] = Inr []"
| "read_each read (cat # cats) = and_then (read cat) (\<lambda>page. and_then (read_each read cats) (\<lambda>rest. Inr (page @ rest)))"

definition read_categories_default ::
    "(stream_category \<Rightarrow> subscribe_from \<Rightarrow> u64 \<Rightarrow> store_error + 'e persisted_event list)
     \<Rightarrow> stream_category list \<Rightarrow> subscribe_from \<Rightarrow> u64 \<Rightarrow> store_error + 'e persisted_event list" where
  "read_categories_default read categories sf max_count =
     and_then (read_each (\<lambda>cat. read cat sf max_count) (foldl push_new [] categories)) (\<lambda>merged.
       Inr (take (unat max_count) (sort_key pe_global_position merged)))"

subsection \<open>Reading a stream for verification\<close>

definition stream_page :: nat where "stream_page = 1024"

function read_chain_pages :: "event_row list \<Rightarrow> int \<Rightarrow> chain_row list" where
  "read_chain_pages rows after =
     (let page = take stream_page (filter (\<lambda>r. after < position_of r) rows) in
      if page = [] then []
      else if length page < stream_page then map er_chain page
      else map er_chain page @ read_chain_pages rows (position_of (last page)))"
  by pat_completeness auto
termination
proof (relation "measure (\<lambda>(rows, after). length (filter (\<lambda>r. after < position_of r) rows))")
  fix rows :: "event_row list" and after :: int and page
  assume page: "page = take stream_page (filter (\<lambda>r. after < position_of r) rows)" and "page \<noteq> []"
  then have l: "last page \<in> set rows" "after < position_of (last page)"
    using last_in_set [OF \<open>page \<noteq> []\<close>] set_take_subset [of stream_page "filter (\<lambda>r. after < position_of r) rows"]
    by (auto simp del: last_in_set)
  have eq: "filter (\<lambda>r. position_of (last page) < position_of r) rows =
      filter (\<lambda>r. position_of (last page) < position_of r) (filter (\<lambda>r. after < position_of r) rows)"
    using l(2) by (auto intro!: filter_cong)
  have "length (filter (\<lambda>r. position_of (last page) < position_of r) (filter (\<lambda>r. after < position_of r) rows))
      < length (filter (\<lambda>r. after < position_of r) rows)"
    using l by (intro length_filter_less [of "last page"]) auto
  then show "((rows, position_of (last page)), rows, after) \<in>
      measure (\<lambda>(rows, after). length (filter (\<lambda>r. after < position_of r) rows))"
    by (simp add: eq)
qed simp

declare read_chain_pages.simps [simp del]

definition read_stream_chain :: "event_table \<Rightarrow> string \<Rightarrow> chain_row list" where
  "read_stream_chain tab sid = read_chain_pages (stream_rows tab sid) (- 1)"

definition list_stream_ids :: "event_table \<Rightarrow> u64 option \<Rightarrow> string list" where
  "list_stream_ids tab since_global =
     sort (remdups (map (\<lambda>r. cr_stream_id (er_chain r))
       (filter (\<lambda>r. case since_global of None \<Rightarrow> True | Some n \<Rightarrow> sint n \<le> er_global_position r) (et_rows tab))))"

end
