(* ===== verification/Event_Store_Chains.thy ===== *)
theory Event_Store_Chains
  imports Event_Store "HOL-Library.Sublist"
begin

text \<open>
  What the event store promises: appends are optimistic and atomic, the streams it stores verify,
  sealing removes exactly what its tombstone describes, and the several read paths agree.
\<close>

section \<open>What an append writes\<close>

text \<open>The rows of a batch, by recursion over its events.\<close>

definition next_row ::
    "'e store_env \<Rightarrow> 'e append_events \<Rightarrow> u64 \<Rightarrow> event_hash \<Rightarrow> 'e event_to_append \<times> json \<Rightarrow> chain_row" where
  "next_row env batch pos prev item =
     (let i = chain_input_of env batch (pos + 1) prev (fst item) (snd item)
      in row_to_insert env i (compute_event_hash (se_sha env) (se_ser env) i))"

fun batch_rows ::
    "'e store_env \<Rightarrow> 'e append_events \<Rightarrow> u64 \<Rightarrow> event_hash \<Rightarrow> ('e event_to_append \<times> json) list \<Rightarrow> chain_row list" where
  "batch_rows env batch pos prev [] = []"
| "batch_rows env batch pos prev (item # rest) =
     next_row env batch pos prev item #
     batch_rows env batch (pos + 1) (cr_stored_hash (next_row env batch pos prev item)) rest"

abbreviation batch_sid :: "'e store_env \<Rightarrow> 'e append_events \<Rightarrow> string" where
  "batch_sid env batch \<equiv> stream_id_to_string (se_uuid_str env) (ae_stream_id batch)"

lemma next_row_simps [simp]:
  "cr_stream_id (next_row env batch pos prev item) = batch_sid env batch"
  "cr_stream_position (next_row env batch pos prev item) = pos + 1"
  "cr_stored_prev (next_row env batch pos prev item) = prev"
  by (simp_all add: next_row_def Let_def row_to_insert_def chain_input_of_def stream_id_to_columns_def)

lemma length_batch_rows [simp]: "length (batch_rows env batch pos prev items) = length items"
  by (induction items arbitrary: pos prev) simp_all

lemma batch_rows_stream: "r \<in> set (batch_rows env batch pos prev items) \<Longrightarrow> cr_stream_id r = batch_sid env batch"
  by (induction items arbitrary: pos prev) auto

lemma batch_rows_position:
  "i < length items \<Longrightarrow> cr_stream_position (batch_rows env batch pos prev items ! i) = pos + 1 + of_nat i"
proof (induction items arbitrary: pos prev i)
  case (Cons item items)
  then show ?case by (cases i) (simp_all add: algebra_simps)
qed simp

lemma insert_event_Inr:
  "insert_event now tab row = (Inr g, tab') \<longleftrightarrow>
   g = et_sequence tab + 1 \<and>
   tab' = \<lparr>et_rows = et_rows tab @ [\<lparr>er_chain = row, er_global_position = g, er_stored_at = now\<rparr>], et_sequence = g\<rparr> \<and>
   (\<forall>r\<in>set (et_rows tab). cr_event_id (er_chain r) \<noteq> cr_event_id row \<and>
      \<not> (cr_stream_id (er_chain r) = cr_stream_id row \<and> cr_stream_position (er_chain r) = cr_stream_position row))"
  by (cases tab) (auto simp: insert_event_def Let_def list_ex_iff)

lemma append_loop_step:
  "append_loop env fault now batch i pos prev gps tab (item # items) =
   (case fault i of
      Some e \<Rightarrow> (Inl (append_error (batch_sid env batch) (pos + 1) e), tab)
    | None \<Rightarrow>
        (case insert_event now tab (next_row env batch pos prev item) of
           (Inl e, tab') \<Rightarrow> (Inl (append_error (batch_sid env batch) (pos + 1) e), tab')
         | (Inr g, tab') \<Rightarrow>
             append_loop env fault now batch (i + 1) (pos + 1) (cr_stored_hash (next_row env batch pos prev item))
               (gps @ [word_of_int g]) tab' items))"
proof -
  obtain to_append data where item: "item = (to_append, data)" by (cases item)
  define ci where "ci = chain_input_of env batch (pos + 1) prev to_append data"
  have row: "next_row env batch pos prev (to_append, data) = row_to_insert env ci (compute_event_hash (se_sha env) (se_ser env) ci)"
    by (simp add: next_row_def Let_def ci_def)
  have hash: "cr_stored_hash (row_to_insert env ci x) = x" for x by (simp add: row_to_insert_def)
  have sid: "ci_stream_id ci = batch_sid env batch" by (simp add: ci_def chain_input_of_def stream_id_to_columns_def)
  show ?thesis
    unfolding item append_loop.simps(2) Let_def row hash ci_def [symmetric] sid ..
qed

declare append_loop.simps(2) [simp del]

lemma append_loop_Cons:
  "append_loop env fault now batch i pos prev gps tab (item # items) = (Inr res, tab') \<longleftrightarrow>
   fault i = None \<and>
   (\<exists>g tab1. insert_event now tab (next_row env batch pos prev item) = (Inr g, tab1) \<and>
      append_loop env fault now batch (i + 1) (pos + 1) (cr_stored_hash (next_row env batch pos prev item))
        (gps @ [word_of_int g]) tab1 items = (Inr res, tab'))"
  by (auto simp: append_loop_step split: option.split sum.split prod.split)

definition unclaimed :: "event_row list \<Rightarrow> event_row list \<Rightarrow> bool" where
  "unclaimed old new \<longleftrightarrow>
     (\<forall>r\<in>set old. \<forall>n\<in>set new. cr_event_id (er_chain r) \<noteq> cr_event_id (er_chain n) \<and>
        \<not> (cr_stream_id (er_chain r) = cr_stream_id (er_chain n) \<and>
           cr_stream_position (er_chain r) = cr_stream_position (er_chain n)))"

definition written ::
    "'e store_env \<Rightarrow> 'e append_events \<Rightarrow> timestamp \<Rightarrow> u64 \<Rightarrow> event_hash \<Rightarrow> int \<Rightarrow> ('e event_to_append \<times> json) list \<Rightarrow> event_row list" where
  "written env batch now pos prev g items =
     map2 (\<lambda>k row. \<lparr>er_chain = row, er_global_position = g + int k, er_stored_at = now\<rparr>)
       [1..<Suc (length items)] (batch_rows env batch pos prev items)"

lemma written_Nil [simp]: "written env batch now pos prev g [] = []"
  by (simp add: written_def)

lemma written_Cons:
  "written env batch now pos prev g (item # items) =
   \<lparr>er_chain = next_row env batch pos prev item, er_global_position = g + 1, er_stored_at = now\<rparr> #
   written env batch now (pos + 1) (cr_stored_hash (next_row env batch pos prev item)) (g + 1) items"
  by (simp add: written_def upt_conv_Cons map_Suc_upt [symmetric] zip_map1 comp_def case_prod_beta del: upt_Suc map_Suc_upt)

lemma append_loop_Inr:
  "append_loop env fault now batch i pos prev gps tab items = (Inr res, tab') \<Longrightarrow>
   et_rows tab' = et_rows tab @ written env batch now pos prev (et_sequence tab) items \<and>
   et_sequence tab' = et_sequence tab + int (length items) \<and>
   res = \<lparr>ar_stream_position = pos + of_nat (length items),
          ar_global_positions = gps @ map (\<lambda>k. word_of_int (et_sequence tab + int k)) [1..<Suc (length items)]\<rparr> \<and>
   unclaimed (et_rows tab) (written env batch now pos prev (et_sequence tab) items)"
proof (induction items arbitrary: i pos prev gps tab)
  case (Cons item items)
  define row where "row = next_row env batch pos prev item"
  define first where "first = \<lparr>er_chain = row, er_global_position = et_sequence tab + 1, er_stored_at = now\<rparr>"
  obtain g tab1 where ins: "insert_event now tab row = (Inr g, tab1)"
    and rest: "append_loop env fault now batch (i + 1) (pos + 1) (cr_stored_hash row) (gps @ [word_of_int g]) tab1 items
      = (Inr res, tab')"
    using Cons.prems unfolding append_loop_Cons row_def by blast
  have g: "g = et_sequence tab + 1" "et_rows tab1 = et_rows tab @ [first]" "et_sequence tab1 = et_sequence tab + 1"
    and fresh: "unclaimed (et_rows tab) [first]"
    using ins by (auto simp: insert_event_Inr first_def unclaimed_def)
  have split: "written env batch now pos prev (et_sequence tab) (item # items) =
      first # written env batch now (pos + 1) (cr_stored_hash row) (et_sequence tab1) items"
    by (simp add: written_Cons first_def row_def g(3))
  have "unclaimed (et_rows tab1) (written env batch now (pos + 1) (cr_stored_hash row) (et_sequence tab1) items)"
    using Cons.IH [OF rest] by blast
  then have "unclaimed (et_rows tab) (written env batch now pos prev (et_sequence tab) (item # items))"
    using fresh unfolding split g(2) by (auto simp: unclaimed_def)
  moreover have "map (\<lambda>k. word_of_int (et_sequence tab + int k) :: u64) [1..<Suc (length (item # items))] =
      word_of_int g # map (\<lambda>k. word_of_int (et_sequence tab1 + int k)) [1..<Suc (length items)]"
    by (simp add: g upt_conv_Cons map_Suc_upt [symmetric] comp_def add.assoc del: upt_Suc map_Suc_upt)
  ultimately show ?case
    using Cons.IH [OF rest] unfolding split g(2,3) by simp
qed (simp add: unclaimed_def)

lemma written_simps [simp]:
  "length (written env batch now pos prev g items) = length items"
  "map er_chain (written env batch now pos prev g items) = batch_rows env batch pos prev items"
proof -
  show len: "length (written env batch now pos prev g items) = length items"
    by (simp add: written_def del: upt_Suc)
  show "map er_chain (written env batch now pos prev g items) = batch_rows env batch pos prev items"
    by (rule nth_equalityI) (simp_all add: len, simp add: written_def del: upt_Suc)
qed

text \<open>Where a stream stands: the position of its last row and the hash the next row chains from.\<close>

definition tail_state :: "'e store_env \<Rightarrow> event_table \<Rightarrow> string \<Rightarrow> u64 \<times> event_hash" where
  "tail_state env tab sid =
     (case read_tail tab sid of None \<Rightarrow> (- 1, genesis_hash (se_sha env)) | Some (pos, h) \<Rightarrow> (pos, h))"

definition expects :: "expected_version \<Rightarrow> u64 \<Rightarrow> bool" where
  "expects v pos = (case v of NoStream \<Rightarrow> pos = - 1 | Exact n \<Rightarrow> pos = n | AnyVersion \<Rightarrow> True)"

lemma append_with_conn_Inr:
  "append_with_conn env tail_fault insert_fault now snap tab batch serialized = (Inr res, tab') \<longleftrightarrow>
   tail_fault = None \<and> expects (ae_expected_version batch) (fst (tail_state env snap (batch_sid env batch))) \<and>
   append_loop env insert_fault now batch 0 (fst (tail_state env snap (batch_sid env batch)))
     (snd (tail_state env snap (batch_sid env batch))) [] tab (zip (ae_events batch) serialized) = (Inr res, tab')"
  by (auto simp: append_with_conn_def Let_def stream_id_to_columns_def tail_state_def expects_def
      split: option.split prod.split expected_version.split)

lemma append_Inr:
  "store_append env faults now snap tab batch = (Inr res, tab') \<longleftrightarrow>
   df_begin faults = None \<and> df_commit faults = None \<and>
   (\<exists>serialized. validate_and_serialize env (ae_events batch) = Inr serialized \<and>
      append_with_conn env (df_tail faults) (df_insert faults) now snap tab batch serialized = (Inr res, tab'))"
  by (auto simp: store_append_def split: sum.split option.split prod.split)

lemma append_Inl: "store_append env faults now snap tab batch = (Inl e, tab') \<Longrightarrow> et_rows tab' = et_rows tab"
  by (auto simp: store_append_def rolled_back_def split: sum.splits option.splits prod.splits)

lemma serialized_payloads:
  "validate_and_serialize env events = Inr serialized \<Longrightarrow>
   serialized = map (\<lambda>e. stored_payload_envelope env (eta_event e)) events"
  by (induction events arbitrary: serialized) (auto simp: Let_def split: if_splits)

section \<open>The streams of the table\<close>

lemma sort_key_append:
  assumes "\<And>a b. a \<in> set xs \<Longrightarrow> b \<in> set ys \<Longrightarrow> f a \<le> f b"
  shows "sort_key f (xs @ ys) = sort_key f xs @ sort_key f ys"
proof (rule properties_for_sort_key)
  show "sorted (map f (sort_key f xs @ sort_key f ys))"
    using assms by (auto simp: sorted_append)
  show "filter (\<lambda>x. f k = f x) (sort_key f xs @ sort_key f ys) = filter (\<lambda>x. f k = f x) (xs @ ys)" for k
    using sort_key_stable [of f "f k" xs] sort_key_stable [of f "f k" ys]
    by (simp add: eq_commute [of "f k"])
qed simp

lemma sint_of_nat64: "n < 2 ^ 63 \<Longrightarrow> sint (of_nat n :: u64) = int n"
  by (simp add: signed_of_nat signed_take_bit_int_eq_self)

definition stream_chain :: "event_table \<Rightarrow> string \<Rightarrow> chain_row list" where
  "stream_chain tab sid = map er_chain (stream_rows tab sid)"

definition linked :: "'e store_env \<Rightarrow> chain_row list \<Rightarrow> bool" where
  "linked env rows \<longleftrightarrow> well_linked (se_sha env) (se_ser env) (views rows)"

definition fits :: "event_table \<Rightarrow> bool" where "fits tab \<longleftrightarrow> length (et_rows tab) + 1 < 2 ^ 63"

lemma linked_position: "linked env rows \<Longrightarrow> i < length rows \<Longrightarrow> cr_stream_position (rows ! i) = of_nat i"
  by (simp add: linked_def well_linked_def row_linked_def)

lemma length_stream_rows: "length (stream_rows tab sid) \<le> length (et_rows tab)"
  by (simp add: stream_rows_def)

lemma stream_chain_length: "length (stream_chain tab sid) = length (stream_rows tab sid)"
  by (simp add: stream_chain_def)

lemma tail_of_linked:
  assumes "linked env (stream_chain tab sid)"
  shows "tail_state env tab sid =
    (of_nat (length (stream_chain tab sid)) - 1, head_of (se_sha env) (views (stream_chain tab sid)))"
proof (cases "stream_rows tab sid" rule: rev_cases)
  case Nil
  then show ?thesis by (simp add: tail_state_def read_tail_def stream_chain_def head_of_def)
next
  case (snoc rows row)
  then have "cr_stream_position (er_chain row) = of_nat (length rows)"
    using linked_position [OF assms, of "length rows"] by (simp add: stream_chain_def nth_append)
  with snoc show ?thesis by (simp add: tail_state_def read_tail_def stream_chain_def head_of_def Let_def)
qed

text \<open>What the \<^verbatim>\<open>jsonb\<close> column keeps of a value: all the hash reads of it.\<close>

definition jsonb_keeps :: "'e store_env \<Rightarrow> json \<Rightarrow> bool" where
  "jsonb_keeps env v \<longleftrightarrow> canonicalize_json (se_jsonb env v) = canonicalize_json v"

lemma next_row_hash:
  assumes "jsonb_keeps env (snd item)"
  shows "compute_event_hash (se_sha env) (se_ser env) (sr_input (as_stream_row (next_row env batch pos prev item)))
    = cr_stored_hash (next_row env batch pos prev item)"
  using assms
  by (simp add: next_row_def Let_def row_to_insert_def as_stream_row_def chain_input_of_def compute_event_hash_def
      canonical_event_bytes_def canonical_payload_bytes_def jsonb_keeps_def)

lemma linked_extend:
  assumes "linked env rows" and "list_all (\<lambda>item. jsonb_keeps env (snd item)) items"
    and "prev = head_of (se_sha env) (views rows)" and "pos = of_nat (length rows) - 1"
    and "genesis_hash (se_sha env) \<notin> cr_stored_hash ` set (rows @ batch_rows env batch pos prev items)"
    and "length rows + length items < 2 ^ 63"
  shows "linked env (rows @ batch_rows env batch pos prev items)"
  using assms
proof (induction items arbitrary: rows pos prev)
  case (Cons item items)
  define row where "row = next_row env batch pos prev item"
  have zero: "(of_nat (length rows) :: u64) = 0 \<longleftrightarrow> rows = []"
    using Cons.prems(6) by (auto simp: word_of_nat_eq_0_iff dest!: dvd_imp_le)
  have head: "prev = genesis_hash (se_sha env) \<longleftrightarrow> rows = []"
    using Cons.prems(3,5) by (cases rows rule: rev_cases) (auto simp: head_of_def)
  have "link_ok (se_sha env) (se_ser env) prev pos (as_stream_row row)"
    using Cons.prems(2,4) next_row_hash [of env item batch pos prev] zero head
    by (simp add: link_ok_def row_def)
  with Cons.prems(1,3,4) have "linked env (rows @ [row])"
    by (simp add: linked_def well_linked_snoc)
  moreover have "cr_stored_hash row = head_of (se_sha env) (views (rows @ [row]))" by (simp add: head_of_def)
  ultimately have "linked env ((rows @ [row]) @ batch_rows env batch (pos + 1) (cr_stored_hash row) items)"
    using Cons.prems by (intro Cons.IH) (auto simp: row_def)
  then show ?case by (simp add: row_def)
qed simp

text \<open>The rows of a batch are in order of their positions.\<close>

definition numbered_from :: "nat \<Rightarrow> event_row list \<Rightarrow> bool" where
  "numbered_from m rows \<longleftrightarrow> (\<forall>i<length rows. position_of (rows ! i) = int (m + i))"

lemma numbered_sorted: "numbered_from m rows \<Longrightarrow> sort_key position_of rows = rows"
  by (rule sort_key_id_if_sorted) (auto simp: sorted_iff_nth_mono numbered_from_def)

lemma numbered_bounds: "numbered_from m rows \<Longrightarrow> r \<in> set rows \<Longrightarrow> int m \<le> position_of r \<and> position_of r < int (m + length rows)"
  by (auto simp: numbered_from_def in_set_conv_nth)

lemma written_numbered:
  assumes "pos = of_nat m - 1" and "m + length items < 2 ^ 63"
  shows "numbered_from m (written env batch now pos prev g items)"
  unfolding numbered_from_def
proof (intro allI impI)
  fix i
  assume "i < length (written env batch now pos prev g items)"
  then have i: "i < length items" by simp
  then have "er_chain (written env batch now pos prev g items ! i) = batch_rows env batch pos prev items ! i"
    by (metis nth_map written_simps)
  moreover have "pos + 1 + of_nat i = (of_nat (m + i) :: u64)" by (simp add: assms(1))
  ultimately show "position_of (written env batch now pos prev g items ! i) = int (m + i)"
    using i assms(2) sint_of_nat64 [of "m + i"] by (simp add: position_of_def batch_rows_position)
qed

lemma linked_numbered:
  assumes "linked env (stream_chain tab sid)" and "length (stream_rows tab sid) < 2 ^ 63"
  shows "numbered_from 0 (stream_rows tab sid)"
  using linked_position [OF assms(1)] assms(2)
  by (simp add: numbered_from_def position_of_def stream_chain_def sint_of_nat64)

lemma written_stream: "r \<in> set (written env batch now pos prev g items) \<Longrightarrow> cr_stream_id (er_chain r) = batch_sid env batch"
  using batch_rows_stream [of "er_chain r"] by (metis image_eqI list.set_map written_simps(2))

lemma filter_written: "filter (\<lambda>r. cr_stream_id (er_chain r) = sid) (written env batch now pos prev g items) =
    (if sid = batch_sid env batch then written env batch now pos prev g items else [])"
  using written_stream [of _ env batch now pos prev g items] by (auto simp: filter_empty_conv filter_id_conv)

text \<open>An append that meets the stream it read.\<close>

lemma stream_rows_append:
  assumes "linked env (stream_chain tab sid)" and "pos = of_nat (length (stream_chain tab sid)) - 1"
    and "sid = batch_sid env batch" and "length (et_rows tab) + length items < 2 ^ 63"
    and "et_rows tab' = et_rows tab @ written env batch now pos prev g items"
  shows "stream_rows tab' sid = stream_rows tab sid @ written env batch now pos prev g items"
proof -
  let ?new = "written env batch now pos prev g items"
  let ?n = "length (stream_rows tab sid)"
  have bound: "?n + length items < 2 ^ 63" using length_stream_rows [of tab sid] assms(4) by simp
  have new: "numbered_from ?n ?new"
    using bound assms(2) by (intro written_numbered) (simp_all add: stream_chain_length)
  have old: "numbered_from 0 (stream_rows tab sid)" using assms(1) bound by (intro linked_numbered) simp_all
  have "sort_key position_of (filter (\<lambda>r. cr_stream_id (er_chain r) = sid) (et_rows tab) @ ?new) =
      stream_rows tab sid @ sort_key position_of ?new"
    unfolding stream_rows_def
  proof (rule sort_key_append)
    fix a b
    assume "a \<in> set (filter (\<lambda>r. cr_stream_id (er_chain r) = sid) (et_rows tab))" and "b \<in> set ?new"
    then show "position_of a \<le> position_of b"
      using numbered_bounds [OF old, of a] numbered_bounds [OF new, of b] by (simp add: stream_rows_def)
  qed
  then show ?thesis
    using numbered_sorted [OF new] filter_written [of sid env batch now pos prev g items] assms(3,5)
    by (simp add: stream_rows_def [of tab'])
qed

lemma stream_rows_other:
  assumes "sid \<noteq> batch_sid env batch" and "et_rows tab' = et_rows tab @ written env batch now pos prev g items"
  shows "stream_rows tab' sid = stream_rows tab sid"
  using filter_written [of sid env batch now pos prev g items] assms by (simp add: stream_rows_def)

lemma fits_length: "fits tab \<Longrightarrow> length (stream_chain tab sid) < 2 ^ 63"
  using length_stream_rows [of tab sid] by (simp add: fits_def stream_chain_length)

text \<open>
  An append that read its tail from an earlier state succeeds only if the stream has not moved: the
  position it claims is taken otherwise.
\<close>

lemma append_not_stale:
  assumes "linked env (stream_chain snap sid)" and "linked env (stream_chain tab sid)"
    and "prefix (stream_rows snap sid) (stream_rows tab sid)" and "sid = batch_sid env batch"
    and "items \<noteq> []"
    and "unclaimed (et_rows tab) (written env batch now (fst (tail_state env snap sid)) prev g items)"
  shows "stream_rows snap sid = stream_rows tab sid"
proof (rule ccontr)
  assume "stream_rows snap sid \<noteq> stream_rows tab sid"
  then have len: "length (stream_rows snap sid) < length (stream_rows tab sid)"
    using assms(3) by (metis linorder_less_linear not_equal_is_parallel parallel_def prefix_length_less prefix_order.less_le)
  let ?n = "length (stream_rows snap sid)"
  let ?new = "written env batch now (fst (tail_state env snap sid)) prev g items"
  have tail: "fst (tail_state env snap sid) + 1 = of_nat ?n"
    by (simp add: tail_of_linked [OF assms(1)] stream_chain_length)
  have first: "er_chain (?new ! 0) = next_row env batch (fst (tail_state env snap sid)) prev (hd items)"
    using assms(5) nth_map [of 0 ?new er_chain] by (cases items) simp_all
  have "cr_stream_id (er_chain (stream_rows tab sid ! ?n)) = cr_stream_id (er_chain (?new ! 0))"
    using nth_mem [OF len] first assms(4) by (simp add: stream_rows_def)
  moreover have "cr_stream_position (er_chain (stream_rows tab sid ! ?n)) = cr_stream_position (er_chain (?new ! 0))"
    using linked_position [OF assms(2), of ?n] len first tail by (simp add: stream_chain_def)
  moreover have "?new ! 0 \<in> set ?new" using assms(5) by simp
  moreover have "stream_rows tab sid ! ?n \<in> set (et_rows tab)"
    using nth_mem [OF len] by (simp add: stream_rows_def)
  ultimately show False using assms(6) by (auto simp: unclaimed_def)
qed

lemma append_effect:
  assumes "append_loop env fault now batch 0 (fst (tail_state env snap sid)) (snd (tail_state env snap sid)) [] tab items
      = (Inr res, tab')"
    and "sid = batch_sid env batch"
    and "linked env (stream_chain snap sid)" and "linked env (stream_chain tab sid)"
    and "prefix (stream_rows snap sid) (stream_rows tab sid)" and "length (et_rows tab') < 2 ^ 63"
  defines "new \<equiv> written env batch now (of_nat (length (stream_chain tab sid)) - 1)
      (head_of (se_sha env) (views (stream_chain tab sid))) (et_sequence tab) items"
  shows "et_rows tab' = et_rows tab @ new" and "stream_rows tab' sid = stream_rows tab sid @ new"
    and "items \<noteq> [] \<Longrightarrow> stream_rows snap sid = stream_rows tab sid"
    and "sid' \<noteq> sid \<Longrightarrow> stream_rows tab' sid' = stream_rows tab sid'"
    and "items \<noteq> [] \<Longrightarrow> res = \<lparr>ar_stream_position = of_nat (length (stream_chain tab sid) + length items) - 1,
      ar_global_positions = map (\<lambda>k. word_of_int (et_sequence tab + int k)) [1..<Suc (length items)]\<rparr>"
proof -
  note loop = append_loop_Inr [OF assms(1)]
  have same: "stream_rows snap sid = stream_rows tab sid" if "items \<noteq> []"
    using append_not_stale [OF assms(3-5) assms(2) that] loop by blast
  show rows: "et_rows tab' = et_rows tab @ new"
  proof (cases "items = []")
    case False
    then have "tail_state env snap sid = tail_state env tab sid"
      using same by (simp add: tail_state_def read_tail_def)
    then show ?thesis using loop tail_of_linked [OF assms(4)] by (simp add: new_def)
  qed (use loop in \<open>simp add: new_def written_def\<close>)
  show "items \<noteq> [] \<Longrightarrow> stream_rows snap sid = stream_rows tab sid" by (rule same)
  have "length (et_rows tab) + length items < 2 ^ 63"
    using assms(6) rows by (simp add: new_def)
  then show "stream_rows tab' sid = stream_rows tab sid @ new"
    unfolding new_def by (rule stream_rows_append [OF assms(4) refl assms(2)]) (use rows in \<open>simp add: new_def\<close>)
  show "sid' \<noteq> sid \<Longrightarrow> stream_rows tab' sid' = stream_rows tab sid'"
    using stream_rows_other [OF _ rows [unfolded new_def]] assms(2) by blast
  show "res = \<lparr>ar_stream_position = of_nat (length (stream_chain tab sid) + length items) - 1,
      ar_global_positions = map (\<lambda>k. word_of_int (et_sequence tab + int k)) [1..<Suc (length items)]\<rparr>" if "items \<noteq> []"
    using loop same [OF that] tail_of_linked [OF assms(3)] by (simp add: stream_chain_def del: upt_Suc)
qed

section \<open>Sealing\<close>

abbreviation retention_sid :: "'e store_env \<Rightarrow> string" where
  "retention_sid env \<equiv> stream_id_to_string (se_uuid_str env) (eventstore_retention (se_new_v5 env))"

abbreviation target_sid :: "'e store_env \<Rightarrow> stream_id \<Rightarrow> string" where
  "target_sid env stream \<equiv> stream_id_to_string (se_uuid_str env) stream"

lemma seal_batch_sid [simp]: "batch_sid env (seal_batch env ids t) = retention_sid env"
  by (simp add: seal_batch_def)

lemma seal_Sealed:
  assumes "seal_and_remove env faults now ids snap audit_snap tab stream authority = (Inr Sealed, tab')"
  obtains final h serialized res tab1 n where
    "read_tail snap (target_sid env stream) = Some (final, h)" and "final = sa_final_stream_position authority"
    and "validate_and_serialize env (ae_events (seal_batch env ids
      (tombstone_of (target_sid env stream) (category_column (si_category stream)) final h))) = Inr serialized"
    and "append_with_conn env (df_append_tail faults) (df_insert faults) now audit_snap tab
      (seal_batch env ids (tombstone_of (target_sid env stream) (category_column (si_category stream)) final h)) serialized
      = (Inr res, tab1)"
    and "delete_stream_rows tab1 (target_sid env stream) final = (n, tab')" and "of_nat n = final + 1"
proof -
  show thesis
    using assms that
    by (auto simp: seal_and_remove_def Let_def stream_id_to_columns_def
        split: option.splits prod.splits sum.splits if_splits)
qed

lemma seal_other:
  assumes "seal_and_remove env faults now ids snap audit_snap tab stream authority = (res, tab')" and "res \<noteq> Inr Sealed"
  shows "et_rows tab' = et_rows tab"
  using assms
  by (auto simp: seal_and_remove_def Let_def stream_id_to_columns_def rolled_back_def
      split: option.splits prod.splits sum.splits if_splits)

definition seal_rows :: "'e store_env \<Rightarrow> seal_ids \<Rightarrow> timestamp \<Rightarrow> event_table \<Rightarrow> stream_sealed \<Rightarrow> json \<Rightarrow> event_row list" where
  "seal_rows env ids now tab tombstone data =
     written env (seal_batch env ids tombstone) now (of_nat (length (stream_chain tab (retention_sid env))) - 1)
       (head_of (se_sha env) (views (stream_chain tab (retention_sid env)))) (et_sequence tab)
       [(hd (ae_events (seal_batch env ids tombstone)), data)]"

lemma length_seal_rows [simp]: "length (seal_rows env ids now tab t data) = 1"
  by (simp add: seal_rows_def)

lemma stream_rows_filter:
  "et_rows tab' = filter (\<lambda>r. cr_stream_id (er_chain r) \<noteq> sid) (et_rows tab) \<Longrightarrow>
   stream_rows tab' sid' = (if sid' = sid then [] else stream_rows tab sid')"
  by (auto simp: stream_rows_def intro!: arg_cong [where f = "sort_key position_of"] filter_cong)

lemma of_nat64_inj: "(of_nat m :: u64) = of_nat n \<Longrightarrow> m < 2 ^ 64 \<Longrightarrow> n < 2 ^ 64 \<Longrightarrow> m = n"
  by (simp add: word_of_nat_eq_iff take_bit_nat_eq_self)

lemma seal_rows_chain:
  "map (\<lambda>r. (cr_stream_id (er_chain r), cr_stream_position (er_chain r))) (seal_rows env ids now tab t data) =
   [(retention_sid env, of_nat (length (stream_chain tab (retention_sid env))))]"
proof -
  have "map er_chain (seal_rows env ids now tab t data) = [next_row env (seal_batch env ids t)
      (of_nat (length (stream_chain tab (retention_sid env))) - 1)
      (head_of (se_sha env) (views (stream_chain tab (retention_sid env)))) (hd (ae_events (seal_batch env ids t)), data)]"
    by (simp add: seal_rows_def)
  then have "map (\<lambda>c. (cr_stream_id c, cr_stream_position c)) (map er_chain (seal_rows env ids now tab t data)) =
      [(retention_sid env, of_nat (length (stream_chain tab (retention_sid env))))]"
    by simp
  then show ?thesis by (simp add: comp_def)
qed

text \<open>What a successful seal did: it read a tail, appended the tombstone and removed the rows.\<close>

lemma seal_steps:
  assumes "seal_and_remove env faults now ids snap audit_snap tab stream authority = (Inr Sealed, tab')"
    and "linked env (stream_chain snap (target_sid env stream))"
    and "linked env (stream_chain audit_snap (retention_sid env))"
    and "linked env (stream_chain tab (retention_sid env))"
    and "prefix (stream_rows audit_snap (retention_sid env)) (stream_rows tab (retention_sid env))"
    and "length (stream_rows snap (target_sid env stream)) < 2 ^ 63" and "fits tab"
  defines "sid \<equiv> target_sid env stream"
  defines "final \<equiv> of_nat (length (stream_rows snap sid)) - 1"
  defines "t \<equiv> tombstone_of sid (category_column (si_category stream)) final (head_of (se_sha env) (views (stream_chain snap sid)))"
  defines "new \<equiv> seal_rows env ids now tab t (stored_payload_envelope env (se_stream_sealed env t))"
  obtains tab1 where "stream_rows snap sid \<noteq> []" and "sa_final_stream_position authority = final"
    and "et_rows tab1 = et_rows tab @ new"
    and "stream_rows tab1 (retention_sid env) = stream_rows tab (retention_sid env) @ new"
    and "\<And>sid'. sid' \<noteq> retention_sid env \<Longrightarrow> stream_rows tab1 sid' = stream_rows tab sid'"
    and "et_rows tab' = filter (\<lambda>r. cr_stream_id (er_chain r) \<noteq> sid) (et_rows tab1)"
    and "\<And>r. r \<in> set (et_rows tab1) \<Longrightarrow> cr_stream_id (er_chain r) = sid \<Longrightarrow> position_of r \<le> sint final"
    and "(of_nat (length (stream_rows tab1 sid)) :: u64) = of_nat (length (stream_rows snap sid))"
proof -
  obtain f h serialized res tab1 n where tail: "read_tail snap sid = Some (f, h)"
    and auth: "f = sa_final_stream_position authority"
    and ser: "validate_and_serialize env (ae_events (seal_batch env ids
      (tombstone_of sid (category_column (si_category stream)) f h))) = Inr serialized"
    and app: "append_with_conn env (df_append_tail faults) (df_insert faults) now audit_snap tab
      (seal_batch env ids (tombstone_of sid (category_column (si_category stream)) f h)) serialized = (Inr res, tab1)"
    and del: "delete_stream_rows tab1 sid f = (n, tab')" and n: "of_nat n = f + 1"
    using seal_Sealed [OF assms(1)] unfolding sid_def by metis
  have head: "f = final" "stream_rows snap sid \<noteq> []" "h = head_of (se_sha env) (views (stream_chain snap sid))"
    using tail tail_of_linked [OF assms(2)] unfolding sid_def [symmetric] final_def
    by (auto simp: tail_state_def read_tail_def stream_chain_length Let_def split: if_splits)
  have items: "zip (ae_events (seal_batch env ids t)) serialized =
      [(hd (ae_events (seal_batch env ids t)), stored_payload_envelope env (se_stream_sealed env t))]"
    using serialized_payloads [OF ser] by (simp add: seal_batch_def t_def head)
  have loop: "append_loop env (df_insert faults) now (seal_batch env ids t) 0
      (fst (tail_state env audit_snap (retention_sid env))) (snd (tail_state env audit_snap (retention_sid env))) [] tab
      [(hd (ae_events (seal_batch env ids t)), stored_payload_envelope env (se_stream_sealed env t))] = (Inr res, tab1)"
    using app unfolding append_with_conn_Inr head(1,3) t_def [symmetric] seal_batch_sid items by blast
  have "length (et_rows tab1) < 2 ^ 63"
    using append_loop_Inr [OF loop] assms(7) by (simp add: fits_def)
  note effect = append_effect [OF loop seal_batch_sid [symmetric] assms(3-5) this, folded seal_rows_def, folded new_def]
  have "n \<noteq> 0"
  proof
    assume "n = 0"
    then have "(of_nat 0 :: u64) = of_nat (length (stream_rows snap sid))" using n head(1) by (simp add: final_def)
    then have "0 = length (stream_rows snap sid)" by (rule of_nat64_inj) (use assms(6) in \<open>simp_all add: sid_def\<close>)
    then show False using head(2) by simp
  qed
  then have "n = length (stream_rows tab1 sid)" "et_rows tab' = filter (\<lambda>r. cr_stream_id (er_chain r) \<noteq> sid) (et_rows tab1)"
      "\<And>r. r \<in> set (et_rows tab1) \<Longrightarrow> cr_stream_id (er_chain r) = sid \<Longrightarrow> position_of r \<le> sint final"
    using del head(1) by (auto simp: delete_stream_rows_def list_ex_iff not_less stream_rows_def split: if_splits)
  then show thesis
    using that [of tab1] effect(1,2,4) n head auth by (simp add: final_def)
qed

lemma seal_effect:
  assumes "seal_and_remove env faults now ids snap audit_snap tab stream authority = (Inr Sealed, tab')"
    and "linked env (stream_chain snap (target_sid env stream))"
    and "linked env (stream_chain audit_snap (retention_sid env))"
    and "linked env (stream_chain tab (retention_sid env))"
    and "prefix (stream_rows audit_snap (retention_sid env)) (stream_rows tab (retention_sid env))"
    and "prefix (stream_rows snap (target_sid env stream)) (stream_rows tab (target_sid env stream))"
    and "fits tab"
  defines "sid \<equiv> target_sid env stream"
  defines "t \<equiv> tombstone_of sid (category_column (si_category stream)) (of_nat (length (stream_chain tab sid)) - 1)
      (head_of (se_sha env) (views (stream_chain tab sid)))"
  defines "new \<equiv> seal_rows env ids now tab t (stored_payload_envelope env (se_stream_sealed env t))"
  shows "sid \<noteq> retention_sid env" and "stream_rows tab sid \<noteq> []"
    and "sa_final_stream_position authority = of_nat (length (stream_chain tab sid)) - 1"
    and "et_rows tab' = filter (\<lambda>r. cr_stream_id (er_chain r) \<noteq> sid) (et_rows tab) @ new"
    and "stream_rows tab' (retention_sid env) = stream_rows tab (retention_sid env) @ new"
    and "stream_rows tab' sid = []"
    and "sid' \<noteq> sid \<Longrightarrow> sid' \<noteq> retention_sid env \<Longrightarrow> stream_rows tab' sid' = stream_rows tab sid'"
proof -
  have len: "length (stream_rows snap sid) \<le> length (stream_rows tab sid)" and bound: "length (stream_rows tab sid) < 2 ^ 63"
    using prefix_length_le [OF assms(6)] length_stream_rows [of tab sid] assms(7) by (simp_all add: fits_def sid_def)
  then have "length (stream_rows snap (target_sid env stream)) < 2 ^ 63" by (simp add: sid_def)
  note steps = seal_steps [OF assms(1-5) this assms(7), folded sid_def]
  define t0 where "t0 = tombstone_of sid (category_column (si_category stream)) (of_nat (length (stream_rows snap sid)) - 1)
    (head_of (se_sha env) (views (stream_chain snap sid)))"
  define new0 where "new0 = seal_rows env ids now tab t0 (stored_payload_envelope env (se_stream_sealed env t0))"
  obtain tab1 where some: "stream_rows snap sid \<noteq> []"
    and auth: "sa_final_stream_position authority = of_nat (length (stream_rows snap sid)) - 1"
    and tab1: "et_rows tab1 = et_rows tab @ new0" "stream_rows tab1 (retention_sid env) = stream_rows tab (retention_sid env) @ new0"
      "\<And>sid'. sid' \<noteq> retention_sid env \<Longrightarrow> stream_rows tab1 sid' = stream_rows tab sid'"
    and tab': "et_rows tab' = filter (\<lambda>r. cr_stream_id (er_chain r) \<noteq> sid) (et_rows tab1)"
    and newest: "\<And>r. r \<in> set (et_rows tab1) \<Longrightarrow> cr_stream_id (er_chain r) = sid \<Longrightarrow>
        position_of r \<le> sint (of_nat (length (stream_rows snap sid)) - 1 :: u64)"
    and n: "(of_nat (length (stream_rows tab1 sid)) :: u64) = of_nat (length (stream_rows snap sid))"
    by (rule steps [folded t0_def, folded new0_def]) (rule that)
  obtain r where r: "new0 = [r]" "cr_stream_id (er_chain r) = retention_sid env"
      "cr_stream_position (er_chain r) = of_nat (length (stream_rows tab (retention_sid env)))"
    using seal_rows_chain [of env ids now tab t0] unfolding new0_def by (auto simp: stream_chain_length)
  have last: "(of_nat (length (stream_rows snap sid)) - 1 :: u64) = of_nat (length (stream_rows snap sid) - 1)"
    using some by (simp add: of_nat_diff Suc_leI)
  show sid: "sid \<noteq> retention_sid env"
  proof
    assume eq: "sid = retention_sid env"
    then have "position_of r \<le> int (length (stream_rows snap sid) - 1)"
      using newest [of r] r tab1(1) last len bound by (simp add: sint_of_nat64)
    moreover have "position_of r = int (length (stream_rows tab sid))"
      using r(3) eq bound by (simp add: position_of_def sint_of_nat64)
    ultimately show False using len some by (cases "stream_rows snap sid") simp_all
  qed
  then have "length (stream_rows tab sid) = length (stream_rows snap sid)"
    using n tab1(3) len bound by (intro of_nat64_inj) simp_all
  then have same: "stream_rows snap sid = stream_rows tab sid"
    using assms(6) by (auto simp: prefix_def sid_def)
  then have new: "new0 = new" by (simp add: new_def new0_def t0_def t_def stream_chain_def)
  show "stream_rows tab sid \<noteq> []" "sa_final_stream_position authority = of_nat (length (stream_chain tab sid)) - 1"
    using some auth same by (simp_all add: stream_chain_length)
  show "et_rows tab' = filter (\<lambda>r. cr_stream_id (er_chain r) \<noteq> sid) (et_rows tab) @ new"
    using tab' tab1(1) r(1,2) sid new by simp
  show "stream_rows tab' (retention_sid env) = stream_rows tab (retention_sid env) @ new" "stream_rows tab' sid = []"
    using stream_rows_filter [OF tab'] sid tab1(2) new by simp_all
  show "sid' \<noteq> sid \<Longrightarrow> sid' \<noteq> retention_sid env \<Longrightarrow> stream_rows tab' sid' = stream_rows tab sid'"
    using stream_rows_filter [OF tab'] tab1(3) by simp
qed

section \<open>Histories of the store\<close>

text \<open>
  The committed states of the table, newest first, each with the stream its transaction sealed, if
  any. An operation may have read its tail from any earlier state, as long as the stream it writes
  was not sealed since: seals are serialised against each other (single-flight), and an append that
  straddles a seal is the race \<open>late_append_breaks_chain\<close> is about. The table holds fewer than
  $2^{63} - 1$ rows, and the \<^verbatim>\<open>jsonb\<close> column keeps the payloads written to it.
\<close>

type_synonym table_history = "(event_table \<times> string option) list"

definition sealed_since :: "table_history \<Rightarrow> string \<Rightarrow> bool" where
  "sealed_since newer sid \<longleftrightarrow> Some sid \<in> snd ` set newer"

definition storable :: "'e store_env \<Rightarrow> 'e append_events \<Rightarrow> bool" where
  "storable env batch \<longleftrightarrow> list_all (\<lambda>e. jsonb_keeps env (stored_payload_envelope env (eta_event e))) (ae_events batch)"

inductive store_history :: "'e store_env \<Rightarrow> table_history \<Rightarrow> bool" for env where
  start: "store_history env [(empty_table, None)]"
| append_step:
    "store_history env hs \<Longrightarrow> hs = newer @ (snap, l) # older \<Longrightarrow> \<not> sealed_since newer (batch_sid env batch) \<Longrightarrow>
     storable env batch \<Longrightarrow> store_append env faults now snap (fst (hd hs)) batch = (res, tab') \<Longrightarrow> fits tab' \<Longrightarrow>
     store_history env ((tab', None) # hs)"
| seal_step:
    "store_history env hs \<Longrightarrow> hs = newer @ (snap, l) # older \<Longrightarrow> \<not> sealed_since newer (target_sid env stream) \<Longrightarrow>
     audit_snap \<in> fst ` set hs \<Longrightarrow> \<forall>t. jsonb_keeps env (stored_payload_envelope env (se_stream_sealed env t)) \<Longrightarrow>
     delete_stream env faults now ids snap audit_snap (fst (hd hs)) stream authority = (res, tab') \<Longrightarrow> fits tab' \<Longrightarrow>
     store_history env ((tab', if res = Inr Sealed then Some (target_sid env stream) else None) # hs)"

text \<open>
  The same without the restriction: any append and any seal may have read its tail before a seal of the
  stream. A stream such an operation was run on is \<open>hit\<close>; nothing is claimed of it afterwards.
\<close>

inductive racing_history :: "'e store_env \<Rightarrow> table_history \<Rightarrow> string set \<Rightarrow> bool" for env where
  start: "racing_history env [(empty_table, None)] {}"
| append_step:
    "racing_history env hs hit \<Longrightarrow> hs = newer @ (snap, l) # older \<Longrightarrow> storable env batch \<Longrightarrow>
     store_append env faults now snap (fst (hd hs)) batch = (res, tab') \<Longrightarrow> fits tab' \<Longrightarrow>
     hit' = (if sealed_since newer (batch_sid env batch) then insert (batch_sid env batch) hit else hit) \<Longrightarrow>
     racing_history env ((tab', None) # hs) hit'"
| seal_step:
    "racing_history env hs hit \<Longrightarrow> hs = newer @ (snap, l) # older \<Longrightarrow> audit_snap \<in> fst ` set hs \<Longrightarrow>
     \<forall>t. jsonb_keeps env (stored_payload_envelope env (se_stream_sealed env t)) \<Longrightarrow>
     delete_stream env faults now ids snap audit_snap (fst (hd hs)) stream authority = (res, tab') \<Longrightarrow> fits tab' \<Longrightarrow>
     hit' = (if sealed_since newer (target_sid env stream) then insert (target_sid env stream) hit else hit) \<Longrightarrow>
     racing_history env ((tab', if res = Inr Sealed then Some (target_sid env stream) else None) # hs) hit'"

lemma store_history_races: "store_history env hs \<Longrightarrow> racing_history env hs {}"
proof (induction rule: store_history.induct)
  case start
  show ?case by (rule racing_history.start)
next
  case (append_step hs newer snap l older batch faults now res tab')
  then show ?case by (intro racing_history.append_step [OF append_step.IH append_step.hyps(2)]) auto
next
  case (seal_step hs newer snap l older stream audit_snap faults now ids authority res tab')
  then show ?case by (intro racing_history.seal_step [OF seal_step.IH seal_step.hyps(2)]) auto
qed

definition no_genesis_hash :: "'e store_env \<Rightarrow> event_table \<Rightarrow> bool" where
  "no_genesis_hash env tab \<longleftrightarrow> genesis_hash (se_sha env) \<notin> (\<lambda>r. cr_stored_hash (er_chain r)) ` set (et_rows tab)"

definition streams_linked :: "'e store_env \<Rightarrow> event_table \<Rightarrow> bool" where
  "streams_linked env tab \<longleftrightarrow> fits tab \<and> (\<forall>sid. linked env (stream_chain tab sid))"

definition racing_ok :: "'e store_env \<Rightarrow> table_history \<Rightarrow> string set \<Rightarrow> bool" where
  "racing_ok env hs hit \<longleftrightarrow>
     hs \<noteq> [] \<and> (\<forall>tab\<in>fst ` set hs. fits tab \<and> (\<forall>sid. sid \<notin> hit \<longrightarrow> linked env (stream_chain tab sid))) \<and>
     \<not> sealed_since hs (retention_sid env) \<and> retention_sid env \<notin> hit \<and>
     (\<forall>newer snap l older sid. hs = newer @ (snap, l) # older \<longrightarrow> sid \<notin> hit \<longrightarrow> \<not> sealed_since newer sid \<longrightarrow>
        prefix (stream_rows snap sid) (stream_rows (fst (hd hs)) sid))"

definition history_ok :: "'e store_env \<Rightarrow> table_history \<Rightarrow> bool" where
  "history_ok env hs \<longleftrightarrow>
     hs \<noteq> [] \<and> (\<forall>tab\<in>fst ` set hs. streams_linked env tab) \<and> \<not> sealed_since hs (retention_sid env) \<and>
     (\<forall>newer snap l older sid. hs = newer @ (snap, l) # older \<longrightarrow> \<not> sealed_since newer sid \<longrightarrow>
        prefix (stream_rows snap sid) (stream_rows (fst (hd hs)) sid))"

lemma history_ok_races: "history_ok env hs \<longleftrightarrow> racing_ok env hs {}"
  by (simp add: history_ok_def racing_ok_def streams_linked_def)

lemma racing_ok_Cons:
  assumes "racing_ok env hs hit" and "hit \<subseteq> hit'" and "retention_sid env \<notin> hit'" and "fits tab'"
    and "\<And>sid. sid \<notin> hit' \<Longrightarrow> linked env (stream_chain tab' sid)" and "l \<noteq> Some (retention_sid env)"
    and "\<And>sid. sid \<notin> hit' \<Longrightarrow> l \<noteq> Some sid \<Longrightarrow> prefix (stream_rows (fst (hd hs)) sid) (stream_rows tab' sid)"
  shows "racing_ok env ((tab', l) # hs) hit'"
proof -
  have "prefix (stream_rows snap sid) (stream_rows tab' sid)"
    if "(tab', l) # hs = newer @ (snap, k) # older" and "sid \<notin> hit'" and "\<not> sealed_since newer sid" for newer snap k older sid
  proof (cases newer)
    case (Cons n newer')
    then have n: "n = (tab', l)" "hs = newer' @ (snap, k) # older" using that(1) by simp_all
    have "\<not> sealed_since newer' sid" "l \<noteq> Some sid" using that(3) Cons n by (auto simp: sealed_since_def)
    moreover have "sid \<notin> hit" using that(2) assms(2) by blast
    ultimately have "prefix (stream_rows snap sid) (stream_rows (fst (hd hs)) sid)"
      using assms(1) n(2) unfolding racing_ok_def by blast
    then show ?thesis using assms(7) [OF that(2) \<open>l \<noteq> Some sid\<close>] prefix_order.trans by blast
  qed (use that in simp)
  then have pre: "\<forall>newer snap k older sid. (tab', l) # hs = newer @ (snap, k) # older \<longrightarrow> sid \<notin> hit' \<longrightarrow> \<not> sealed_since newer sid \<longrightarrow>
      prefix (stream_rows snap sid) (stream_rows (fst (hd ((tab', l) # hs))) sid)"
    unfolding list.sel fst_conv by blast
  have "linked env (stream_chain tab sid)" if "tab \<in> fst ` set ((tab', l) # hs)" and "sid \<notin> hit'" for tab sid
    using that assms(1,2,5) unfolding racing_ok_def by auto
  then show ?thesis
    unfolding racing_ok_def by (intro conjI pre) (use assms(1,3,4,6) in \<open>auto simp: racing_ok_def sealed_since_def\<close>)
qed

lemma history_tables:
  assumes "history_ok env hs"
  shows "tab \<in> fst ` set hs \<Longrightarrow> streams_linked env tab" and "fst (hd hs) \<in> fst ` set hs"
  using assms unfolding history_ok_def by (blast, simp)

lemma history_prefix:
  assumes "history_ok env hs" and "hs = newer @ (snap, l) # older" and "\<not> sealed_since newer sid"
  shows "prefix (stream_rows snap sid) (stream_rows (fst (hd hs)) sid)"
  using assms unfolding history_ok_def by blast

lemma racing_facts:
  assumes "racing_ok env hs hit"
  shows "tab \<in> fst ` set hs \<Longrightarrow> fits tab" and "tab \<in> fst ` set hs \<Longrightarrow> sid \<notin> hit \<Longrightarrow> linked env (stream_chain tab sid)"
    and "fst (hd hs) \<in> fst ` set hs" and "retention_sid env \<notin> hit" and "\<not> sealed_since hs (retention_sid env)"
    and "hs = newer @ (snap, l) # older \<Longrightarrow> sid \<notin> hit \<Longrightarrow> \<not> sealed_since newer sid \<Longrightarrow>
      prefix (stream_rows snap sid) (stream_rows (fst (hd hs)) sid)"
  using assms unfolding racing_ok_def by (blast, blast, simp, blast, blast, blast)

lemma racing_retention_prefix:
  assumes "racing_ok env hs hit" and "tab \<in> fst ` set hs"
  shows "prefix (stream_rows tab (retention_sid env)) (stream_rows (fst (hd hs)) (retention_sid env))"
proof -
  obtain l where "(tab, l) \<in> set hs" using assms(2) by auto
  then obtain newer older where hs: "hs = newer @ (tab, l) # older" by (auto dest: split_list)
  moreover have "\<not> sealed_since newer (retention_sid env)"
    using racing_facts(5) [OF assms(1)] hs by (auto simp: sealed_since_def)
  ultimately show ?thesis by (rule racing_facts(6) [OF assms(1) _ racing_facts(4) [OF assms(1)]])
qed

lemmas history_retention_prefix = racing_retention_prefix [of _ _ "{}", folded history_ok_races]

lemma stream_hashes:
  "no_genesis_hash env tab \<Longrightarrow> genesis_hash (se_sha env) \<notin> cr_stored_hash ` set (stream_chain tab sid)"
  by (auto simp: no_genesis_hash_def stream_chain_def stream_rows_def)

lemma linked_written:
  assumes "linked env (stream_chain tab sid)" and "list_all (\<lambda>item. jsonb_keeps env (snd item)) items"
    and "stream_rows tab' sid = stream_rows tab sid @ written env batch now (of_nat (length (stream_chain tab sid)) - 1)
      (head_of (se_sha env) (views (stream_chain tab sid))) g items"
    and "no_genesis_hash env tab'" and "length (et_rows tab') < 2 ^ 63"
  shows "linked env (stream_chain tab' sid)"
proof -
  have eq: "stream_chain tab' sid = stream_chain tab sid @ batch_rows env batch (of_nat (length (stream_chain tab sid)) - 1)
      (head_of (se_sha env) (views (stream_chain tab sid))) items"
    using assms(3) by (simp add: stream_chain_def)
  moreover have "length (stream_chain tab sid) + length items < 2 ^ 63"
    using length_stream_rows [of tab' sid] assms(3,5) by (simp add: stream_chain_length)
  ultimately show ?thesis
    using linked_extend [OF assms(1,2) refl refl] stream_hashes [OF assms(4), of sid] by metis
qed

text \<open>An append writes to its own stream only, whatever it read.\<close>

lemma append_frame:
  assumes "store_append env faults now snap tab batch = (res, tab')" and "sid \<noteq> batch_sid env batch"
  shows "stream_rows tab' sid = stream_rows tab sid"
proof (cases res)
  case (Inl e)
  then show ?thesis using append_Inl [OF assms(1) [unfolded Inl]] by (simp add: stream_rows_def)
next
  case (Inr r)
  then show ?thesis
    using assms unfolding Inr append_Inr append_with_conn_Inr by (auto dest!: append_loop_Inr intro: stream_rows_other)
qed

lemma append_step_ok:
  assumes ok: "racing_ok env hs hit" and snap: "hs = newer @ (snap, l) # older"
    and st: "storable env batch" and app: "store_append env faults now snap (fst (hd hs)) batch = (res, tab')"
    and fits: "fits tab'" and gen: "no_genesis_hash env tab'"
    and hit': "hit' = (if sealed_since newer (batch_sid env batch) then insert (batch_sid env batch) hit else hit)"
  shows "racing_ok env ((tab', None) # hs) hit'"
proof -
  define tab where "tab = fst (hd hs)"
  let ?sid = "batch_sid env batch"
  note facts = racing_facts [OF ok]
  have "\<not> sealed_since newer (retention_sid env)" using facts(5) snap by (simp add: sealed_since_def image_Un)
  then have hits: "hit \<subseteq> hit'" "retention_sid env \<notin> hit'" using hit' facts(4) by auto
  have old: "linked env (stream_chain tab sid)" if "sid \<notin> hit'" for sid
    using facts(2) [OF facts(3)] that hits(1) by (auto simp: tab_def)
  have frame: "stream_rows tab' sid = stream_rows tab sid" if "sid \<noteq> ?sid" for sid
    using append_frame [OF app that] by (simp add: tab_def)
  have own: "linked env (stream_chain tab' ?sid) \<and> prefix (stream_rows tab ?sid) (stream_rows tab' ?sid)" if live: "?sid \<notin> hit'"
  proof (cases res)
    case (Inl e)
    then have "stream_rows tab' ?sid = stream_rows tab ?sid"
      using append_Inl [OF app [unfolded Inl]] by (simp add: stream_rows_def tab_def)
    then show ?thesis using old [OF live] by (simp add: stream_chain_def)
  next
    case (Inr r)
    have "\<not> sealed_since newer ?sid" "?sid \<notin> hit" using live hit' by (auto split: if_splits)
    then have pre: "prefix (stream_rows snap ?sid) (stream_rows tab ?sid)"
      and links: "linked env (stream_chain snap ?sid)" "linked env (stream_chain tab ?sid)"
      using facts(2) [of snap ?sid] facts(6) [OF snap] old [OF live] snap by (auto simp: tab_def)
    obtain serialized where ser: "validate_and_serialize env (ae_events batch) = Inr serialized"
      and conn: "append_with_conn env (df_tail faults) (df_insert faults) now snap tab batch serialized = (Inr r, tab')"
      using app unfolding Inr append_Inr tab_def by blast
    have loop: "append_loop env (df_insert faults) now batch 0 (fst (tail_state env snap ?sid))
        (snd (tail_state env snap ?sid)) [] tab (zip (ae_events batch) serialized) = (Inr r, tab')"
      using conn by (simp add: append_with_conn_Inr)
    have "length (et_rows tab') < 2 ^ 63" using fits by (simp add: fits_def)
    note effect = append_effect [OF loop refl links pre this]
    have keeps: "list_all (\<lambda>item. jsonb_keeps env (snd item)) (zip (ae_events batch) serialized)"
      using st serialized_payloads [OF ser] by (auto simp: storable_def list_all_iff set_zip)
    have "linked env (stream_chain tab' ?sid)"
      using links(2) keeps effect(2) gen by (rule linked_written) (use fits in \<open>simp add: fits_def\<close>)
    then show ?thesis using effect(2) by simp
  qed
  show ?thesis
  proof (rule racing_ok_Cons [OF ok hits fits])
    fix sid assume sid: "sid \<notin> hit'"
    show "linked env (stream_chain tab' sid)"
      using own frame [of sid] old [OF sid] sid by (cases "sid = ?sid") (auto simp: stream_chain_def)
    show "prefix (stream_rows (fst (hd hs)) sid) (stream_rows tab' sid)"
      using own frame [of sid] sid by (cases "sid = ?sid") (auto simp: tab_def)
  qed simp
qed

lemma seal_rows_written:
  "seal_rows env ids now tab t data = written env (seal_batch env ids t) now
     (of_nat (length (stream_chain tab (retention_sid env))) - 1)
     (head_of (se_sha env) (views (stream_chain tab (retention_sid env)))) (et_sequence tab)
     [(hd (ae_events (seal_batch env ids t)), data)]"
  by (simp add: seal_rows_def)

text \<open>What a successful seal does to the streams it is not about, whatever it read of the sealed one.\<close>

lemma seal_frame:
  assumes seal: "seal_and_remove env faults now ids snap audit_snap tab stream authority = (Inr Sealed, tab')"
    and links: "linked env (stream_chain audit_snap (retention_sid env))" "linked env (stream_chain tab (retention_sid env))"
    and pre: "prefix (stream_rows audit_snap (retention_sid env)) (stream_rows tab (retention_sid env))" and fits: "fits tab"
    and neq: "target_sid env stream \<noteq> retention_sid env"
  shows "\<exists>t. stream_rows tab' (retention_sid env) = stream_rows tab (retention_sid env) @
      seal_rows env ids now tab t (stored_payload_envelope env (se_stream_sealed env t))"
    and "sid \<noteq> target_sid env stream \<Longrightarrow> sid \<noteq> retention_sid env \<Longrightarrow> stream_rows tab' sid = stream_rows tab sid"
proof -
  obtain f h serialized res tab1 n where
      ser: "validate_and_serialize env (ae_events (seal_batch env ids
        (tombstone_of (target_sid env stream) (category_column (si_category stream)) f h))) = Inr serialized"
    and app: "append_with_conn env (df_append_tail faults) (df_insert faults) now audit_snap tab
        (seal_batch env ids (tombstone_of (target_sid env stream) (category_column (si_category stream)) f h)) serialized
        = (Inr res, tab1)"
    and del: "delete_stream_rows tab1 (target_sid env stream) f = (n, tab')"
    using seal_Sealed [OF seal] by metis
  define t where "t = tombstone_of (target_sid env stream) (category_column (si_category stream)) f h"
  have items: "zip (ae_events (seal_batch env ids t)) serialized =
      [(hd (ae_events (seal_batch env ids t)), stored_payload_envelope env (se_stream_sealed env t))]"
    using serialized_payloads [OF ser] by (simp add: seal_batch_def t_def)
  have loop: "append_loop env (df_insert faults) now (seal_batch env ids t) 0
      (fst (tail_state env audit_snap (retention_sid env))) (snd (tail_state env audit_snap (retention_sid env))) [] tab
      [(hd (ae_events (seal_batch env ids t)), stored_payload_envelope env (se_stream_sealed env t))] = (Inr res, tab1)"
    using app unfolding append_with_conn_Inr t_def [symmetric] seal_batch_sid items by blast
  have "length (et_rows tab1) < 2 ^ 63" using append_loop_Inr [OF loop] fits by (simp add: fits_def)
  note effect = append_effect [OF loop seal_batch_sid [symmetric] links pre this, folded seal_rows_def]
  have other: "stream_rows tab' sid' = stream_rows tab1 sid'" if "sid' \<noteq> target_sid env stream" for sid'
  proof -
    have "filter (\<lambda>r. cr_stream_id (er_chain r) = sid') (filter (\<lambda>r. cr_stream_id (er_chain r) \<noteq> target_sid env stream) rows)
        = filter (\<lambda>r. cr_stream_id (er_chain r) = sid') rows" for rows :: "event_row list"
      using that by (induction rows) auto
    then show ?thesis using del by (auto simp: delete_stream_rows_def stream_rows_def split: if_splits simp del: filter_filter)
  qed
  show "\<exists>t. stream_rows tab' (retention_sid env) = stream_rows tab (retention_sid env) @
      seal_rows env ids now tab t (stored_payload_envelope env (se_stream_sealed env t))"
    using effect(2) other [of "retention_sid env"] neq by auto
  show "stream_rows tab' sid = stream_rows tab sid" if "sid \<noteq> target_sid env stream" "sid \<noteq> retention_sid env"
    using effect(4) [OF that(2)] other [OF that(1)] by simp
qed

lemma seal_step_ok:
  assumes ok: "racing_ok env hs hit" and snap: "hs = newer @ (snap, l) # older"
    and audit: "audit_snap \<in> fst ` set hs"
    and st: "\<forall>t. jsonb_keeps env (stored_payload_envelope env (se_stream_sealed env t))"
    and seal: "seal_and_remove env faults now ids snap audit_snap (fst (hd hs)) stream authority = (res, tab')"
    and fits: "fits tab'" and gen: "no_genesis_hash env tab'"
    and hit': "hit' = (if sealed_since newer (target_sid env stream) then insert (target_sid env stream) hit else hit)"
  shows "racing_ok env ((tab', if res = Inr Sealed then Some (target_sid env stream) else None) # hs) hit'"
proof -
  define tab where "tab = fst (hd hs)"
  let ?T = "target_sid env stream" and ?R = "retention_sid env"
  note facts = racing_facts [OF ok]
  have "\<not> sealed_since newer ?R" using facts(5) snap by (simp add: sealed_since_def image_Un)
  then have hits: "hit \<subseteq> hit'" "?R \<notin> hit'" using hit' facts(4) by auto
  have old: "linked env (stream_chain tab sid)" if "sid \<notin> hit'" for sid
    using facts(2) [OF facts(3)] that hits(1) by (auto simp: tab_def)
  show ?thesis
  proof (cases "res = Inr Sealed")
    case False
    then have "stream_rows tab' sid = stream_rows tab sid" for sid
      using seal_other [OF seal] by (simp add: stream_rows_def tab_def)
    then show ?thesis
      using False old by (intro racing_ok_Cons [OF ok hits fits]) (auto simp: stream_chain_def tab_def)
  next
    case True
    note sealed = seal [unfolded True, folded tab_def]
    have links: "linked env (stream_chain audit_snap ?R)" "linked env (stream_chain tab ?R)" "fits tab"
      using facts(1,2) [OF facts(3)] facts(2) [OF audit] facts(4) by (auto simp: tab_def)
    have pre: "prefix (stream_rows audit_snap ?R) (stream_rows tab ?R)"
      unfolding tab_def by (rule racing_retention_prefix [OF ok audit])
    have live: "stream_rows tab' ?T = [] \<and> ?T \<noteq> ?R" if "?T \<notin> hit'"
    proof -
      have "\<not> sealed_since newer ?T" "?T \<notin> hit" using that hit' by (auto split: if_splits)
      then have "prefix (stream_rows snap ?T) (stream_rows tab ?T)" "linked env (stream_chain snap ?T)"
        using facts(2) [of snap ?T] facts(6) [OF snap] snap by (auto simp: tab_def)
      then show ?thesis using seal_effect(1,6) [OF sealed _ links(1,2) pre _ links(3)] by blast
    qed
    have neq: "?T \<noteq> ?R" using live hits(2) by (cases "?T \<in> hit'") auto
    note frame = seal_frame [OF sealed links(1,2) pre links(3) neq]
    obtain t where ret: "stream_rows tab' ?R = stream_rows tab ?R @
        seal_rows env ids now tab t (stored_payload_envelope env (se_stream_sealed env t))" using frame(1) by blast
    have "linked env (stream_chain tab' ?R)"
      using links(2) _ ret [unfolded seal_rows_written] gen by (rule linked_written) (use fits st in \<open>simp_all add: fits_def\<close>)
    then have "linked env (stream_chain tab' sid)" if "sid \<notin> hit'" for sid
      using frame(2) [of sid] old [OF that] live that
      by (cases "sid = ?R"; cases "sid = ?T") (auto simp: stream_chain_def linked_def well_linked_def)
    moreover have "prefix (stream_rows tab sid) (stream_rows tab' sid)" if "sid \<noteq> ?T" for sid
      using ret frame(2) [OF that] by (cases "sid = ?R") auto
    ultimately show ?thesis using neq True by (intro racing_ok_Cons [OF ok hits fits]) (auto simp: tab_def)
  qed
qed

lemma start_ok: "racing_ok env [(empty_table, None)] {}"
  by (auto simp: racing_ok_def fits_def empty_table_def stream_chain_def stream_rows_def linked_def
      well_linked_def sealed_since_def Cons_eq_append_conv)

lemma racing_history_ok:
  assumes "racing_history env hs hit" and "\<forall>tab\<in>fst ` set hs. no_genesis_hash env tab"
  shows "racing_ok env hs hit"
  using assms
proof (induction rule: racing_history.induct)
  case start
  show ?case by (rule start_ok)
next
  case (append_step hs hit newer snap l older batch faults now res tab' hit')
  then show ?case by (intro append_step_ok [OF append_step.IH append_step.hyps(2-5) _ append_step.hyps(6)]) auto
next
  case (seal_step hs hit newer snap l older audit_snap faults now ids stream authority res tab' hit')
  then show ?case
    by (intro seal_step_ok [OF seal_step.IH seal_step.hyps(2-4) _ seal_step.hyps(6) _ seal_step.hyps(7)])
      (auto simp: delete_stream_def)
qed

lemma store_history_ok:
  assumes "store_history env hs" and "\<forall>tab\<in>fst ` set hs. no_genesis_hash env tab"
  shows "history_ok env hs"
  unfolding history_ok_races using racing_history_ok [OF store_history_races [OF assms(1)] assms(2)] .

section \<open>Reading a stream for verification\<close>

lemma filter_numbered:
  assumes "numbered_from m rows"
  shows "filter (\<lambda>r. int (m + k) - 1 < position_of r) rows = drop k rows"
  using assms
proof (induction rows arbitrary: m k)
  case (Cons r rows)
  have tl: "numbered_from (Suc m) rows" and r: "position_of r = int m"
    using Cons.prems by (auto simp: numbered_from_def)
  show ?case
  proof (cases k)
    case 0
    have "filter (\<lambda>r. int m - 1 < position_of r) rows = rows"
      using numbered_bounds [OF tl] by (fastforce intro!: filter_True)
    then show ?thesis using 0 r by simp
  next
    case (Suc j)
    then show ?thesis using Cons.IH [OF tl, of j] r by (simp add: algebra_simps)
  qed
qed simp

lemma read_chain_pages_numbered:
  assumes "numbered_from m rows"
  shows "read_chain_pages rows (int (m + k) - 1) = map er_chain (drop k rows)"
proof (induction "length rows - k" arbitrary: k rule: less_induct)
  case less
  let ?page = "take stream_page (drop k rows)"
  have step: "read_chain_pages rows (int (m + k) - 1) =
      (if ?page = [] then [] else if length ?page < stream_page then map er_chain ?page
       else map er_chain ?page @ read_chain_pages rows (position_of (last ?page)))"
    by (subst read_chain_pages.simps) (simp only: filter_numbered [OF assms] Let_def)
  show ?case
  proof (cases "k + stream_page \<le> length rows")
    case False
    then show ?thesis unfolding step by auto
  next
    case True
    have page: "stream_page = Suc 1023" by (simp add: stream_page_def)
    have "last ?page = rows ! (k + stream_page - 1)"
      using True by (simp add: last_conv_nth page add.commute)
    then have "position_of (last ?page) = int (m + (k + stream_page)) - 1"
      using True assms by (simp add: numbered_from_def page)
    moreover have "read_chain_pages rows (int (m + (k + stream_page)) - 1) = map er_chain (drop (k + stream_page) rows)"
      using True by (intro less) (simp add: page)
    ultimately show ?thesis
      using True append_take_drop_id [of stream_page "drop k rows"] unfolding step
      by (simp add: page add.commute flip: map_append)
  qed
qed

lemma read_stream_chain_eq:
  assumes "numbered_from m (stream_rows tab sid)"
  shows "read_stream_chain tab sid = stream_chain tab sid"
proof (cases m)
  case 0
  then show ?thesis
    using read_chain_pages_numbered [OF assms, of 0] by (simp add: read_stream_chain_def stream_chain_def)
next
  case (Suc n)
  have "filter (\<lambda>r. - 1 < position_of r) (stream_rows tab sid) = filter (\<lambda>r. int (m + 0) - 1 < position_of r) (stream_rows tab sid)"
    using numbered_bounds [OF assms] by (fastforce intro!: filter_cong)
  then have "read_chain_pages (stream_rows tab sid) (- 1) = read_chain_pages (stream_rows tab sid) (int (m + 0) - 1)"
    by (subst (1 2) read_chain_pages.simps) (simp only:)
  then show ?thesis
    using read_chain_pages_numbered [OF assms, of 0] by (simp add: read_stream_chain_def stream_chain_def)
qed

end
