(* ===== verification/Event_Store_Guarantees.thy ===== *)
theory Event_Store_Guarantees
  imports Event_Store_Chains
begin

text \<open>
  The guarantees of the event store over all its histories: optimistic appends, verifying streams,
  faithful tombstones, agreement of the category reads, and the race that escapes the guard of a
  seal.
\<close>

section \<open>When an append succeeds\<close>

lemma insert_event_taken:
  assumes "r \<in> set (et_rows tab)" and "cr_stream_id (er_chain r) = cr_stream_id row"
    and "cr_stream_position (er_chain r) = cr_stream_position row"
  shows "fst (insert_event now tab row) = Inl (DatabaseError (Some ''23505''))"
  using assms by (auto simp: insert_event_def Let_def list_ex_iff)

lemma append_error_unique: "append_error sid pos (DatabaseError (Some ''23505'')) = Conflict (ConcurrentAppend sid pos)"
  by (simp add: append_error_def sqlstate_def)

lemma append_loop_taken:
  assumes "fault i = None" and "r \<in> set (et_rows tab)" and "cr_stream_id (er_chain r) = batch_sid env batch"
    and "cr_stream_position (er_chain r) = pos + 1"
  shows "fst (append_loop env fault now batch i pos prev gps tab (item # items)) =
    Inl (Conflict (ConcurrentAppend (batch_sid env batch) (pos + 1)))"
proof -
  have "fst (insert_event now tab (next_row env batch pos prev item)) = Inl (DatabaseError (Some ''23505''))"
    using assms by (intro insert_event_taken [of r]) simp_all
  then show ?thesis
    using assms(1) append_error_unique
    by (cases "insert_event now tab (next_row env batch pos prev item)") (simp add: append_loop_step)
qed

lemma next_row_event_id [simp]: "cr_event_id (next_row env batch pos prev item) = eta_event_id (fst item)"
  by (simp add: next_row_def Let_def row_to_insert_def chain_input_of_def)

lemma batch_rows_event_id: "map cr_event_id (batch_rows env batch pos prev items) = map (\<lambda>item. eta_event_id (fst item)) items"
  by (induction items arbitrary: pos prev) simp_all

lemma append_loop_fresh:
  assumes "\<And>i. fault i = None" and "unclaimed (et_rows tab) (written env batch now pos prev (et_sequence tab) items)"
    and "distinct (map (\<lambda>item. eta_event_id (fst item)) items)" and "length items < 2 ^ 63"
  shows "is_ok (fst (append_loop env fault now batch i pos prev gps tab items))"
  using assms(2-)
proof (induction items arbitrary: i pos prev gps tab)
  case (Cons item items)
  define row where "row = next_row env batch pos prev item"
  define first where "first = \<lparr>er_chain = row, er_global_position = et_sequence tab + 1, er_stored_at = now\<rparr>"
  define tab1 where "tab1 = \<lparr>et_rows = et_rows tab @ [first], et_sequence = et_sequence tab + 1\<rparr>"
  define later where "later = written env batch now (pos + 1) (cr_stored_hash row) (et_sequence tab1) items"
  have new: "written env batch now pos prev (et_sequence tab) (item # items) = first # later"
    by (simp add: written_Cons first_def later_def row_def tab1_def)
  have ins: "insert_event now tab row = (Inr (et_sequence tab + 1), tab1)"
    using Cons.prems(1) unfolding new by (auto simp: insert_event_Inr unclaimed_def tab1_def first_def)
  have other: "cr_event_id (er_chain n) \<noteq> cr_event_id row \<and> cr_stream_position (er_chain n) \<noteq> cr_stream_position row"
    if "n \<in> set later" for n
  proof -
    have "er_chain n \<in> set (batch_rows env batch (pos + 1) (cr_stored_hash row) items)"
      using that unfolding later_def by (metis image_eqI list.set_map written_simps(2))
    then obtain j where j: "j < length items" "er_chain n = batch_rows env batch (pos + 1) (cr_stored_hash row) items ! j"
      by (auto simp: in_set_conv_nth)
    have "cr_event_id (er_chain n) = eta_event_id (fst (items ! j))"
      using j arg_cong [OF batch_rows_event_id [of env batch "pos + 1" "cr_stored_hash row" items], of "\<lambda>xs. xs ! j"] by simp
    moreover have "cr_event_id row = eta_event_id (fst item)" by (simp add: row_def)
    moreover have "(1 + of_nat j :: u64) \<noteq> 0"
      using of_nat64_inj [of "Suc j" 0] j(1) Cons.prems(3) by auto
    moreover have "eta_event_id (fst (items ! j)) \<noteq> eta_event_id (fst item)"
      using Cons.prems(2) nth_mem [OF j(1)] by (force simp: image_iff)
    ultimately show ?thesis
      using j by (auto simp: row_def batch_rows_position)
  qed
  have "unclaimed (et_rows tab1) later"
    using Cons.prems(1) other unfolding new by (fastforce simp: unclaimed_def tab1_def first_def)
  then have "is_ok (fst (append_loop env fault now batch (i + 1) (pos + 1) (cr_stored_hash row)
      (gps @ [word_of_int (et_sequence tab + 1)]) tab1 items))"
    using Cons.prems(2,3) unfolding later_def by (intro Cons.IH) simp_all
  then obtain res tab' where "append_loop env fault now batch (i + 1) (pos + 1) (cr_stored_hash row)
      (gps @ [word_of_int (et_sequence tab + 1)]) tab1 items = (Inr res, tab')"
    by (metis is_ok_iff prod.collapse)
  then have "append_loop env fault now batch i pos prev gps tab (item # items) = (Inr res, tab')"
    unfolding append_loop_Cons using ins assms(1) by (auto simp: row_def)
  then show ?case by simp
qed simp

text \<open>The state an operation met, with the facts every history provides.\<close>

lemma history_facts:
  assumes "store_history env hs" and "\<forall>tab\<in>fst ` set hs. no_genesis_hash env tab"
    and "hs = newer @ (snap, l) # older" and "\<not> sealed_since newer sid"
  shows "linked env (stream_chain snap sid')" and "linked env (stream_chain (fst (hd hs)) sid')" and "fits (fst (hd hs))"
    and "prefix (stream_rows snap sid) (stream_rows (fst (hd hs)) sid)"
proof -
  have ok: "history_ok env hs" using assms(1,2) by (rule store_history_ok)
  have "streams_linked env snap" by (rule history_tables(1) [OF ok]) (simp add: assms(3))
  moreover have "streams_linked env (fst (hd hs))" by (intro history_tables [OF ok])
  ultimately show "linked env (stream_chain snap sid')" "linked env (stream_chain (fst (hd hs)) sid')" "fits (fst (hd hs))"
    by (simp_all add: streams_linked_def)
  show "prefix (stream_rows snap sid) (stream_rows (fst (hd hs)) sid)"
    using ok assms(3,4) by (rule history_prefix)
qed

lemma written_columns:
  "map (\<lambda>r. cr_event_id (er_chain r)) (written env batch now pos prev g items) = map (\<lambda>item. eta_event_id (fst item)) items"
  "map (\<lambda>r. cr_event_data (er_chain r)) (written env batch now pos prev g items) = map (\<lambda>item. se_jsonb env (snd item)) items"
  "map er_global_position (written env batch now pos prev g items) = map (\<lambda>k. g + int k) [1..<Suc (length items)]"
proof -
  have data: "map cr_event_data (batch_rows env batch pos prev items) = map (\<lambda>item. se_jsonb env (snd item)) items"
    by (induction items arbitrary: pos prev) (simp_all add: next_row_def Let_def row_to_insert_def chain_input_of_def)
  have "map f (map er_chain (written env batch now pos prev g items)) = map f (batch_rows env batch pos prev items)"
    for f :: "chain_row \<Rightarrow> 'x"
    by (simp only: written_simps(2))
  then have chains: "map (\<lambda>r. f (er_chain r)) (written env batch now pos prev g items) = map f (batch_rows env batch pos prev items)"
    for f :: "chain_row \<Rightarrow> 'x"
    by (simp only: list.map_comp comp_def)
  show "map (\<lambda>r. cr_event_id (er_chain r)) (written env batch now pos prev g items) = map (\<lambda>item. eta_event_id (fst item)) items"
    unfolding chains by (rule batch_rows_event_id)
  show "map (\<lambda>r. cr_event_data (er_chain r)) (written env batch now pos prev g items) = map (\<lambda>item. se_jsonb env (snd item)) items"
    unfolding chains by (rule data)
  show "map er_global_position (written env batch now pos prev g items) = map (\<lambda>k. g + int k) [1..<Suc (length items)]"
    by (rule nth_equalityI) (simp_all add: written_def del: upt_Suc)
qed

lemma append_succeeded:
  assumes "store_append env faults now snap tab batch = (Inr r, tab')" and "sid = batch_sid env batch"
    and "linked env (stream_chain snap sid)" and "linked env (stream_chain tab sid)"
    and "prefix (stream_rows snap sid) (stream_rows tab sid)" and "fits tab'" and "ae_events batch \<noteq> []"
  shows "stream_rows snap sid = stream_rows tab sid"
    and "expects (ae_expected_version batch) (of_nat (length (stream_rows tab sid)) - 1)"
    and "\<exists>new. et_rows tab' = et_rows tab @ new \<and> stream_rows tab' sid = stream_rows tab sid @ new \<and>
      map (\<lambda>r. cr_event_id (er_chain r)) new = map eta_event_id (ae_events batch) \<and>
      map (\<lambda>r. cr_event_data (er_chain r)) new =
        map (\<lambda>e. se_jsonb env (stored_payload_envelope env (eta_event e))) (ae_events batch) \<and>
      ar_stream_position r = of_nat (length (stream_rows tab' sid)) - 1 \<and>
      ar_global_positions r = map (\<lambda>r. word_of_int (er_global_position r)) new"
proof -
  obtain serialized where ser: "validate_and_serialize env (ae_events batch) = Inr serialized"
    and conn: "append_with_conn env (df_tail faults) (df_insert faults) now snap tab batch serialized = (Inr r, tab')"
    using assms(1) unfolding append_Inr by blast
  define items where "items = zip (ae_events batch) serialized"
  have payloads: "serialized = map (\<lambda>e. stored_payload_envelope env (eta_event e)) (ae_events batch)"
    using ser by (rule serialized_payloads)
  have items: "items \<noteq> []" "map fst items = ae_events batch" "map snd items = serialized"
    using assms(7) payloads by (auto simp: items_def zip_eq_Nil_iff)
  have loop: "append_loop env (df_insert faults) now batch 0 (fst (tail_state env snap sid)) (snd (tail_state env snap sid))
      [] tab items = (Inr r, tab')"
    and exp: "expects (ae_expected_version batch) (fst (tail_state env snap sid))"
    using conn by (simp_all add: append_with_conn_Inr items_def assms(2))
  have "length (et_rows tab') < 2 ^ 63" using assms(6) by (simp add: fits_def)
  note effect = append_effect [OF loop assms(2-5) this]
  define new where "new = written env batch now (of_nat (length (stream_chain tab sid)) - 1)
    (head_of (se_sha env) (views (stream_chain tab sid))) (et_sequence tab) items"
  show same: "stream_rows snap sid = stream_rows tab sid" by (rule effect(3) [OF items(1)])
  then show "expects (ae_expected_version batch) (of_nat (length (stream_rows tab sid)) - 1)"
    using exp tail_of_linked [OF assms(3)] by (simp add: stream_chain_length)
  show "\<exists>new. et_rows tab' = et_rows tab @ new \<and> stream_rows tab' sid = stream_rows tab sid @ new \<and>
      map (\<lambda>r. cr_event_id (er_chain r)) new = map eta_event_id (ae_events batch) \<and>
      map (\<lambda>r. cr_event_data (er_chain r)) new =
        map (\<lambda>e. se_jsonb env (stored_payload_envelope env (eta_event e))) (ae_events batch) \<and>
      ar_stream_position r = of_nat (length (stream_rows tab' sid)) - 1 \<and>
      ar_global_positions r = map (\<lambda>r. word_of_int (er_global_position r)) new"
  proof (intro exI [of _ new] conjI)
    show rows: "et_rows tab' = et_rows tab @ new" "stream_rows tab' sid = stream_rows tab sid @ new"
      using effect(1,2) by (simp_all add: new_def)
    show "map (\<lambda>r. cr_event_id (er_chain r)) new = map eta_event_id (ae_events batch)"
      unfolding new_def written_columns items(2) [symmetric] by simp
    show "map (\<lambda>r. cr_event_data (er_chain r)) new =
        map (\<lambda>e. se_jsonb env (stored_payload_envelope env (eta_event e))) (ae_events batch)"
      unfolding new_def written_columns using arg_cong [OF items(3), of "map (se_jsonb env)"] by (simp add: payloads comp_def)
    have r: "r = \<lparr>ar_stream_position = of_nat (length (stream_chain tab sid) + length items) - 1,
        ar_global_positions = map (\<lambda>k. word_of_int (et_sequence tab + int k)) [1..<Suc (length items)]\<rparr>"
      by (rule effect(5) [OF items(1)])
    show "ar_stream_position r = of_nat (length (stream_rows tab' sid)) - 1"
      by (simp add: r rows(2) stream_chain_length) (simp add: new_def)
    show "ar_global_positions r = map (\<lambda>r. word_of_int (er_global_position r)) new"
      using arg_cong [OF written_columns(3) [of env batch now "of_nat (length (stream_chain tab sid)) - 1"
          "head_of (se_sha env) (views (stream_chain tab sid))" "et_sequence tab" items, folded new_def],
          of "map (word_of_int :: int \<Rightarrow> u64)"]
      by (simp add: r comp_def del: upt_Suc)
  qed
qed

lemma append_no_faults:
  assumes "validate_and_serialize env (ae_events batch) = Inr serialized"
    and "expects (ae_expected_version batch) (fst (tail_state env snap (batch_sid env batch)))"
  shows "fst (store_append env no_faults now snap tab batch) =
    fst (append_loop env (\<lambda>_. None) now batch 0 (fst (tail_state env snap (batch_sid env batch)))
      (snd (tail_state env snap (batch_sid env batch))) [] tab (zip (ae_events batch) serialized))"
  using assms
  by (auto simp: store_append_def no_faults_def append_with_conn_def Let_def stream_id_to_columns_def tail_state_def
      expects_def split: option.split prod.split expected_version.split sum.split)

lemma append_wrong_version:
  assumes "validate_and_serialize env (ae_events batch) = Inr serialized"
    and "\<not> expects (ae_expected_version batch) (fst (tail_state env snap (batch_sid env batch)))"
  shows "\<exists>m. fst (store_append env no_faults now snap tab batch) = Inl (Conflict m)"
  using assms
  by (auto simp: store_append_def no_faults_def append_with_conn_def Let_def stream_id_to_columns_def tail_state_def
      expects_def split: option.splits prod.splits expected_version.splits)

lemma stale_append_conflicts:
  assumes "validate_and_serialize env (ae_events batch) = Inr serialized" and "sid = batch_sid env batch"
    and "linked env (stream_chain snap sid)" and "linked env (stream_chain tab sid)"
    and "prefix (stream_rows snap sid) (stream_rows tab sid)" and "stream_rows snap sid \<noteq> stream_rows tab sid"
    and "ae_events batch \<noteq> []"
  shows "\<exists>m. fst (store_append env no_faults now snap tab batch) = Inl (Conflict m)"
proof (cases "expects (ae_expected_version batch) (fst (tail_state env snap sid))")
  case True
  let ?n = "length (stream_rows snap sid)"
  have len: "?n < length (stream_rows tab sid)"
    using assms(5,6) prefix_length_less [of "stream_rows snap sid" "stream_rows tab sid"] by (simp add: strict_prefix_def)
  define r where "r = stream_rows tab sid ! ?n"
  have "r \<in> set (stream_rows tab sid)" using len by (simp add: r_def)
  then have r: "r \<in> set (et_rows tab)" "cr_stream_id (er_chain r) = sid" by (simp_all add: stream_rows_def)
  have "cr_stream_position (er_chain r) = fst (tail_state env snap sid) + 1"
    using linked_position [OF assms(4), of ?n] len
    by (simp add: r_def tail_of_linked [OF assms(3)] stream_chain_def)
  moreover obtain item items where "zip (ae_events batch) serialized = item # items"
    using assms(7) serialized_payloads [OF assms(1)] by (cases "ae_events batch") auto
  ultimately show ?thesis
    using append_no_faults [OF assms(1) True [unfolded assms(2)]] r assms(2)
      append_loop_taken [of "\<lambda>_. None" 0 r tab env batch "fst (tail_state env snap sid)"]
    by simp
qed (use append_wrong_version [OF assms(1)] assms(2) in simp)

lemma fresh_append_succeeds:
  assumes "validate_and_serialize env (ae_events batch) = Inr serialized" and "sid = batch_sid env batch"
    and "linked env (stream_chain tab sid)" and "stream_rows snap sid = stream_rows tab sid"
    and "expects (ae_expected_version batch) (of_nat (length (stream_rows tab sid)) - 1)"
    and "distinct (map eta_event_id (ae_events batch))"
    and "eta_event_id ` set (ae_events batch) \<inter> (\<lambda>r. cr_event_id (er_chain r)) ` set (et_rows tab) = {}"
    and "length (et_rows tab) + length (ae_events batch) < 2 ^ 63"
  shows "is_ok (fst (store_append env no_faults now snap tab batch))"
proof -
  define items where "items = zip (ae_events batch) serialized"
  have items: "map (\<lambda>item. eta_event_id (fst item)) items = map eta_event_id (ae_events batch)" "length items = length (ae_events batch)"
    using serialized_payloads [OF assms(1)] by (auto simp: items_def zip_map2 zip_same_conv_map)
  have tail: "tail_state env snap sid = tail_state env tab sid"
    using assms(4) by (simp add: tail_state_def read_tail_def)
  have n: "fst (tail_state env tab sid) = of_nat (length (stream_rows tab sid)) - 1"
    by (simp add: tail_of_linked [OF assms(3)] stream_chain_length)
  let ?new = "written env batch now (fst (tail_state env tab sid)) (snd (tail_state env tab sid)) (et_sequence tab) items"
  have bound: "length (stream_rows tab sid) + length items < 2 ^ 63"
    using length_stream_rows [of tab sid] assms(8) items(2) by simp
  have num: "numbered_from (length (stream_rows tab sid)) ?new" "numbered_from 0 (stream_rows tab sid)"
    using written_numbered [OF n bound] linked_numbered [OF assms(3)] bound by simp_all
  have "unclaimed (et_rows tab) ?new"
    unfolding unclaimed_def
  proof (intro ballI conjI notI)
    fix r m
    assume r: "r \<in> set (et_rows tab)" and m: "m \<in> set ?new"
    have "cr_event_id (er_chain m) \<in> set (map (\<lambda>r. cr_event_id (er_chain r)) ?new)" using m by simp
    then have "cr_event_id (er_chain m) \<in> eta_event_id ` set (ae_events batch)"
      by (simp only: written_columns(1) items(1) set_map)
    then show False if "cr_event_id (er_chain r) = cr_event_id (er_chain m)"
      using that r assms(7) by (metis IntI empty_iff image_eqI)
    show False if c: "cr_stream_id (er_chain r) = cr_stream_id (er_chain m) \<and>
        cr_stream_position (er_chain r) = cr_stream_position (er_chain m)"
    proof -
      have "r \<in> set (stream_rows tab sid)" using c r written_stream [OF m] assms(2) by (simp add: stream_rows_def)
      then have "position_of r < position_of m"
        using numbered_bounds [OF num(1) m] numbered_bounds [OF num(2), of r] by simp
      with c show False by (simp add: position_of_def)
    qed
  qed
  then have "is_ok (fst (append_loop env (\<lambda>_. None) now batch 0 (fst (tail_state env tab sid)) (snd (tail_state env tab sid))
      [] tab items))"
    using assms(6,8) items by (intro append_loop_fresh) simp_all
  then show ?thesis
    using append_no_faults [OF assms(1), of snap now tab] assms(2,5) tail n by (simp add: items_def)
qed

text \<open>Without a fault of the database an append ends well or in a conflict.\<close>

lemma insert_event_Inl: "insert_event now tab row = (Inl e, tab') \<Longrightarrow> e = DatabaseError (Some ''23505'')"
  by (auto simp: insert_event_def Let_def split: if_splits)

lemma append_loop_no_faults:
  "is_ok (fst (append_loop env (\<lambda>_. None) now batch i pos prev gps tab items)) \<or>
   (\<exists>m. fst (append_loop env (\<lambda>_. None) now batch i pos prev gps tab items) = Inl (Conflict m))"
proof (induction items arbitrary: i pos prev gps tab)
  case (Cons item items)
  then show ?case
    by (auto simp: append_loop_step append_error_unique dest!: insert_event_Inl split: sum.split prod.split)
qed simp

lemma append_no_faults_outcome:
  assumes "validate_and_serialize env (ae_events batch) = Inr serialized"
  shows "is_ok (fst (store_append env no_faults now snap tab batch)) \<or>
    (\<exists>m. fst (store_append env no_faults now snap tab batch) = Inl (Conflict m))"
proof (cases "expects (ae_expected_version batch) (fst (tail_state env snap (batch_sid env batch)))")
  case True
  then show ?thesis using append_no_faults [OF assms True] append_loop_no_faults by metis
qed (use append_wrong_version [OF assms] in blast)

lemma append_loop_event_ids:
  assumes "append_loop env fault now batch i pos prev gps tab items = (Inr res, tab')"
  shows "distinct (map (\<lambda>item. eta_event_id (fst item)) items)"
  using assms
proof (induction items arbitrary: i pos prev gps tab)
  case (Cons item items)
  obtain g tab1 where ins: "insert_event now tab (next_row env batch pos prev item) = (Inr g, tab1)"
    and rest: "append_loop env fault now batch (i + 1) (pos + 1) (cr_stored_hash (next_row env batch pos prev item))
      (gps @ [word_of_int g]) tab1 items = (Inr res, tab')"
    using Cons.prems unfolding append_loop_Cons by blast
  let ?new = "written env batch now (pos + 1) (cr_stored_hash (next_row env batch pos prev item)) (et_sequence tab1) items"
  have "unclaimed (et_rows tab1) ?new" using append_loop_Inr [OF rest] by blast
  moreover have "\<exists>r\<in>set (et_rows tab1). cr_event_id (er_chain r) = eta_event_id (fst item)"
    using ins by (simp add: insert_event_Inr)
  ultimately have "eta_event_id (fst item) \<notin> set (map (\<lambda>r. cr_event_id (er_chain r)) ?new)"
    by (auto simp: unclaimed_def)
  then show ?case using Cons.IH [OF rest] unfolding written_columns by simp
qed simp

lemma append_event_ids:
  assumes "store_append env faults now snap tab batch = (Inr r, tab')"
  shows "distinct (map eta_event_id (ae_events batch))"
    and "eta_event_id ` set (ae_events batch) \<inter> (\<lambda>r. cr_event_id (er_chain r)) ` set (et_rows tab) = {}"
proof -
  let ?sid = "batch_sid env batch"
  obtain serialized where ser: "validate_and_serialize env (ae_events batch) = Inr serialized"
    and loop: "append_loop env (df_insert faults) now batch 0 (fst (tail_state env snap ?sid)) (snd (tail_state env snap ?sid))
      [] tab (zip (ae_events batch) serialized) = (Inr r, tab')"
    using assms unfolding append_Inr append_with_conn_Inr by blast
  have items: "map (\<lambda>item. eta_event_id (fst item)) (zip (ae_events batch) serialized) = map eta_event_id (ae_events batch)"
    using serialized_payloads [OF ser] by (auto simp: zip_map2 zip_same_conv_map)
  show "distinct (map eta_event_id (ae_events batch))" using append_loop_event_ids [OF loop] unfolding items .
  define new where "new = written env batch now (fst (tail_state env snap ?sid)) (snd (tail_state env snap ?sid)) (et_sequence tab)
    (zip (ae_events batch) serialized)"
  have "unclaimed (et_rows tab) new" using append_loop_Inr [OF loop] unfolding new_def by blast
  moreover have "set (map (\<lambda>r. cr_event_id (er_chain r)) new) = eta_event_id ` set (ae_events batch)"
    unfolding new_def written_columns items by simp
  ultimately show "eta_event_id ` set (ae_events batch) \<inter> (\<lambda>r. cr_event_id (er_chain r)) ` set (et_rows tab) = {}"
    by (auto simp: unclaimed_def) (metis (mono_tags, lifting) imageE image_eqI)
qed

lemma append_nothing:
  assumes "store_append env faults now snap tab batch = (res, tab')" and "ae_events batch = []"
  shows "et_rows tab' = et_rows tab"
proof (cases res)
  case (Inl e)
  then show ?thesis using assms(1) append_Inl by blast
next
  case (Inr r)
  then show ?thesis
    using assms unfolding Inr append_Inr append_with_conn_Inr by (auto dest!: append_loop_Inr)
qed

lemma racing_state:
  assumes "racing_history env hs hit" and "\<forall>tab\<in>fst ` set hs. no_genesis_hash env tab"
    and "hs = newer @ (snap, l) # older" and "sid \<notin> hit" and "\<not> sealed_since newer sid"
  shows "linked env (stream_chain snap sid)" and "linked env (stream_chain (fst (hd hs)) sid)"
    and "prefix (stream_rows snap sid) (stream_rows (fst (hd hs)) sid)"
proof -
  note facts = racing_facts [OF racing_history_ok [OF assms(1,2)]]
  show "linked env (stream_chain snap sid)" using assms(3,4) by (intro facts(2)) simp_all
  show "linked env (stream_chain (fst (hd hs)) sid)" using assms(4) by (intro facts(2,3))
  show "prefix (stream_rows snap sid) (stream_rows (fst (hd hs)) sid)" using assms(3-5) by (rule facts(6))
qed

lemma seal_rows_data:
  "\<exists>row. seal_rows env ids now tab t data = [row] \<and> cr_event_data (er_chain row) = se_jsonb env data"
proof -
  have "map (\<lambda>r. cr_event_data (er_chain r)) (seal_rows env ids now tab t data) = [se_jsonb env data]"
    unfolding seal_rows_def written_columns by simp
  then show ?thesis by (cases "seal_rows env ids now tab t data") auto
qed

section \<open>An append that straddles a seal\<close>

lemma walk_first_gap:
  assumes "ci_stream_position (sr_input row) \<noteq> 0"
  shows "verify_stream_chain sha ser (row # rows) = ChainBroken (ci_stream_position (sr_input row)) PositionGap"
  using assms
  by (simp add: verify_stream_chain_def walk_stream_chain_def walk_start_def walk_loop.simps Let_def)

lemma late_append_rows:
  assumes "store_append env faults now snap tab batch = (Inr r, tab')" and "sid = batch_sid env batch"
    and "linked env (stream_chain snap sid)" and "stream_rows tab sid = []"
    and "length (stream_rows snap sid) + length (ae_events batch) < 2 ^ 63"
  shows "numbered_from (length (stream_rows snap sid)) (stream_rows tab' sid)"
    and "length (stream_rows tab' sid) = length (ae_events batch)"
proof -
  obtain serialized where ser: "validate_and_serialize env (ae_events batch) = Inr serialized"
    and conn: "append_with_conn env (df_tail faults) (df_insert faults) now snap tab batch serialized = (Inr r, tab')"
    using assms(1) unfolding append_Inr by blast
  define items where "items = zip (ae_events batch) serialized"
  have len: "length items = length (ae_events batch)"
    using serialized_payloads [OF ser] by (simp add: items_def)
  define new where "new = written env batch now (fst (tail_state env snap sid)) (snd (tail_state env snap sid)) (et_sequence tab) items"
  have rows: "et_rows tab' = et_rows tab @ new"
    using conn append_loop_Inr [of env "df_insert faults" now batch 0] unfolding append_with_conn_Inr new_def items_def assms(2)
    by blast
  have num: "numbered_from (length (stream_rows snap sid)) new"
    using assms(5) len unfolding new_def
    by (intro written_numbered) (simp_all add: tail_of_linked [OF assms(3)] stream_chain_length)
  have "filter (\<lambda>r. cr_stream_id (er_chain r) = sid) (et_rows tab) = []"
    using arg_cong [OF assms(4), of length] by (simp add: stream_rows_def)
  then have "stream_rows tab' sid = new"
    using numbered_sorted [OF num] filter_written [of sid env batch] assms(2) by (simp add: stream_rows_def rows new_def)
  then show "numbered_from (length (stream_rows snap sid)) (stream_rows tab' sid)"
    and "length (stream_rows tab' sid) = length (ae_events batch)"
    using num len by (simp_all add: new_def)
qed

section \<open>A small store\<close>

text \<open>
  Two kinds of event, a plain one and the tombstone, under stand-ins for the third-party code: a
  hash that is the length of its message, a column that keeps values as they are, a tombstone written as
  the pair of its stream and hash.
\<close>

datatype sample_event = Plain | Tombstone stream_sealed

definition sample_type :: "sample_event \<Rightarrow> string" where
  "sample_type ev = (case ev of Plain \<Rightarrow> ''ArtifactPurged'' | Tombstone _ \<Rightarrow> ''StreamSealed'')"

definition sample_body :: "sample_event \<Rightarrow> json" where
  "sample_body ev =
     (case ev of
        Plain \<Rightarrow> JNull
      | Tombstone t \<Rightarrow> JArray [JString (ss_sealed_stream_id t), JString (hash_bytes (ss_final_event_hash t))])"

definition sample_from_value :: "json \<Rightarrow> sample_event option" where
  "sample_from_value v =
     (case json_get v ''StreamSealed'' of
        Some (JArray [JString sid, JString digest]) \<Rightarrow>
          map_option (\<lambda>h. Tombstone \<lparr>ss_sealed_stream_id = sid, ss_sealed_stream_category = [], ss_final_stream_position = 0,
            ss_final_event_hash = h, ss_event_count = 0, ss_retention_policy_id = 0, ss_actor_id = None\<rparr>) (hash_of_bytes digest)
      | _ \<Rightarrow> Some Plain)"

definition sample_env :: "sample_event store_env" where
  "sample_env =
     \<lparr>se_sha = sample_sha, se_ser = sample_ser, se_jsonb = (\<lambda>v. v), se_uuid_str = uuid_bytes,
      se_uuid_parse = sample_uuid_parse, se_new_v5 = (\<lambda>_. 5), se_event_type = sample_type,
      se_serde_variant_key = sample_type, se_to_value = (\<lambda>ev. JObject [(sample_type ev, sample_body ev)]),
      se_from_value = sample_from_value, se_validate = (\<lambda>_. Inr ()), se_stream_sealed = Tombstone,
      se_as_stream_sealed = (\<lambda>ev. case ev of Tombstone t \<Rightarrow> Some t | Plain \<Rightarrow> None)\<rparr>"

definition sample_stream :: stream_id where
  "sample_stream = \<lparr>si_category = CatArtifact, si_entity_id = 1\<rparr>"

definition sample_batch :: "uuid \<Rightarrow> expected_version \<Rightarrow> sample_event append_events" where
  "sample_batch event_id version =
     \<lparr>ae_stream_id = sample_stream, ae_expected_version = version,
      ae_events = [\<lparr>eta_event_id = event_id, eta_event = Plain\<rparr>], ae_correlation_id = 0, ae_causation_id = None,
      ae_actor = timer_actor\<rparr>"

definition sample_payload :: json where
  "sample_payload = JObject [(''data'', JNull), (''type'', JString ''ArtifactPurged'')]"

definition sample_table :: event_table where
  "sample_table = \<lparr>et_rows = [\<lparr>er_chain = next_row sample_env (sample_batch 1 NoStream) (- 1) (genesis_hash sample_sha)
      (\<lparr>eta_event_id = 1, eta_event = Plain\<rparr>, sample_payload), er_global_position = 1, er_stored_at = 0\<rparr>], et_sequence = 1\<rparr>"

lemma sample_serialized:
  "validate_and_serialize sample_env (ae_events (sample_batch event_id version)) = Inr [sample_payload]"
  by (simp add: sample_env_def sample_batch_def stored_payload_envelope_def reshape_to_envelope_def sample_type_def sample_body_def
      sample_payload_def max_event_json_bytes_def sample_ser_def Let_def)

lemma read_tail_empty [simp]: "stream_rows empty_table sid = []" "read_tail empty_table sid = None"
  by (simp_all add: read_tail_def stream_rows_def empty_table_def)

lemma sample_append:
  "store_append sample_env no_faults 0 empty_table empty_table (sample_batch 1 NoStream) =
     (Inr \<lparr>ar_stream_position = 0, ar_global_positions = [1]\<rparr>, sample_table)"
proof -
  have tail: "tail_state sample_env empty_table sid = (- 1, genesis_hash sample_sha)" for sid
    by (simp add: tail_state_def sample_env_def)
  have "append_loop sample_env (\<lambda>_. None) 0 (sample_batch 1 NoStream) 0 (- 1) (genesis_hash sample_sha) [] empty_table
      [(\<lparr>eta_event_id = 1, eta_event = Plain\<rparr>, sample_payload)] =
      (Inr \<lparr>ar_stream_position = 0, ar_global_positions = [1]\<rparr>, sample_table)"
    unfolding append_loop_Cons insert_event_Inr by (simp add: empty_table_def sample_table_def)
  then show ?thesis
    unfolding append_Inr append_with_conn_Inr tail
    by (intro conjI exI [of _ "[sample_payload]"] sample_serialized)
      (simp_all add: no_faults_def expects_def, simp_all add: sample_batch_def)
qed

lemma sample_rows: "stream_rows sample_table sid = (if sid = target_sid sample_env sample_stream then et_rows sample_table else [])"
  by (auto simp: stream_rows_def sample_table_def) (auto simp: sample_batch_def)

lemma sample_no_genesis: "no_genesis_hash sample_env sample_table"
  by (simp add: no_genesis_hash_def sample_table_def next_row_def Let_def row_to_insert_def sample_env_def sample_batch_def
      compute_event_hash_def canonical_event_bytes_def sample_sha_def genesis_hash_def chain_input_of_def
      stream_id_to_columns_def stream_id_to_string_def sample_stream_def timer_actor_def length_fields put_opt_def
      domain_tag_def genesis_preimage_def canonical_payload_bytes_def sample_ser_def sample_type_def)

text \<open>The history of the small store: empty, then one event.\<close>

lemma sample_history: "store_history sample_env [(sample_table, None), (empty_table, None)]"
proof (rule store_history.append_step [OF store_history.start])
  show "[(empty_table, None)] = [] @ (empty_table, None) # []" by simp
  show "store_append sample_env no_faults 0 empty_table (fst (hd [(empty_table, None)])) (sample_batch 1 NoStream) =
      (Inr \<lparr>ar_stream_position = 0, ar_global_positions = [1]\<rparr>, sample_table)"
    by (simp add: sample_append)
qed (simp_all add: sealed_since_def storable_def list_all_iff jsonb_keeps_def sample_env_def fits_def sample_table_def)

abbreviation sample_states :: table_history where
  "sample_states \<equiv> [(sample_table, None), (empty_table, None)]"

lemma sample_states_no_genesis: "\<forall>tab\<in>fst ` set sample_states. no_genesis_hash sample_env tab"
  using sample_no_genesis by (simp add: no_genesis_hash_def empty_table_def)

definition sealed_table :: event_table where
  "sealed_table = snd (delete_stream sample_env no_faults 0 \<lparr>sid_event_id = 2, sid_correlation_id = 3\<rparr>
     sample_table sample_table sample_table sample_stream \<lparr>sa_final_stream_position = 0\<rparr>)"

lemma sample_sealed:
  "delete_stream sample_env no_faults 0 \<lparr>sid_event_id = 2, sid_correlation_id = 3\<rparr> sample_table sample_table sample_table
     sample_stream \<lparr>sa_final_stream_position = 0\<rparr> = (Inr Sealed, sealed_table) \<and>
   map (\<lambda>r. (cr_event_id (er_chain r), cr_stream_id (er_chain r))) (et_rows sealed_table) = [(2, retention_sid sample_env)]"
proof -
  let ?T = "target_sid sample_env sample_stream" and ?ids = "\<lparr>sid_event_id = 2, sid_correlation_id = 3\<rparr>"
  define h where "h = cr_stored_hash (er_chain (hd (et_rows sample_table)))"
  define batch where "batch = seal_batch sample_env ?ids (tombstone_of ?T (category_column (si_category sample_stream)) 0 h)"
  define data where "data = JObject [(''data'', JArray [JString ?T, JString (hash_bytes h)]), (''type'', JString ''StreamSealed'')]"
  define row where "row = next_row sample_env batch (- 1) (genesis_hash sample_sha) (hd (ae_events batch), data)"
  define tab1 where "tab1 = \<lparr>et_rows = et_rows sample_table @ [\<lparr>er_chain = row, er_global_position = 2, er_stored_at = 0\<rparr>],
    et_sequence = 2\<rparr>"
  have neq: "retention_sid sample_env \<noteq> ?T"
    by (simp add: stream_id_to_string_def eventstore_retention_def sample_stream_def)
  have tail: "read_tail sample_table ?T = Some (0, h)"
    by (simp add: read_tail_def sample_rows h_def) (simp add: sample_table_def)
  have ser: "validate_and_serialize sample_env (ae_events batch) = Inr [data]"
    by (simp add: batch_def seal_batch_def sample_env_def stored_payload_envelope_def reshape_to_envelope_def sample_type_def
        data_def max_event_json_bytes_def sample_ser_def Let_def sample_body_def tombstone_of_def)
  have sid: "batch_sid sample_env batch = retention_sid sample_env" by (simp add: batch_def)
  have "tail_state sample_env sample_table (retention_sid sample_env) = (- 1, genesis_hash sample_sha)"
    using neq by (simp add: tail_state_def read_tail_def sample_rows) (simp add: sample_env_def)
  moreover have "append_loop sample_env (\<lambda>_. None) 0 batch 0 (- 1) (genesis_hash sample_sha) [] sample_table
      [(hd (ae_events batch), data)] = (Inr \<lparr>ar_stream_position = 0, ar_global_positions = [2]\<rparr>, tab1)"
    unfolding append_loop_Cons insert_event_Inr row_def [symmetric] using neq sid
    by (simp add: sample_table_def tab1_def row_def) (simp add: sample_batch_def batch_def seal_batch_def)
  ultimately have app: "append_with_conn sample_env None (\<lambda>_. None) 0 sample_table sample_table batch [data] =
      (Inr \<lparr>ar_stream_position = 0, ar_global_positions = [2]\<rparr>, tab1)"
    unfolding append_with_conn_Inr sid by (simp add: batch_def seal_batch_def expects_def)
  define tab2 where "tab2 = tab1\<lparr>et_rows := [\<lparr>er_chain = row, er_global_position = 2, er_stored_at = 0\<rparr>]\<rparr>"
  have "delete_stream_rows tab1 ?T 0 = (1, tab2)"
    using neq sid
    by (simp add: delete_stream_rows_def tab2_def tab1_def row_def sample_table_def position_of_def sample_batch_def)
  then have "delete_stream sample_env no_faults 0 ?ids sample_table sample_table sample_table sample_stream
      \<lparr>sa_final_stream_position = 0\<rparr> = (Inr Sealed, tab2)"
    using tail ser app
    by (simp add: delete_stream_def seal_and_remove_def stream_id_to_columns_def no_faults_def batch_def [symmetric])
  then show ?thesis
    using sid by (simp add: sealed_table_def tab2_def tab1_def row_def) (simp add: batch_def seal_batch_def)
qed

lemmas sample_seal = conjunct1 [OF sample_sealed]

lemma sealed_late_append:
  "is_ok (fst (store_append sample_env no_faults 0 sample_table sealed_table (sample_batch 9 (Exact 0))))"
proof -
  let ?batch = "sample_batch 9 (Exact 0)"
  have sid: "batch_sid sample_env ?batch = target_sid sample_env sample_stream" by (simp add: sample_batch_def)
  have neq: "retention_sid sample_env \<noteq> target_sid sample_env sample_stream"
    by (simp add: stream_id_to_string_def eventstore_retention_def sample_stream_def)
  obtain row where "et_rows sealed_table = [row]" "cr_event_id (er_chain row) = 2" "cr_stream_id (er_chain row) = retention_sid sample_env"
    using conjunct2 [OF sample_sealed] by auto
  then have un: "unclaimed (et_rows sealed_table) (written sample_env ?batch 0 pos prev g
      [(\<lparr>eta_event_id = 9, eta_event = Plain\<rparr>, sample_payload)])" for pos prev g
    using neq sid by (simp add: unclaimed_def written_Cons)
  have "read_tail sample_table (target_sid sample_env sample_stream) = Some (0, cr_stored_hash (er_chain (hd (et_rows sample_table))))"
    by (simp add: read_tail_def sample_rows) (simp add: sample_table_def)
  then have "expects (ae_expected_version ?batch) (fst (tail_state sample_env sample_table (batch_sid sample_env ?batch)))"
    unfolding sid by (simp add: tail_state_def expects_def sample_batch_def)
  then show ?thesis
    using append_no_faults [OF sample_serialized, of 9 "Exact 0" sample_table 0 sealed_table]
      append_loop_fresh [of "\<lambda>_. None", OF _ un]
    by (simp add: sample_batch_def)
qed

lemma append_length:
  assumes "store_append env faults now snap tab batch = (res, tab')"
  shows "length (et_rows tab') \<le> length (et_rows tab) + length (ae_events batch)"
proof (cases res)
  case (Inl e)
  then show ?thesis using assms append_Inl by fastforce
next
  case (Inr r)
  then show ?thesis
    using assms unfolding Inr append_Inr append_with_conn_Inr by (auto dest!: append_loop_Inr)
qed

section \<open>Properties\<close>

text \<open>
  C10. Appends are optimistic and atomic. The store is in any state that appends and seals, interleaved
  in any way, can have left it in; the append read the tail of its stream in any earlier state, and
  neither it nor an earlier operation on this stream straddled a seal of the stream. If it fails, or
  the batch is empty, the rows are unchanged. If it succeeds with a batch that is not, nobody appended to the
  stream in between, the expected version held, the event ids were new and distinct, and the rows added
  are exactly the events of the batch, in order, at the end of the stream, with the positions reported.
  A batch that does not validate is refused with its error. Without database faults, in a table with room,
  a valid batch that is not empty succeeds exactly when the stream has not moved, the version is the expected
  one and the ids are new and distinct; otherwise the answer is a conflict. It is assumed that no stored
  hash is the genesis sentinel, that positions fit in 63 bits, and that the payload column keeps values up to
  key order.
\<close>

theorem append_is_optimistic:
  assumes "racing_history env hs hit" and "\<forall>tab\<in>fst ` set hs. no_genesis_hash env tab"
    and "hs = newer @ (snap, l) # older" and "sid \<notin> hit" and "\<not> sealed_since newer sid"
    and "tab = fst (hd hs)" and "sid = batch_sid env batch"
    and "store_append env faults now snap tab batch = (res, tab')" and "fits tab'"
  defines "admissible \<equiv> stream_rows snap sid = stream_rows tab sid \<and>
      expects (ae_expected_version batch) (of_nat (length (stream_rows tab sid)) - 1) \<and>
      distinct (map eta_event_id (ae_events batch)) \<and>
      eta_event_id ` set (ae_events batch) \<inter> (\<lambda>r. cr_event_id (er_chain r)) ` set (et_rows tab) = {}"
  shows "(\<not> is_ok res \<or> ae_events batch = [] \<longrightarrow> et_rows tab' = et_rows tab) \<and>
    (\<forall>r. res = Inr r \<and> ae_events batch \<noteq> [] \<longrightarrow>
       admissible \<and>
       (\<exists>new. et_rows tab' = et_rows tab @ new \<and> stream_rows tab' sid = stream_rows tab sid @ new \<and>
          map (\<lambda>r. cr_event_id (er_chain r)) new = map eta_event_id (ae_events batch) \<and>
          map (\<lambda>r. cr_event_data (er_chain r)) new =
            map (\<lambda>e. se_jsonb env (stored_payload_envelope env (eta_event e))) (ae_events batch) \<and>
          ar_stream_position r = of_nat (length (stream_rows tab' sid)) - 1 \<and>
          ar_global_positions r = map (\<lambda>r. word_of_int (er_global_position r)) new)) \<and>
    (\<forall>e. validate_and_serialize env (ae_events batch) = Inl e \<longrightarrow> res = Inl e) \<and>
    (faults = no_faults \<and> is_ok (validate_and_serialize env (ae_events batch)) \<and> ae_events batch \<noteq> [] \<and>
     length (et_rows tab) + length (ae_events batch) < 2 ^ 63 \<longrightarrow>
       (if admissible then is_ok res else \<exists>m. res = Inl (Conflict m)))"
proof (intro conjI allI impI)
  note facts = racing_state [OF assms(1-5), folded assms(6)]
  have res: "fst (store_append env faults now snap tab batch) = res" using assms(8) by simp
  show "et_rows tab' = et_rows tab" if "\<not> is_ok res \<or> ae_events batch = []"
    using assms(8) that append_Inl [of env faults now snap tab batch] append_nothing [OF assms(8)] by (cases res) auto
  have adm: admissible if "res = Inr r" "ae_events batch \<noteq> []" for r
    unfolding admissible_def
    using append_succeeded(1,2) [OF assms(8) [unfolded that(1)] assms(7) facts assms(9) that(2)]
      append_event_ids [OF assms(8) [unfolded that(1)]] by blast
  then show admissible if "res = Inr r \<and> ae_events batch \<noteq> []" for r using that by blast
  show "\<exists>new. et_rows tab' = et_rows tab @ new \<and> stream_rows tab' sid = stream_rows tab sid @ new \<and>
      map (\<lambda>r. cr_event_id (er_chain r)) new = map eta_event_id (ae_events batch) \<and>
      map (\<lambda>r. cr_event_data (er_chain r)) new =
        map (\<lambda>e. se_jsonb env (stored_payload_envelope env (eta_event e))) (ae_events batch) \<and>
      ar_stream_position r = of_nat (length (stream_rows tab' sid)) - 1 \<and>
      ar_global_positions r = map (\<lambda>r. word_of_int (er_global_position r)) new" if "res = Inr r \<and> ae_events batch \<noteq> []" for r
    using append_succeeded(3) [OF assms(8) [unfolded conjunct1 [OF that]] assms(7) facts assms(9) conjunct2 [OF that]] .
  show "res = Inl e" if "validate_and_serialize env (ae_events batch) = Inl e" for e
    using res that by (simp add: store_append_def)
  assume free: "faults = no_faults \<and> is_ok (validate_and_serialize env (ae_events batch)) \<and> ae_events batch \<noteq> [] \<and>
      length (et_rows tab) + length (ae_events batch) < 2 ^ 63"
  then obtain serialized where ser: "validate_and_serialize env (ae_events batch) = Inr serialized" by (auto simp: is_ok_iff)
  have "is_ok res" if admissible
    using fresh_append_succeeds [OF ser assms(7) facts(2), of snap now] that res free by (simp add: admissible_def)
  moreover have "\<exists>m. res = Inl (Conflict m)" if "\<not> admissible"
    using append_no_faults_outcome [OF ser, of now snap tab] adm that res free by (auto simp: is_ok_iff)
  ultimately show "if admissible then is_ok res else \<exists>m. res = Inl (Conflict m)" by simp
qed

theorem append_is_optimistic_witness:
  "is_ok (fst (store_append sample_env no_faults 0 empty_table empty_table (sample_batch 1 NoStream))) \<and>
   (\<exists>m. fst (store_append sample_env no_faults 0 empty_table sample_table (sample_batch 9 NoStream)) = Inl (Conflict m))"
proof
  show "is_ok (fst (store_append sample_env no_faults 0 empty_table empty_table (sample_batch 1 NoStream)))"
    by (simp add: sample_append)
  obtain res tab' where r: "store_append sample_env no_faults 0 empty_table sample_table (sample_batch 9 NoStream) = (res, tab')"
    by (cases "store_append sample_env no_faults 0 empty_table sample_table (sample_batch 9 NoStream)")
  have moved: "stream_rows empty_table (batch_sid sample_env (sample_batch 9 NoStream)) \<noteq>
      stream_rows sample_table (batch_sid sample_env (sample_batch 9 NoStream))"
    by (simp add: sample_rows sample_batch_def) (simp add: sample_table_def)
  have "fits tab'" using append_length [OF r] by (simp add: fits_def sample_table_def sample_batch_def)
  with append_is_optimistic [OF store_history_races [OF sample_history] sample_states_no_genesis,
      where newer = "[(sample_table, None)]" and
      snap = empty_table and l = None and older = "[]" and batch = "sample_batch 9 NoStream" and faults = no_faults and
      now = 0 and tab = sample_table and res = res and tab' = tab' and sid = "batch_sid sample_env (sample_batch 9 NoStream)"]
    moved r
  show "\<exists>m. fst (store_append sample_env no_faults 0 empty_table sample_table (sample_batch 9 NoStream)) = Inl (Conflict m)"
    by (simp add: sealed_since_def sample_serialized) (simp add: sample_batch_def sample_table_def)
qed

text \<open>
  C11. Streams verify, in every state that appends and seals, interleaved in any way, can leave the store in,
  and for every stream that no append and no seal straddling a seal of that stream was run on. The paged read of
  the verifier returns the rows of the stream in order of position, and the walk over them accepts with the
  position and hash of the tail the append path reads, or with the genesis sentinel for a stream
  without rows. The hypotheses: no stored hash is the genesis sentinel, and (in the history) the table
  has room and the payload column keeps what is written to it up to key order.
\<close>

theorem store_chains_verify:
  assumes "racing_history env hs hit" and "\<forall>tab\<in>fst ` set hs. no_genesis_hash env tab" and "tab \<in> fst ` set hs"
    and "sid \<notin> hit"
  shows "read_stream_chain tab sid = map er_chain (stream_rows tab sid) \<and>
    verify_stream_chain (se_sha env) (se_ser env) (views (read_stream_chain tab sid)) =
      (case read_tail tab sid of
         None \<Rightarrow> ChainOk (genesis_hash (se_sha env)) (- 1)
       | Some (position, hash) \<Rightarrow> ChainOk hash position)"
proof -
  note facts = racing_facts(1,2) [OF racing_history_ok [OF assms(1,2)] assms(3)]
  have l: "linked env (stream_chain tab sid)" and "length (stream_rows tab sid) < 2 ^ 63"
    using facts(1) facts(2) [OF assms(4)] length_stream_rows [of tab sid] by (simp_all add: fits_def)
  then have read: "read_stream_chain tab sid = stream_chain tab sid"
    by (intro read_stream_chain_eq [of 0] linked_numbered)
  have "verify_stream_chain (se_sha env) (se_ser env) (views (stream_chain tab sid)) =
      ChainOk (snd (tail_state env tab sid)) (fst (tail_state env tab sid))"
    using l by (simp add: verify_iff_well_linked tail_of_linked linked_def)
  then show ?thesis
    by (simp add: read tail_state_def split: option.split prod.split) (simp add: stream_chain_def)
qed

theorem store_chains_verify_witness:
  "verify_stream_chain sample_sha sample_ser (views (read_stream_chain sample_table (target_sid sample_env sample_stream))) =
   ChainOk (cr_stored_hash (er_chain (hd (et_rows sample_table)))) 0"
proof -
  have "read_tail sample_table (target_sid sample_env sample_stream) = Some (0, cr_stored_hash (er_chain (hd (et_rows sample_table))))"
    by (simp add: read_tail_def sample_rows) (simp add: sample_table_def)
  then show ?thesis
    using conjunct2 [OF store_chains_verify [OF store_history_races [OF sample_history] sample_states_no_genesis, of sample_table
        "target_sid sample_env sample_stream"]]
    by (simp add: sample_env_def)
qed

text \<open>
  C12. A seal removes exactly what its tombstone records. Unless it reports the stream sealed, a seal
  leaves every row in place. If it does, the stream was at the position the caller proved, is not the
  stream of tombstones itself, and is now empty; every other stream is untouched, except that the
  stream of tombstones has one more row, whose payload names the stream, its category, the position
  and hash of its last row and the number of its rows.
\<close>

theorem seal_removes_what_it_records:
  assumes "store_history env hs" and "\<forall>tab\<in>fst ` set hs. no_genesis_hash env tab"
    and "hs = newer @ (snap, l) # older" and "\<not> sealed_since newer (target_sid env stream)"
    and "audit_snap \<in> fst ` set hs" and "tab = fst (hd hs)" and "sid = target_sid env stream"
    and "delete_stream env faults now ids snap audit_snap tab stream authority = (res, tab')"
  shows "(res \<noteq> Inr Sealed \<longrightarrow> et_rows tab' = et_rows tab) \<and>
    (res = Inr Sealed \<longrightarrow>
       sid \<noteq> retention_sid env \<and> stream_rows tab sid \<noteq> [] \<and> stream_rows tab' sid = [] \<and>
       sa_final_stream_position authority = of_nat (length (stream_rows tab sid)) - 1 \<and>
       (\<forall>other. other \<noteq> sid \<and> other \<noteq> retention_sid env \<longrightarrow> stream_rows tab' other = stream_rows tab other) \<and>
       (\<exists>row. stream_rows tab' (retention_sid env) = stream_rows tab (retention_sid env) @ [row] \<and>
          cr_event_data (er_chain row) = se_jsonb env (stored_payload_envelope env (se_stream_sealed env
            \<lparr>ss_sealed_stream_id = sid, ss_sealed_stream_category = category_column (si_category stream),
             ss_final_stream_position = cr_stream_position (er_chain (last (stream_rows tab sid))),
             ss_final_event_hash = cr_stored_hash (er_chain (last (stream_rows tab sid))),
             ss_event_count = of_nat (length (stream_rows tab sid)), ss_retention_policy_id = 0, ss_actor_id = None\<rparr>))))"
proof (intro conjI impI)
  show "et_rows tab' = et_rows tab" if "res \<noteq> Inr Sealed"
    using assms(8) that unfolding delete_stream_def by (rule seal_other)
  assume sealed: "res = Inr Sealed"
  have ok: "history_ok env hs" using assms(1,2) by (rule store_history_ok)
  note facts = history_facts [OF assms(1-4), folded assms(6)]
  have audit: "linked env (stream_chain audit_snap (retention_sid env))"
    "prefix (stream_rows audit_snap (retention_sid env)) (stream_rows tab (retention_sid env))"
    using history_tables(1) [OF ok assms(5)] history_retention_prefix [OF ok assms(5)] assms(6)
    by (simp_all add: streams_linked_def)
  note effect = seal_effect [OF assms(8) [unfolded delete_stream_def sealed] facts(1) audit(1) facts(2) audit(2) facts(4,3),
      folded assms(7)]
  show "sid \<noteq> retention_sid env" "stream_rows tab sid \<noteq> []" "stream_rows tab' sid = []"
    "sa_final_stream_position authority = of_nat (length (stream_rows tab sid)) - 1"
    using effect(1,2,3,6) by (simp_all add: stream_chain_length)
  show "\<forall>other. other \<noteq> sid \<and> other \<noteq> retention_sid env \<longrightarrow> stream_rows tab' other = stream_rows tab other"
    using effect(7) by blast
  have last: "of_nat (length (stream_rows tab sid)) - 1 = cr_stream_position (er_chain (last (stream_rows tab sid)))"
    "head_of (se_sha env) (views (stream_chain tab sid)) = cr_stored_hash (er_chain (last (stream_rows tab sid)))"
    using tail_of_linked [OF facts(2), of sid] effect(2)
    by (simp_all add: tail_state_def read_tail_def stream_chain_length Let_def)
  define t where "t = tombstone_of sid (category_column (si_category stream)) (of_nat (length (stream_rows tab sid)) - 1)
    (head_of (se_sha env) (views (stream_chain tab sid)))"
  obtain row where "stream_rows tab' (retention_sid env) = stream_rows tab (retention_sid env) @ [row]"
      "cr_event_data (er_chain row) = se_jsonb env (stored_payload_envelope env (se_stream_sealed env t))"
    using effect(5) seal_rows_data [of env ids now tab t] by (auto simp: t_def stream_chain_length)
  moreover have "t = \<lparr>ss_sealed_stream_id = sid, ss_sealed_stream_category = category_column (si_category stream),
      ss_final_stream_position = cr_stream_position (er_chain (last (stream_rows tab sid))),
      ss_final_event_hash = cr_stored_hash (er_chain (last (stream_rows tab sid))),
      ss_event_count = of_nat (length (stream_rows tab sid)), ss_retention_policy_id = 0, ss_actor_id = None\<rparr>"
    by (simp add: t_def tombstone_of_def last(2) last(1) [symmetric])
  ultimately show "\<exists>row. stream_rows tab' (retention_sid env) = stream_rows tab (retention_sid env) @ [row] \<and>
          cr_event_data (er_chain row) = se_jsonb env (stored_payload_envelope env (se_stream_sealed env
            \<lparr>ss_sealed_stream_id = sid, ss_sealed_stream_category = category_column (si_category stream),
             ss_final_stream_position = cr_stream_position (er_chain (last (stream_rows tab sid))),
             ss_final_event_hash = cr_stored_hash (er_chain (last (stream_rows tab sid))),
             ss_event_count = of_nat (length (stream_rows tab sid)), ss_retention_policy_id = 0, ss_actor_id = None\<rparr>))"
    by auto
qed

theorem seal_removes_what_it_records_witness:
  "stream_rows sealed_table (target_sid sample_env sample_stream) = [] \<and>
   (\<exists>row. stream_rows sealed_table (retention_sid sample_env) = [row])"
proof -
  have "retention_sid sample_env \<noteq> target_sid sample_env sample_stream"
    by (simp add: stream_id_to_string_def eventstore_retention_def sample_stream_def)
  then show ?thesis
    using seal_removes_what_it_records [OF sample_history sample_states_no_genesis, where newer = "[]" and snap = sample_table and
        l = None and older = "[(empty_table, None)]" and tab = sample_table, OF _ _ _ _ refl sample_seal]
    by (auto simp: sealed_since_def sample_rows)
qed

text \<open>
  C40. An append that read its tail before a seal and writes after it breaks the chain. It continues the
  positions of the removed rows, and the verifier reports a gap at its first row, not a sealed
  stream followed by live events.
\<close>

theorem late_append_breaks_chain:
  assumes "store_history env hs" and "\<forall>tab\<in>fst ` set hs. no_genesis_hash env tab"
    and "hs = newer @ (snap, l) # older" and "\<not> sealed_since newer (target_sid env stream)"
    and "audit_snap \<in> fst ` set hs" and "tab = fst (hd hs)" and "sid = target_sid env stream"
    and "delete_stream env faults now ids snap audit_snap tab stream authority = (Inr Sealed, sealed_tab)"
    and "store_append env faults' now' tab sealed_tab batch = (Inr r, tab')" and "ae_stream_id batch = stream"
    and "ae_events batch \<noteq> []" and "length (stream_rows tab sid) + length (ae_events batch) < 2 ^ 63"
  shows "verify_stream_chain (se_sha env) (se_ser env) (views (read_stream_chain tab' sid)) =
    ChainBroken (of_nat (length (stream_rows tab sid))) PositionGap"
proof -
  have ok: "history_ok env hs" using assms(1,2) by (rule store_history_ok)
  note facts = history_facts [OF assms(1-4), folded assms(6)]
  have audit: "linked env (stream_chain audit_snap (retention_sid env))"
    "prefix (stream_rows audit_snap (retention_sid env)) (stream_rows tab (retention_sid env))"
    using history_tables(1) [OF ok assms(5)] history_retention_prefix [OF ok assms(5)] assms(6)
    by (simp_all add: streams_linked_def)
  note effect = seal_effect [OF assms(8) [unfolded delete_stream_def] facts(1) audit(1) facts(2) audit(2) facts(4,3),
      folded assms(7)]
  let ?n = "length (stream_rows tab sid)"
  have sid: "sid = batch_sid env batch" using assms(7,10) by simp
  have num: "numbered_from ?n (stream_rows tab' sid)" "length (stream_rows tab' sid) = length (ae_events batch)"
    using late_append_rows [OF assms(9) sid facts(2) effect(6) assms(12)] by simp_all
  obtain row rows where rows: "stream_rows tab' sid = row # rows" using num(2) assms(11) by (cases "stream_rows tab' sid") auto
  have "sint (cr_stream_position (er_chain row)) = sint (of_nat ?n :: u64)"
    using num(1) assms(12) by (auto simp: rows numbered_from_def position_of_def sint_of_nat64)
  then have "cr_stream_position (er_chain row) = of_nat ?n" by (rule signed_word_eqI)
  moreover have "(of_nat ?n :: u64) \<noteq> 0"
    using of_nat64_inj [of ?n 0] effect(2) assms(12) by auto
  ultimately show ?thesis
    using walk_first_gap [of "as_stream_row (er_chain row)"]
    by (simp add: read_stream_chain_eq [OF num(1)] stream_chain_def rows)
qed

theorem late_append_breaks_chain_witness:
  "\<exists>r tab'. store_append sample_env no_faults 0 sample_table sealed_table (sample_batch 9 (Exact 0)) = (Inr r, tab') \<and>
     verify_stream_chain sample_sha sample_ser (views (read_stream_chain tab' (target_sid sample_env sample_stream))) =
       ChainBroken 1 PositionGap"
proof -
  obtain r tab' where app: "store_append sample_env no_faults 0 sample_table sealed_table (sample_batch 9 (Exact 0)) = (Inr r, tab')"
    using sealed_late_append by (metis is_ok_iff prod.collapse)
  have "length (stream_rows sample_table (target_sid sample_env sample_stream)) = 1"
    by (simp add: sample_rows) (simp add: sample_table_def)
  with app show ?thesis
    using late_append_breaks_chain [OF sample_history sample_states_no_genesis, where newer = "[]" and snap = sample_table and
        l = None and older = "[(empty_table, None)]" and tab = sample_table, OF _ _ _ _ refl sample_seal app]
    by (simp add: sealed_since_def sample_batch_def sample_env_def)
qed

end
