(* ===== verification/Event_Reads.thy ===== *)
theory Event_Reads
  imports Event_Store_Guarantees
begin

text \<open>
  The reads that merge several categories. The Postgres adapter overrides the default body of the
  port (\<^verbatim>\<open>ports/event_store.rs\<close>) with one statement (\<^verbatim>\<open>merged_category_read.rs\<close>); both return
  the first events, in global order, of the union of the categories.
\<close>

section \<open>The first elements of a sorted union\<close>

lemma take_insort: "take n (insort_key f x (take n s)) = take n (insort_key f x s)"
proof (induction s arbitrary: n)
  case (Cons y s)
  then show ?case by (cases n) (auto simp: take_Cons')
qed simp

lemma take_foldr_insort: "take n s = take n t \<Longrightarrow> take n (foldr (insort_key f) ys s) = take n (foldr (insort_key f) ys t)"
  by (induction ys) (simp_all, metis take_insort)

lemma take_sort_right: "take n (sort_key f (ys @ take n (sort_key f zs))) = take n (sort_key f (ys @ zs))"
proof -
  have "sort_key f (take n (sort_key f zs)) = take n (sort_key f zs)"
    by (rule sort_key_id_if_sorted) (simp add: sorted_wrt_take flip: take_map)
  then show ?thesis
    using take_foldr_insort [of n "take n (sort_key f zs)" "sort_key f zs" f ys]
    by (simp add: sort_key_def)
qed

lemma take_sort_left:
  assumes "inj_on f (set xs \<union> set zs)"
  shows "take n (sort_key f (take n (sort_key f xs) @ zs)) = take n (sort_key f (xs @ zs))"
proof -
  have swap: "sort_key f (a @ zs) = sort_key f (zs @ a)" if "set a \<subseteq> set xs" for a
    using that assms by (intro sort_key_inj_key_eq) (auto intro: inj_on_subset)
  have "set (take n (sort_key f xs)) \<subseteq> set xs" using set_take_subset [of n "sort_key f xs"] by simp
  then show ?thesis using swap [of xs] swap [of "take n (sort_key f xs)"] by (simp add: take_sort_right)
qed

lemma take_sort_concat:
  assumes "inj_on f (\<Union>x\<in>set ls. set (arm x))"
  shows "take n (sort_key f (concat (map (\<lambda>x. take n (sort_key f (arm x))) ls))) = take n (sort_key f (concat (map arm ls)))"
  using assms
proof (induction ls)
  case (Cons l ls)
  let ?pages = "concat (map (\<lambda>x. take n (sort_key f (arm x))) ls)"
  have sub: "set ?pages \<subseteq> (\<Union>x\<in>set ls. set (arm x))" using set_take_subset by fastforce
  have IH: "take n (sort_key f ?pages) = take n (sort_key f (concat (map arm ls)))"
    using Cons.prems by (intro Cons.IH) (auto intro: inj_on_subset)
  have "take n (sort_key f (take n (sort_key f (arm l)) @ ?pages)) = take n (sort_key f (arm l @ ?pages))"
    using Cons.prems sub by (intro take_sort_left) (auto intro: inj_on_subset)
  also have "\<dots> = take n (sort_key f (arm l @ take n (sort_key f ?pages)))" by (simp add: take_sort_right)
  also have "\<dots> = take n (sort_key f (arm l @ concat (map arm ls)))" unfolding IH by (simp add: take_sort_right)
  finally show ?case by simp
qed simp

lemma mset_arms:
  "distinct ls \<Longrightarrow> mset (concat (map (\<lambda>x. filter (\<lambda>r. c r = x \<and> Q r) rows) ls)) = mset (filter (\<lambda>r. c r \<in> set ls \<and> Q r) rows)"
proof (induction ls)
  case (Cons l ls)
  have "mset (filter (\<lambda>r. c r = l \<and> Q r) rows) + mset (filter (\<lambda>r. c r \<in> set ls \<and> Q r) rows) =
      mset (filter (\<lambda>r. c r \<in> set (l # ls) \<and> Q r) rows)"
    using Cons.prems by (induction rows) auto
  then show ?case using Cons by simp
qed simp

lemma insort_key_map: "insort_key k (d x) (map d xs) = map d (insort_key (\<lambda>y. k (d y)) x xs)"
  by (induction xs) auto

lemma sort_key_map: "sort_key k (map d xs) = map d (sort_key (\<lambda>y. k (d y)) xs)"
  by (induction xs) (simp_all add: insort_key_map)

lemma sort_key_order:
  assumes "\<And>x y. x \<in> set xs \<Longrightarrow> y \<in> set xs \<Longrightarrow> k x \<le> k y \<longleftrightarrow> l x \<le> l y"
  shows "sort_key k xs = sort_key l xs"
  using assms
proof (induction xs)
  case (Cons x xs)
  have "insort_key k x ys = insort_key l x ys" if "set ys \<subseteq> set xs" for ys
    using that Cons.prems by (induction ys) auto
  then show ?case using Cons by simp
qed simp

section \<open>Global positions\<close>

text \<open>The sequence numbers rows from one, without repeats.\<close>

definition globally_numbered :: "event_table \<Rightarrow> bool" where
  "globally_numbered tab \<longleftrightarrow>
     0 \<le> et_sequence tab \<and> distinct (map er_global_position (et_rows tab)) \<and>
     (\<forall>r\<in>set (et_rows tab). 0 < er_global_position r \<and> er_global_position r \<le> et_sequence tab)"

lemma insert_event_numbered:
  "globally_numbered tab \<Longrightarrow> globally_numbered (snd (insert_event now tab row)) \<and> et_sequence tab \<le> et_sequence (snd (insert_event now tab row))"
  by (force simp: globally_numbered_def insert_event_def Let_def)

lemma append_loop_numbered:
  "globally_numbered tab \<Longrightarrow> globally_numbered (snd (append_loop env fault now batch i pos prev gps tab items)) \<and>
     et_sequence tab \<le> et_sequence (snd (append_loop env fault now batch i pos prev gps tab items))"
proof (induction items arbitrary: i pos prev gps tab)
  case (Cons item items)
  obtain r1 tab1 where ins: "insert_event now tab (next_row env batch pos prev item) = (r1, tab1)"
    by (cases "insert_event now tab (next_row env batch pos prev item)")
  then have "globally_numbered tab1" "et_sequence tab \<le> et_sequence tab1"
    using insert_event_numbered [OF Cons.prems, of now "next_row env batch pos prev item"] by simp_all
  then show ?case
    using Cons.prems Cons.IH [of tab1 "i + 1" "pos + 1"]
    by (cases "fault i"; cases r1) (auto simp: append_loop_step ins intro: order_trans)
qed simp

lemma rolled_back_numbered:
  "globally_numbered tab \<Longrightarrow> et_sequence tab \<le> et_sequence tab' \<Longrightarrow> globally_numbered (rolled_back tab tab')"
  by (force simp: globally_numbered_def rolled_back_def)

lemma append_with_conn_cases:
  "append_with_conn env tf fault now snap tab batch serialized = (res, tab') \<Longrightarrow>
   tab' = tab \<or> (\<exists>pos prev. append_loop env fault now batch 0 pos prev [] tab (zip (ae_events batch) serialized) = (res, tab'))"
  by (auto simp: append_with_conn_def Let_def split: option.splits prod.splits expected_version.splits if_splits)

lemma append_with_conn_numbered:
  assumes "globally_numbered tab" and "append_with_conn env tf fault now snap tab batch serialized = (res, tab')"
  shows "globally_numbered tab'" and "et_sequence tab \<le> et_sequence tab'"
proof -
  have "globally_numbered tab' \<and> et_sequence tab \<le> et_sequence tab'"
    using append_with_conn_cases [OF assms(2)] assms(1) append_loop_numbered [OF assms(1)] by (metis order_refl snd_conv)
  then show "globally_numbered tab'" and "et_sequence tab \<le> et_sequence tab'" by simp_all
qed

lemma store_append_numbered:
  "globally_numbered tab \<Longrightarrow> store_append env faults now snap tab batch = (res, tab') \<Longrightarrow> globally_numbered tab'"
  by (auto simp: store_append_def intro: rolled_back_numbered append_with_conn_numbered
      dest: append_with_conn_numbered split: sum.splits option.splits prod.splits)

lemma delete_rows_numbered: "globally_numbered tab \<Longrightarrow> globally_numbered (snd (delete_stream_rows tab sid final))"
  by (auto simp: globally_numbered_def delete_stream_rows_def distinct_map_filter)

lemma seal_numbered:
  assumes "globally_numbered tab" and "seal_and_remove env faults now ids snap audit_snap tab stream authority = (res, tab')"
  shows "globally_numbered tab'"
proof (cases "res = Inr Sealed")
  case True
  show ?thesis
  proof (rule seal_Sealed [OF assms(2) [unfolded True]])
    fix final h serialized r tab1 n
    assume app: "append_with_conn env (df_append_tail faults) (df_insert faults) now audit_snap tab
        (seal_batch env ids (tombstone_of (target_sid env stream) (category_column (si_category stream)) final h)) serialized
        = (Inr r, tab1)"
      and del: "delete_stream_rows tab1 (target_sid env stream) final = (n, tab')"
    show ?thesis
      using delete_rows_numbered [OF append_with_conn_numbered(1) [OF assms(1) app], of "target_sid env stream" final] del by simp
  qed
next
  case False
  then show ?thesis
    using assms(2) rolled_back_numbered [OF assms(1)] assms(1)
    by (auto simp: seal_and_remove_def Let_def dest!: append_with_conn_numbered [OF assms(1)]
        split: option.splits prod.splits sum.splits if_splits)
qed

lemma history_numbered: "store_history env hs \<Longrightarrow> \<forall>tab\<in>fst ` set hs. globally_numbered tab"
proof (induction rule: store_history.induct)
  case start
  show ?case by (simp add: globally_numbered_def empty_table_def)
next
  case (append_step hs newer snap l older batch faults now res tab')
  then have "globally_numbered (fst (hd hs))" by (cases newer) auto
  then show ?case using append_step.IH store_append_numbered [OF _ append_step.hyps(5)] by simp
next
  case (seal_step hs newer snap l older stream audit_snap faults now ids authority res tab')
  then have "globally_numbered (fst (hd hs))" by (cases newer) auto
  then show ?case using seal_step.IH seal_numbered [OF _ seal_step.hyps(6) [unfolded delete_stream_def]] by simp
qed

section \<open>Both merged reads\<close>

lemma limited_Inr: "0 \<le> sint n \<Longrightarrow> limited n xs = Inr (take (unat n) xs)"
proof -
  assume "0 \<le> sint n"
  then have "sint n = uint n"
    using uint_sint [of n] sint_lt [of n] by (simp add: take_bit_int_eq_self)
  then have "nat (sint n) = unat n" by (simp add: nat_uint_eq)
  with \<open>0 \<le> sint n\<close> show ?thesis by (simp add: limited_def Let_def)
qed

lemma collect_results_ok:
  "\<forall>x\<in>set xs. f x = Inr (d x) \<Longrightarrow> collect_results f xs = Inr (map d xs)"
  by (induction xs) auto

lemma merged_arms_ok:
  "0 \<le> sint n \<Longrightarrow> merged_arms tab labels after n = Inr (concat (map (\<lambda>l. take (unat n) (category_rows tab l after)) labels))"
  by (induction labels) (simp_all add: limited_Inr)

lemma push_new_props: "set (foldl push_new acc xs) = set acc \<union> set xs" "distinct acc \<Longrightarrow> distinct (foldl push_new acc xs)"
  by (induction xs arbitrary: acc) (auto simp: push_new_def)

definition page_of :: "event_table \<Rightarrow> stream_category list \<Rightarrow> subscribe_from \<Rightarrow> u64 \<Rightarrow> event_row list" where
  "page_of tab categories sf n =
     take (unat n) (sort_key er_global_position
       (filter (\<lambda>r. cr_stream_category (er_chain r) \<in> category_label ` set categories \<and> after_global sf < er_global_position r)
          (et_rows tab)))"

lemma merged_page:
  assumes "distinct (map er_global_position (et_rows tab))" and "distinct labels" and "set labels = category_label ` set categories"
  shows "take (unat n) (sort_key er_global_position
      (concat (map (\<lambda>l. take (unat n) (category_rows tab l (after_global sf))) labels))) = page_of tab categories sf n"
proof -
  let ?arm = "\<lambda>l. filter (\<lambda>r. cr_stream_category (er_chain r) = l \<and> after_global sf < er_global_position r) (et_rows tab)"
  have inj: "inj_on er_global_position (set (et_rows tab))" using assms(1) by (simp add: distinct_map)
  have "take (unat n) (sort_key er_global_position (concat (map (\<lambda>l. take (unat n) (category_rows tab l (after_global sf))) labels))) =
      take (unat n) (sort_key er_global_position (concat (map ?arm labels)))"
    unfolding category_rows_def by (rule take_sort_concat) (auto intro: inj_on_subset [OF inj])
  also have "sort_key er_global_position (concat (map ?arm labels)) =
      sort_key er_global_position (filter (\<lambda>r. cr_stream_category (er_chain r) \<in> set labels \<and> after_global sf < er_global_position r) (et_rows tab))"
    using mset_arms [OF assms(2), of "\<lambda>r. cr_stream_category (er_chain r)" "\<lambda>r. after_global sf < er_global_position r" "et_rows tab"]
    by (intro sort_key_inj_key_eq) (auto intro: inj_on_subset [OF inj])
  finally show ?thesis by (simp add: page_of_def assms(3))
qed

lemma set_page_of: "set (page_of tab categories sf n) \<subseteq> set (et_rows tab)"
  unfolding page_of_def by (rule order_trans [OF set_take_subset]) auto

lemma try_from_global: "try_from_row env r = Inr p \<Longrightarrow> pe_global_position p = word_of_int (er_global_position r)"
  by (auto simp: try_from_row_def Let_def split: sum.splits)

lemma word_of_int_le: "0 \<le> a \<Longrightarrow> a < 2 ^ 63 \<Longrightarrow> 0 \<le> b \<Longrightarrow> b < 2 ^ 63 \<Longrightarrow> (word_of_int a :: u64) \<le> word_of_int b \<longleftrightarrow> a \<le> b"
  by (simp add: word_le_def unsigned_of_int take_bit_int_eq_self)

lemma sort_decoded:
  assumes "\<forall>r\<in>set rows. try_from_row env r = Inr (d r) \<and> 0 < er_global_position r \<and> er_global_position r < 2 ^ 63"
  shows "sort_key pe_global_position (map d rows) = map d (sort_key er_global_position rows)"
proof -
  have "sort_key (\<lambda>r. pe_global_position (d r)) rows = sort_key er_global_position rows"
  proof (rule sort_key_order)
    fix x y
    assume "x \<in> set rows" "y \<in> set rows"
    then show "pe_global_position (d x) \<le> pe_global_position (d y) \<longleftrightarrow> er_global_position x \<le> er_global_position y"
      using assms try_from_global [of env x "d x"] try_from_global [of env y "d y"]
      by (simp add: word_of_int_le less_imp_le)
  qed
  then show ?thesis by (simp add: sort_key_map)
qed

lemma read_each_ok:
  assumes "\<forall>r\<in>set (et_rows tab). try_from_row env r = Inr (d r)" and "0 \<le> sint n"
  shows "read_each (\<lambda>cat. read_category env tab cat sf n) cats =
    Inr (map d (concat (map (\<lambda>l. take (unat n) (category_rows tab l (after_global sf))) (map category_label cats))))"
proof (induction cats)
  case (Cons c cats)
  have "\<forall>r\<in>set (take (unat n) (category_rows tab (category_label c) (after_global sf))). try_from_row env r = Inr (d r)"
    using assms(1) by (auto simp: category_rows_def dest!: in_set_takeD)
  then show ?case
    using Cons by (simp add: read_category_def limited_Inr [OF assms(2)] collect_results_ok)
qed simp

text \<open>
  C38. The two ways of reading several categories agree. On every state the store can reach whose rows
  decode, the merged statement of the Postgres adapter and the default body of the port, which merges
  one page per category, return the same page: the first events of the requested categories above
  the given global position, in global order, each category once.
\<close>

theorem category_reads_agree:
  assumes "store_history env hs" and "tab \<in> fst ` set hs" and "et_sequence tab < 2 ^ 63"
    and "\<forall>r\<in>set (et_rows tab). is_ok (try_from_row env r)" and "0 \<le> sint max_count"
  shows "read_categories env tab categories sf max_count =
      Inr (map (\<lambda>r. projr (try_from_row env r)) (page_of tab categories sf max_count)) \<and>
    read_categories_default (read_category env tab) categories sf max_count =
      Inr (map (\<lambda>r. projr (try_from_row env r)) (page_of tab categories sf max_count))"
proof
  define d where "d = (\<lambda>r. projr (try_from_row env r))"
  have dec: "\<forall>r\<in>set (et_rows tab). try_from_row env r = Inr (d r)"
    using assms(4) by (auto simp: d_def is_ok_iff)
  have num: "distinct (map er_global_position (et_rows tab))"
    "\<forall>r\<in>set (et_rows tab). 0 < er_global_position r \<and> er_global_position r < 2 ^ 63"
    using history_numbered [OF assms(1)] assms(2,3) by (force simp: globally_numbered_def)+
  have page: "\<forall>r\<in>set (page_of tab categories sf max_count). try_from_row env r = Inr (d r)"
    using dec set_page_of by blast
  define labels where "labels = sort (foldl push_new [] (map category_label categories))"
  have labels: "distinct labels" "set labels = category_label ` set categories"
    by (simp_all add: labels_def push_new_props)
  show "read_categories env tab categories sf max_count = Inr (map (\<lambda>r. projr (try_from_row env r)) (page_of tab categories sf max_count))"
  proof (cases "labels = []")
    case True
    then have "categories = []" using labels(2) by simp
    then show ?thesis by (simp add: read_categories_def page_of_def)
  next
    case False
    then show ?thesis
      unfolding d_def [symmetric]
      using merged_page [OF num(1) labels, of max_count sf] collect_results_ok [OF page]
      by (simp add: read_categories_def labels_def [symmetric] Let_def merged_arms_ok [OF assms(5)] limited_Inr [OF assms(5)])
  qed
  define cats where "cats = foldl push_new [] categories"
  have cats: "distinct (map category_label cats)" "set (map category_label cats) = category_label ` set categories"
    by (simp_all add: cats_def push_new_props distinct_map inj_on_def category_tables_agree category_display_inj)
  define merged where "merged = concat (map (\<lambda>l. take (unat max_count) (category_rows tab l (after_global sf))) (map category_label cats))"
  have "set merged \<subseteq> set (et_rows tab)"
    by (auto simp: merged_def category_rows_def dest!: in_set_takeD)
  then have "sort_key pe_global_position (map d merged) = map d (sort_key er_global_position merged)"
    using dec num(2) by (intro sort_decoded) blast
  then show "read_categories_default (read_category env tab) categories sf max_count =
      Inr (map (\<lambda>r. projr (try_from_row env r)) (page_of tab categories sf max_count))"
    unfolding d_def [symmetric] read_categories_default_def cats_def [symmetric]
      read_each_ok [OF dec assms(5), of sf cats, folded merged_def]
      merged_page [OF num(1) cats, of max_count sf, folded merged_def, symmetric]
    by (simp add: take_map)
qed

lemma sample_decodes:
  "\<exists>p. try_from_row sample_env (hd (et_rows sample_table)) = Inr p \<and> pe_event p = Plain"
proof -
  have "stream_id_from_str sample_uuid_parse (stream_id_to_string uuid_bytes sample_stream) = Inr sample_stream"
    by (simp add: stream_id_from_str_def split_stream_id sample_uuid_roundtrip)
  then show ?thesis
    by (simp add: sample_table_def try_from_row_def sample_env_def next_row_def Let_def row_to_insert_def chain_input_of_def
        stream_id_to_columns_def sample_batch_def row_actor_def timer_actor_def actor_from_columns_def from_persisted_def
        deserialize_event_data_def sample_payload_def json_get_def sample_from_value_def sample_type_def serde_key_for_event_type_def)
qed

theorem category_reads_agree_witness:
  "\<exists>ev. read_categories sample_env sample_table [CatArtifact, CatAdmin] SubscribeStart 10 = Inr [ev] \<and> pe_event ev = Plain"
proof -
  have rows: "et_rows sample_table = [hd (et_rows sample_table)]" by (simp add: sample_table_def)
  have "cr_stream_category (er_chain (hd (et_rows sample_table))) = ''artifact''" "er_global_position (hd (et_rows sample_table)) = 1"
    by (simp_all add: sample_table_def next_row_def Let_def row_to_insert_def chain_input_of_def stream_id_to_columns_def
        sample_batch_def sample_stream_def)
  then have "page_of sample_table [CatArtifact, CatAdmin] SubscribeStart 10 = [hd (et_rows sample_table)]"
    unfolding page_of_def by (subst rows) (simp add: after_global_def)
  moreover have "\<forall>r\<in>set (et_rows sample_table). is_ok (try_from_row sample_env r)"
    using sample_decodes by (subst rows) (auto simp: is_ok_iff)
  ultimately show ?thesis
    using category_reads_agree [OF sample_history, of sample_table 10 "[CatArtifact, CatAdmin]" SubscribeStart] sample_decodes
    by (auto simp: sample_table_def)
qed

end
