(* ===== verification/Event_Anchor.thy ===== *)
theory Event_Anchor
  imports Event_Store
begin

text \<open>
  Anchoring the event chain outside the database: the checkpoints and what the verifier checks against
  them (\<^verbatim>\<open>events/chain.rs\<close>), how a checkpoint is built and emitted (\<^verbatim>\<open>events/checkpoint_build.rs\<close>,
  \<^verbatim>\<open>event_chain_head_reader.rs\<close>, \<^verbatim>\<open>task_handlers/eventstore_checkpoint.rs\<close>), when anchoring is expected
  (\<^verbatim>\<open>event_chain_anchoring.rs\<close>) and the \<^verbatim>\<open>verify-event-chain\<close> command
  (\<^verbatim>\<open>hort-server/src/cli/verify_event_chain.rs\<close>).

  A \<^verbatim>\<open>std::time::Duration\<close> is its number of nanoseconds; chrono's conversion of one, which fails on
  values out of its range, is the argument \<open>from_std\<close>, and its largest value \<open>max_delta\<close>.
\<close>

section \<open>Checkpoints\<close>

record sealed_stream_record =
  rec_sealed_stream_id :: string
  rec_final_event_hash :: event_hash

record checkpoint =
  cp_chain_format_version :: string
  cp_checkpoint_seq :: u64
  cp_created_at :: timestamp
  cp_stream_heads :: "(string \<times> u64 \<times> event_hash) list"
  cp_sealed_streams :: "sealed_stream_record list"

text \<open>\<^verbatim>\<open>AnchoredPositionHashes\<close>: per stream and anchored position, the hash a walk recomputed there.\<close>

type_synonym anchored_hashes = "string \<Rightarrow> (u64 \<Rightarrow> event_hash option option) option"

definition seed_slot :: "anchored_hashes \<Rightarrow> string \<times> u64 \<times> event_hash \<Rightarrow> anchored_hashes" where
  "seed_slot by_stream statement =
     (case statement of (sid, pos, _) \<Rightarrow>
        (case by_stream sid of
           Some slots \<Rightarrow> by_stream(sid \<mapsto> (case slots pos of Some _ \<Rightarrow> slots | None \<Rightarrow> slots(pos \<mapsto> None)))
         | None \<Rightarrow> by_stream(sid \<mapsto> [pos \<mapsto> None])))"

definition from_checkpoints :: "checkpoint list \<Rightarrow> anchored_hashes" where
  "from_checkpoints checkpoints =
     foldl (\<lambda>by_stream cp. foldl seed_slot by_stream (cp_stream_heads cp)) (\<lambda>_. None) checkpoints"

definition observed_at :: "anchored_hashes \<Rightarrow> string \<Rightarrow> u64 \<Rightarrow> event_hash option" where
  "observed_at by_stream sid pos =
     (case by_stream sid of
        None \<Rightarrow> None
      | Some slots \<Rightarrow> (case slots pos of None \<Rightarrow> None | Some observed \<Rightarrow> observed))"

definition record_hash :: "u64 \<Rightarrow> event_hash \<Rightarrow> (u64 \<Rightarrow> event_hash option option) \<Rightarrow> (u64 \<Rightarrow> event_hash option option)" where
  "record_hash pos recomputed slots = (case slots pos of Some _ \<Rightarrow> slots(pos \<mapsto> Some recomputed) | None \<Rightarrow> slots)"

definition verify_stream_chain_observing ::
    "sha256 \<Rightarrow> to_vec \<Rightarrow> string \<Rightarrow> stream_row list \<Rightarrow> anchored_hashes \<Rightarrow> stream_verdict \<times> anchored_hashes" where
  "verify_stream_chain_observing sha ser sid rows anchored =
     (case anchored sid of
        None \<Rightarrow> (verify_stream_chain sha ser rows, anchored)
      | Some slots \<Rightarrow>
          (case walk_stream_chain sha ser record_hash slots rows of
             (verdict, slots') \<Rightarrow> (verdict, anchored(sid \<mapsto> slots'))))"

section \<open>The cross-check\<close>

datatype missing_reason = NoCheckpoint | SequenceGap | Stale
datatype anchor_break = HeadMismatch | UnsealedAbsentStream | SealUnanchored | DuplicateCheckpointSeq

record anchor_findings =
  af_breaks :: "anchor_break list"
  af_coverage_gaps :: "missing_reason list"

definition record_once :: "'x list \<Rightarrow> 'x \<Rightarrow> 'x list" where
  "record_once into value = (if value \<in> set into then into else into @ [value])"

definition record_break :: "anchor_break \<Rightarrow> anchor_findings \<Rightarrow> anchor_findings" where
  "record_break value f = f\<lparr>af_breaks := record_once (af_breaks f) value\<rparr>"

definition record_gap :: "missing_reason \<Rightarrow> anchor_findings \<Rightarrow> anchor_findings" where
  "record_gap value f = f\<lparr>af_coverage_gaps := record_once (af_coverage_gaps f) value\<rparr>"

text \<open>\<^verbatim>\<open>Iterator::max_by\<close>: the last of the greatest elements.\<close>

fun max_by :: "('x \<Rightarrow> 'x \<Rightarrow> bool) \<Rightarrow> 'x list \<Rightarrow> 'x option" where
  "max_by le [] = None"
| "max_by le (x # xs) = Some (foldl (\<lambda>best y. if le best y then y else best) x xs)"

definition checkpoint_le :: "checkpoint \<Rightarrow> checkpoint \<Rightarrow> bool" where
  "checkpoint_le a b \<longleftrightarrow>
     cp_checkpoint_seq a < cp_checkpoint_seq b \<or>
     cp_checkpoint_seq a = cp_checkpoint_seq b \<and> cp_created_at b \<le> cp_created_at a"

definition newest_checkpoint :: "checkpoint list \<Rightarrow> checkpoint option" where
  "newest_checkpoint checkpoints = max_by checkpoint_le checkpoints"

definition contradicts_anchored_head ::
    "u64 \<Rightarrow> event_hash \<Rightarrow> u64 \<Rightarrow> event_hash \<Rightarrow> event_hash option \<Rightarrow> bool" where
  "contradicts_anchored_head live_position live_head anchored_position anchored_head live_hash_at_anchored_position =
     (if live_position < anchored_position then True
      else if (anchored_position = live_position) \<noteq> (anchored_head = live_head) then True
      else (case live_hash_at_anchored_position of Some live \<Rightarrow> live \<noteq> anchored_head | None \<Rightarrow> False))"

fun adjacent_equal :: "'x list \<Rightarrow> bool" where
  "adjacent_equal (x # y # xs) = (x = y \<or> adjacent_equal (y # xs))"
| "adjacent_equal xs = False"

fun dedup :: "'x list \<Rightarrow> 'x list" where
  "dedup (x # y # xs) = (if x = y then dedup (y # xs) else x # dedup (y # xs))"
| "dedup xs = xs"

text \<open>\<^verbatim>\<open>Duration::saturating_mul(2)\<close>: the largest duration has $2^{64} - 1$ seconds.\<close>

definition std_duration_max :: nat where "std_duration_max = 18446744073709551615 * 1000000000 + 999999999"

definition saturating_double :: "nat \<Rightarrow> nat" where
  "saturating_double d = min (2 * d) std_duration_max"

definition live_by_id :: "(string \<times> u64 \<times> event_hash) list \<Rightarrow> string \<Rightarrow> (u64 \<times> event_hash) option" where
  "live_by_id live_heads = map_of live_heads"

definition check_statement ::
    "(string \<times> u64 \<times> event_hash) list \<Rightarrow> sealed_stream_record list \<Rightarrow> anchored_hashes \<Rightarrow> anchor_findings
     \<Rightarrow> string \<times> u64 \<times> event_hash \<Rightarrow> anchor_findings" where
  "check_statement live_heads sealed observed findings statement =
     (case statement of (sid, anchored_pos, anchored_head) \<Rightarrow>
        (case live_by_id live_heads sid of
           Some (live_pos, live_head) \<Rightarrow>
             if contradicts_anchored_head live_pos live_head anchored_pos anchored_head (observed_at observed sid anchored_pos)
             then record_break HeadMismatch findings else findings
         | None \<Rightarrow>
             if sid \<notin> set (map rec_sealed_stream_id sealed) then record_break UnsealedAbsentStream findings else findings))"

definition check_seal :: "checkpoint list \<Rightarrow> anchor_findings \<Rightarrow> sealed_stream_record \<Rightarrow> anchor_findings" where
  "check_seal checkpoints findings r =
     (if (rec_sealed_stream_id r, rec_final_event_hash r) \<notin>
         set (map (\<lambda>s. (rec_sealed_stream_id s, rec_final_event_hash s)) (concat (map cp_sealed_streams checkpoints)))
      then record_break SealUnanchored findings else findings)"

definition verify_against_checkpoint ::
    "(nat \<Rightarrow> duration option) \<Rightarrow> duration \<Rightarrow> (string \<times> u64 \<times> event_hash) list \<Rightarrow> sealed_stream_record list
     \<Rightarrow> checkpoint list \<Rightarrow> anchored_hashes \<Rightarrow> timestamp \<Rightarrow> nat \<Rightarrow> anchor_findings" where
  "verify_against_checkpoint from_std max_delta live_heads sealed checkpoints observed now cadence =
     (let findings = \<lparr>af_breaks = [], af_coverage_gaps = []\<rparr> in
      case newest_checkpoint checkpoints of
        None \<Rightarrow> record_gap NoCheckpoint findings
      | Some newest \<Rightarrow>
          let seqs = sort (map cp_checkpoint_seq checkpoints);
              findings = (if adjacent_equal seqs then record_break DuplicateCheckpointSeq findings else findings);
              seqs = dedup seqs;
              findings = (if (case seqs of [] \<Rightarrow> None | s # _ \<Rightarrow> Some s) \<noteq> Some 1 \<or> of_nat (length seqs) \<noteq> cp_checkpoint_seq newest
                          then record_gap SequenceGap findings else findings);
              max_age = (case from_std (saturating_double cadence) of Some d \<Rightarrow> d | None \<Rightarrow> max_delta);
              findings = (if max_age < now - cp_created_at newest then record_gap Stale findings else findings);
              findings = foldl (check_statement live_heads sealed observed) findings (concat (map cp_stream_heads checkpoints))
          in foldl (check_seal checkpoints) findings sealed)"

datatype chain_report = ReportOk | ReportBroken | ReportMissingCheckpoint

definition is_broken :: "stream_verdict \<Rightarrow> bool" where
  "is_broken v = (case v of ChainBroken _ _ \<Rightarrow> True | _ \<Rightarrow> False)"

definition roll_up :: "stream_verdict list \<Rightarrow> anchor_findings \<Rightarrow> chain_report" where
  "roll_up stream_verdicts anchor =
     (if list_ex is_broken stream_verdicts \<or> af_breaks anchor \<noteq> [] then ReportBroken
      else if af_coverage_gaps anchor \<noteq> [] then ReportMissingCheckpoint
      else ReportOk)"

section \<open>Building and emitting a checkpoint\<close>

record stream_head =
  sh_stream_id :: string
  sh_final_stream_position :: u64
  sh_head_event_hash :: event_hash

record backfill_baseline =
  bb_baseline_max_global_position :: u64
  bb_migration_timestamp :: timestamp

record checkpoint_to_emit =
  ce_chain_format_version :: string
  ce_checkpoint_seq :: u64
  ce_created_at :: timestamp
  ce_max_global_position :: u64
  ce_stream_heads :: "stream_head list"
  ce_sealed_streams :: "sealed_stream_record list"
  ce_backfill_baseline :: "backfill_baseline option"

definition sorted_witness :: "stream_head list \<Rightarrow> stream_head list" where
  "sorted_witness heads = sort_key sh_stream_id heads"

definition next_checkpoint_seq :: "checkpoint list \<Rightarrow> u64" where
  "next_checkpoint_seq existing =
     (case map cp_checkpoint_seq existing of [] \<Rightarrow> 1 | s # ss \<Rightarrow> foldl max s ss + 1)"

definition is_first_checkpoint :: "checkpoint list \<Rightarrow> bool" where
  "is_first_checkpoint existing \<longleftrightarrow> existing = []"

definition build_checkpoint ::
    "string \<Rightarrow> checkpoint list \<Rightarrow> stream_head list \<Rightarrow> sealed_stream_record list \<Rightarrow> u64 \<Rightarrow> timestamp
     \<Rightarrow> backfill_baseline option \<Rightarrow> checkpoint_to_emit" where
  "build_checkpoint chain_format_version existing heads sealed max_global_position created_at backfill =
     \<lparr>ce_chain_format_version = chain_format_version, ce_checkpoint_seq = next_checkpoint_seq existing,
      ce_created_at = created_at, ce_max_global_position = max_global_position,
      ce_stream_heads = sorted_witness heads, ce_sealed_streams = sealed,
      ce_backfill_baseline = (if is_first_checkpoint existing then backfill else None)\<rparr>"

datatype anchor_msg =
    StreamSealedMissingData
  | StreamSealedUndecodable
  | NotStreamSealed string
  | AnchorListFailed
  | AnchorGetFailed string
  | AnchorWriteRefused string

definition sealed_record_from_row :: "'e store_env \<Rightarrow> json \<Rightarrow> anchor_msg domain_error + sealed_stream_record" where
  "sealed_record_from_row env event_data =
     (case json_get event_data ''data'' of
        None \<Rightarrow> Inl (Invariant StreamSealedMissingData)
      | Some data \<Rightarrow>
          (case se_from_value env (JObject [(''StreamSealed'', data)]) of
             None \<Rightarrow> Inl (Invariant StreamSealedUndecodable)
           | Some ev \<Rightarrow>
               (case se_as_stream_sealed env ev of
                  None \<Rightarrow> Inl (Invariant (NotStreamSealed (se_event_type env ev)))
                | Some s \<Rightarrow>
                    Inr \<lparr>rec_sealed_stream_id = ss_sealed_stream_id s, rec_final_event_hash = ss_final_event_hash s\<rparr>)))"

definition retention_stream_id :: "'e store_env \<Rightarrow> string" where
  "retention_stream_id env = stream_id_to_string (se_uuid_str env) (eventstore_retention (se_new_v5 env))"

definition read_sealed_records :: "'e store_env \<Rightarrow> event_table \<Rightarrow> anchor_msg domain_error + sealed_stream_record list" where
  "read_sealed_records env tab =
     collect_results (\<lambda>r. sealed_record_from_row env (cr_event_data (er_chain r)))
       (filter (\<lambda>r. cr_event_type (er_chain r) = ''StreamSealed'') (stream_rows tab (retention_stream_id env)))"

record live_chain_snapshot =
  ls_heads :: "stream_head list"
  ls_max_global_position :: u64
  ls_sealed_since_previous :: "sealed_stream_record list"

definition head_row :: "event_table \<Rightarrow> string \<Rightarrow> stream_head" where
  "head_row tab sid =
     (let r = er_chain (last (stream_rows tab sid)) in
      \<lparr>sh_stream_id = sid, sh_final_stream_position = cr_stream_position r, sh_head_event_hash = cr_stored_hash r\<rparr>)"

definition snapshot_live_chain :: "'e store_env \<Rightarrow> event_table \<Rightarrow> anchor_msg domain_error + live_chain_snapshot" where
  "snapshot_live_chain env tab =
     and_then (read_sealed_records env tab) (\<lambda>sealed.
       Inr \<lparr>ls_heads = map (head_row tab) (list_stream_ids tab None),
            ls_max_global_position = word_of_int (foldl max 0 (map er_global_position (et_rows tab))),
            ls_sealed_since_previous = sealed\<rparr>)"

datatype cycle_error =
    AnchorReadFailed "anchor_msg domain_error"
  | HeadSnapshotFailed "anchor_msg domain_error"
  | AnchorWriteFailed "anchor_msg domain_error"

definition chain_format_version :: string where "chain_format_version = ''hort-evchain/v1''"

text \<open>
  One emission cycle: \<open>anchor_read\<close> is what reading the anchor store gave, \<open>emit\<close> the signed write to
  it, which changes the \<open>store\<close>.
\<close>

definition emit_once ::
    "'e store_env \<Rightarrow> (anchor_msg domain_error + checkpoint list) \<Rightarrow> event_table \<Rightarrow> timestamp
     \<Rightarrow> backfill_baseline option \<Rightarrow> (checkpoint_to_emit \<Rightarrow> 'st \<Rightarrow> (anchor_msg domain_error + unit) \<times> 'st) \<Rightarrow> 'st
     \<Rightarrow> (cycle_error + checkpoint_to_emit) \<times> 'st" where
  "emit_once env anchor_read tab now backfill emit store =
     (case anchor_read of
        Inl e \<Rightarrow> (Inl (AnchorReadFailed e), store)
      | Inr existing \<Rightarrow>
          (case snapshot_live_chain env tab of
             Inl e \<Rightarrow> (Inl (HeadSnapshotFailed e), store)
           | Inr snapshot \<Rightarrow>
               let checkpoint = build_checkpoint chain_format_version existing (ls_heads snapshot)
                     (ls_sealed_since_previous snapshot) (ls_max_global_position snapshot) now backfill
               in (case emit checkpoint store of
                     (Inl e, store') \<Rightarrow> (Inl (AnchorWriteFailed e), store')
                   | (Inr _, store') \<Rightarrow> (Inr checkpoint, store'))))"

section \<open>Whether anchoring is expected\<close>

datatype effective_storage_backend = BackendFilesystem | BackendS3

datatype anchoring_gap = StorageNotS3 | AnchorPublicKeyAbsent
datatype anchor_status = Configured | NotConfigured anchoring_gap

definition is_configured :: "anchor_status \<Rightarrow> bool" where
  "is_configured s = (case s of Configured \<Rightarrow> True | NotConfigured _ \<Rightarrow> False)"

definition provisioned :: "string option \<Rightarrow> bool" where
  "provisioned pem = (case pem of Some p \<Rightarrow> trim p \<noteq> [] | None \<Rightarrow> False)"

definition anchoring_status :: "effective_storage_backend \<Rightarrow> string option \<Rightarrow> anchor_status" where
  "anchoring_status backend anchor_public_key =
     (if backend \<noteq> BackendS3 then NotConfigured StorageNotS3
      else if \<not> provisioned anchor_public_key then NotConfigured AnchorPublicKeyAbsent
      else Configured)"

definition anchoring_configured :: "effective_storage_backend \<Rightarrow> string option \<Rightarrow> bool" where
  "anchoring_configured backend anchor_public_key = is_configured (anchoring_status backend anchor_public_key)"

datatype checkpoint_emission_gap = Anchoring anchoring_gap | SigningKeyAbsent
datatype emission_status = EmissionEnabled string string | EmissionDisabled checkpoint_emission_gap

definition emission_is_enabled :: "emission_status \<Rightarrow> bool" where
  "emission_is_enabled s = (case s of EmissionEnabled _ _ \<Rightarrow> True | EmissionDisabled _ \<Rightarrow> False)"

definition checkpoint_emission_status ::
    "effective_storage_backend \<Rightarrow> string option \<Rightarrow> string option \<Rightarrow> emission_status" where
  "checkpoint_emission_status backend anchor_public_key anchor_signing_key =
     (case anchoring_status backend anchor_public_key of
        NotConfigured gap \<Rightarrow> EmissionDisabled (Anchoring gap)
      | Configured \<Rightarrow>
          (case (anchor_public_key, anchor_signing_key) of
             (Some public, Some signing) \<Rightarrow>
               if provisioned (Some signing) then EmissionEnabled public signing else EmissionDisabled SigningKeyAbsent
           | _ \<Rightarrow> EmissionDisabled SigningKeyAbsent))"

section \<open>The verify-event-chain command\<close>

record verify_args =
  va_streams :: "string list"
  va_since_global :: "u64 option"

record 'er chain_reader =
  rd_list_stream_ids :: "u64 option \<Rightarrow> 'er + string list"
  rd_read_stream_chain :: "string \<Rightarrow> 'er + chain_row list"
  rd_read_sealed_records :: "'er + sealed_stream_record list"

datatype 'er verify_error =
    ListingStreamIds 'er | ReadingCheckpoints 'er | ReadingStream string 'er | ReadingSealedRecords 'er

record verify_summary =
  vs_report :: chain_report
  vs_streams_verified :: nat
  vs_rows_read :: nat
  vs_first_broken_stream :: "string option"
  vs_anchor_expected :: bool

definition explicit_stream_ids :: "string list \<Rightarrow> string list" where
  "explicit_stream_ids streams = sort (remdups streams)"

record verify_state =
  vt_hashes :: anchored_hashes
  vt_verdicts :: "stream_verdict list"
  vt_live_heads :: "(string \<times> u64 \<times> event_hash) list"
  vt_rows_read :: nat
  vt_first_broken :: "string option"

definition verify_one ::
    "sha256 \<Rightarrow> to_vec \<Rightarrow> 'er chain_reader \<Rightarrow> verify_state \<Rightarrow> string \<Rightarrow> 'er verify_error + verify_state" where
  "verify_one sha ser reader st sid =
     (case rd_read_stream_chain reader sid of
        Inl e \<Rightarrow> Inl (ReadingStream sid e)
      | Inr rows \<Rightarrow>
          (case verify_stream_chain_observing sha ser sid (map as_stream_row rows) (vt_hashes st) of
             (verdict, hashes) \<Rightarrow>
               Inr \<lparr>vt_hashes = hashes,
                    vt_verdicts = vt_verdicts st @ [verdict],
                    vt_live_heads =
                      (case verdict of
                         ChainOk head position \<Rightarrow>
                           if position \<noteq> - 1 then vt_live_heads st @ [(sid, position, head)] else vt_live_heads st
                       | _ \<Rightarrow> vt_live_heads st),
                    vt_rows_read = vt_rows_read st + length rows,
                    vt_first_broken =
                      (case verdict of
                         ChainBroken _ _ \<Rightarrow> (case vt_first_broken st of None \<Rightarrow> Some sid | Some s \<Rightarrow> Some s)
                       | _ \<Rightarrow> vt_first_broken st)\<rparr>))"

definition select_streams :: "'er chain_reader \<Rightarrow> verify_args \<Rightarrow> 'er verify_error + string list" where
  "select_streams reader args =
     (if va_streams args = [] then
        (case rd_list_stream_ids reader (va_since_global args) of
           Inl e \<Rightarrow> Inl (ListingStreamIds e)
         | Inr ids \<Rightarrow> Inr ids)
      else Inr (explicit_stream_ids (va_streams args)))"

definition verify ::
    "sha256 \<Rightarrow> to_vec \<Rightarrow> (nat \<Rightarrow> duration option) \<Rightarrow> duration \<Rightarrow> 'er chain_reader \<Rightarrow> verify_args
     \<Rightarrow> ('er + checkpoint list) \<Rightarrow> timestamp \<Rightarrow> nat \<Rightarrow> bool \<Rightarrow> 'er verify_error + verify_summary" where
  "verify sha ser from_std max_delta reader args anchor now cadence anchor_expected =
     and_then (select_streams reader args) (\<lambda>stream_ids.
     (case anchor of
        Inl e \<Rightarrow> Inl (ReadingCheckpoints e)
      | Inr checkpoints \<Rightarrow>
     and_then (try_fold (verify_one sha ser reader)
         \<lparr>vt_hashes = from_checkpoints checkpoints, vt_verdicts = [], vt_live_heads = [], vt_rows_read = 0,
          vt_first_broken = None\<rparr> stream_ids)
       (\<lambda>st.
     (case rd_read_sealed_records reader of
        Inl e \<Rightarrow> Inl (ReadingSealedRecords e)
      | Inr sealed \<Rightarrow>
          let anchor_findings = verify_against_checkpoint from_std max_delta (vt_live_heads st) sealed checkpoints
                (vt_hashes st) now cadence
          in Inr \<lparr>vs_report = roll_up (vt_verdicts st) anchor_findings, vs_streams_verified = length stream_ids,
                  vs_rows_read = vt_rows_read st, vs_first_broken_stream = vt_first_broken st,
                  vs_anchor_expected = anchor_expected\<rparr>))))"

definition resolve_fail_on_missing :: "bool option \<Rightarrow> bool \<Rightarrow> bool" where
  "resolve_fail_on_missing flag anchor_expected = (case flag of Some b \<Rightarrow> b | None \<Rightarrow> anchor_expected)"

definition report_to_exit_code :: "chain_report \<Rightarrow> bool \<Rightarrow> nat" where
  "report_to_exit_code report fail_on_missing =
     (case report of
        ReportOk \<Rightarrow> 0
      | ReportBroken \<Rightarrow> 2
      | ReportMissingCheckpoint \<Rightarrow> if fail_on_missing then 3 else 0)"

definition result_label :: "chain_report \<Rightarrow> bool \<Rightarrow> string" where
  "result_label report anchor_expected =
     (case report of
        ReportOk \<Rightarrow> ''ok''
      | ReportBroken \<Rightarrow> ''broken''
      | ReportMissingCheckpoint \<Rightarrow> if anchor_expected then ''missing_checkpoint'' else ''ok'')"

text \<open>The reader over the events table.\<close>

definition pg_chain_reader :: "'e store_env \<Rightarrow> event_table \<Rightarrow> anchor_msg domain_error chain_reader" where
  "pg_chain_reader env tab =
     \<lparr>rd_list_stream_ids = (\<lambda>since_global. Inr (list_stream_ids tab since_global)),
      rd_read_stream_chain = (\<lambda>sid. Inr (read_stream_chain tab sid)),
      rd_read_sealed_records = read_sealed_records env tab\<rparr>"

end
