(* ===== verification/Checkpoint_Store.thy ===== *)
theory Checkpoint_Store
  imports Event_Anchor "HOL-Library.AList"
begin

text \<open>
  The store the checkpoints are anchored in (\<^verbatim>\<open>hort-adapters-checkpoint-anchor\<close>): signed JSON objects
  under a prefix of an object store. The emitter signs and writes one object per checkpoint; the reader
  lists the prefix and drops every object that does not parse or whose signature does not verify.

  The hex and JSON codecs, the Ed25519 signature under the provisioned key pair and chrono's rendering
  of a timestamp are third-party code: the fields of \<open>anchor_env\<close>. The type variable is the type of the
  bytes of a stored object.
\<close>

section \<open>The wire format\<close>

record stream_head_wire =
  hw_stream_id :: string
  hw_final_stream_position :: u64
  hw_head_event_hash :: string

record sealed_wire =
  sw_sealed_stream_id :: string
  sw_final_event_hash :: string

record backfill_baseline_wire =
  bw_backfill_baseline :: bool
  bw_baseline_max_global_position :: u64
  bw_migration_timestamp :: timestamp

record checkpoint_wire =
  cw_chain_format_version :: string
  cw_checkpoint_seq :: u64
  cw_created_at :: timestamp
  cw_stream_heads :: "stream_head_wire list"
  cw_sealed_streams :: "sealed_wire list"
  cw_signature :: string

record signed_body =
  sb_chain_format_version :: string
  sb_checkpoint_seq :: u64
  sb_created_at :: timestamp
  sb_stream_heads :: "stream_head_wire list"
  sb_sealed_streams :: "sealed_wire list"

record checkpoint_object =
  co_chain_format_version :: string
  co_checkpoint_seq :: u64
  co_created_at :: timestamp
  co_stream_heads :: "stream_head_wire list"
  co_sealed_streams :: "sealed_wire list"
  co_signature :: string
  co_max_global_position :: u64
  co_backfill_baseline :: "backfill_baseline_wire option"

record 'b anchor_env =
  an_hex_encode :: "string \<Rightarrow> string"
  an_hex_decode :: "string \<Rightarrow> string option"
  an_body_to_vec :: "signed_body \<Rightarrow> string"
  an_object_to_vec :: "checkpoint_object \<Rightarrow> 'b"
  an_wire_from_slice :: "'b \<Rightarrow> checkpoint_wire option"
  an_sign :: "string \<Rightarrow> string"
  an_verify :: "string \<Rightarrow> string \<Rightarrow> bool"
  an_rfc3339_secs :: "timestamp \<Rightarrow> string"

definition stream_head_to_wire :: "'b anchor_env \<Rightarrow> stream_head \<Rightarrow> stream_head_wire" where
  "stream_head_to_wire anc h =
     \<lparr>hw_stream_id = sh_stream_id h, hw_final_stream_position = sh_final_stream_position h,
      hw_head_event_hash = an_hex_encode anc (hash_bytes (sh_head_event_hash h))\<rparr>"

definition sealed_to_wire :: "'b anchor_env \<Rightarrow> sealed_stream_record \<Rightarrow> sealed_wire" where
  "sealed_to_wire anc s =
     \<lparr>sw_sealed_stream_id = rec_sealed_stream_id s,
      sw_final_event_hash = an_hex_encode anc (hash_bytes (rec_final_event_hash s))\<rparr>"

definition backfill_to_wire :: "backfill_baseline \<Rightarrow> backfill_baseline_wire" where
  "backfill_to_wire b =
     \<lparr>bw_backfill_baseline = True, bw_baseline_max_global_position = bb_baseline_max_global_position b,
      bw_migration_timestamp = bb_migration_timestamp b\<rparr>"

definition signed_body_bytes :: "'b anchor_env \<Rightarrow> signed_body \<Rightarrow> string" where
  "signed_body_bytes anc body = an_body_to_vec anc body"

definition wire_body :: "checkpoint_wire \<Rightarrow> signed_body" where
  "wire_body w =
     \<lparr>sb_chain_format_version = cw_chain_format_version w, sb_checkpoint_seq = cw_checkpoint_seq w,
      sb_created_at = cw_created_at w, sb_stream_heads = cw_stream_heads w, sb_sealed_streams = cw_sealed_streams w\<rparr>"

definition parse_hash_hex :: "'b anchor_env \<Rightarrow> string \<Rightarrow> event_hash option" where
  "parse_hash_hex anc hex_str =
     (case an_hex_decode anc hex_str of None \<Rightarrow> None | Some raw \<Rightarrow> hash_of_bytes raw)"

fun collect_options :: "('x \<Rightarrow> 'y option) \<Rightarrow> 'x list \<Rightarrow> 'y list option" where
  "collect_options f [] = Some []"
| "collect_options f (x # xs) =
     (case f x of
        None \<Rightarrow> None
      | Some y \<Rightarrow> (case collect_options f xs of None \<Rightarrow> None | Some ys \<Rightarrow> Some (y # ys)))"

definition head_from_wire :: "'b anchor_env \<Rightarrow> stream_head_wire \<Rightarrow> (string \<times> u64 \<times> event_hash) option" where
  "head_from_wire anc h =
     (case parse_hash_hex anc (hw_head_event_hash h) of
        None \<Rightarrow> None
      | Some hash \<Rightarrow> Some (hw_stream_id h, hw_final_stream_position h, hash))"

definition sealed_from_wire :: "'b anchor_env \<Rightarrow> sealed_wire \<Rightarrow> sealed_stream_record option" where
  "sealed_from_wire anc s =
     (case parse_hash_hex anc (sw_final_event_hash s) of
        None \<Rightarrow> None
      | Some hash \<Rightarrow> Some \<lparr>rec_sealed_stream_id = sw_sealed_stream_id s, rec_final_event_hash = hash\<rparr>)"

definition verify_and_into_domain :: "'b anchor_env \<Rightarrow> checkpoint_wire \<Rightarrow> checkpoint option" where
  "verify_and_into_domain anc w =
     (case an_hex_decode anc (cw_signature w) of
        None \<Rightarrow> None
      | Some sig_bytes \<Rightarrow>
          if length sig_bytes \<noteq> 64 then None
          else if \<not> an_verify anc (signed_body_bytes anc (wire_body w)) sig_bytes then None
          else
            (case collect_options (head_from_wire anc) (cw_stream_heads w) of
               None \<Rightarrow> None
             | Some heads \<Rightarrow>
                 (case collect_options (sealed_from_wire anc) (cw_sealed_streams w) of
                    None \<Rightarrow> None
                  | Some sealed \<Rightarrow>
                      Some \<lparr>cp_chain_format_version = cw_chain_format_version w,
                            cp_checkpoint_seq = cw_checkpoint_seq w, cp_created_at = cw_created_at w,
                            cp_stream_heads = heads, cp_sealed_streams = sealed\<rparr>)))"

section \<open>Reading\<close>

text \<open>
  A listing yields, per object, a listing failure or its key with the outcome of getting its bytes.
\<close>

type_synonym 'b listing = "(unit + string \<times> (unit + 'b)) list"

fun read_all_loop :: "'b anchor_env \<Rightarrow> checkpoint list \<Rightarrow> 'b listing \<Rightarrow> anchor_msg domain_error + checkpoint list" where
  "read_all_loop anc out [] = Inr out"
| "read_all_loop anc out (entry # listing) =
     (case entry of
        Inl _ \<Rightarrow> Inl (Invariant AnchorListFailed)
      | Inr (key, Inl _) \<Rightarrow> Inl (Invariant (AnchorGetFailed key))
      | Inr (key, Inr bytes) \<Rightarrow>
          (case an_wire_from_slice anc bytes of
             None \<Rightarrow> read_all_loop anc out listing
           | Some wire \<Rightarrow>
               (case verify_and_into_domain anc wire of
                  Some cp \<Rightarrow> read_all_loop anc (out @ [cp]) listing
                | None \<Rightarrow> read_all_loop anc out listing)))"

definition read_all :: "'b anchor_env \<Rightarrow> 'b listing \<Rightarrow> anchor_msg domain_error + checkpoint list" where
  "read_all anc listing = read_all_loop anc [] listing"

section \<open>Emitting\<close>

definition checkpoint_prefix :: string where "checkpoint_prefix = ''hort-event-chain-checkpoints''"

definition checkpoint_object_key :: "'b anchor_env \<Rightarrow> timestamp \<Rightarrow> u64 \<Rightarrow> string" where
  "checkpoint_object_key anc created_at seq =
     (let ts = map (\<lambda>c. if c = CHR '':'' then CHR ''-'' else c) (an_rfc3339_secs anc created_at)
      in checkpoint_prefix @ ''/'' @ ts @ ''-'' @ decimal (unat seq) @ ''.json'')"

definition emitted_body :: "'b anchor_env \<Rightarrow> checkpoint_to_emit \<Rightarrow> signed_body" where
  "emitted_body anc cp =
     \<lparr>sb_chain_format_version = ce_chain_format_version cp, sb_checkpoint_seq = ce_checkpoint_seq cp,
      sb_created_at = ce_created_at cp, sb_stream_heads = map (stream_head_to_wire anc) (ce_stream_heads cp),
      sb_sealed_streams = map (sealed_to_wire anc) (ce_sealed_streams cp)\<rparr>"

definition signed_object :: "'b anchor_env \<Rightarrow> checkpoint_to_emit \<Rightarrow> checkpoint_object" where
  "signed_object anc cp =
     \<lparr>co_chain_format_version = ce_chain_format_version cp, co_checkpoint_seq = ce_checkpoint_seq cp,
      co_created_at = ce_created_at cp, co_stream_heads = map (stream_head_to_wire anc) (ce_stream_heads cp),
      co_sealed_streams = map (sealed_to_wire anc) (ce_sealed_streams cp),
      co_signature = an_hex_encode anc (an_sign anc (signed_body_bytes anc (emitted_body anc cp))),
      co_max_global_position = ce_max_global_position cp,
      co_backfill_baseline = map_option backfill_to_wire (ce_backfill_baseline cp)\<rparr>"

definition sign_and_serialize :: "'b anchor_env \<Rightarrow> checkpoint_to_emit \<Rightarrow> string \<times> 'b" where
  "sign_and_serialize anc cp =
     (checkpoint_object_key anc (ce_created_at cp) (ce_checkpoint_seq cp), an_object_to_vec anc (signed_object anc cp))"

text \<open>The objects under the prefix; a put replaces the object of the same key.\<close>

type_synonym 'b object_store = "(string \<times> 'b) list"

definition emit_checkpoint :: "'b anchor_env \<Rightarrow> bool \<Rightarrow> checkpoint_to_emit \<Rightarrow> 'b object_store \<Rightarrow> (anchor_msg domain_error + unit) \<times> 'b object_store" where
  "emit_checkpoint anc put_fails cp store =
     (case sign_and_serialize anc cp of (key, bytes) \<Rightarrow>
        if put_fails then (Inl (Invariant (AnchorWriteRefused key)), store)
        else (Inr (), AList.update key bytes store))"

section \<open>What is read back\<close>

text \<open>The checkpoint the verifier gets for one that was emitted.\<close>

definition anchored_form :: "checkpoint_to_emit \<Rightarrow> checkpoint" where
  "anchored_form cp =
     \<lparr>cp_chain_format_version = ce_chain_format_version cp, cp_checkpoint_seq = ce_checkpoint_seq cp,
      cp_created_at = ce_created_at cp,
      cp_stream_heads = map (\<lambda>h. (sh_stream_id h, sh_final_stream_position h, sh_head_event_hash h)) (ce_stream_heads cp),
      cp_sealed_streams = ce_sealed_streams cp\<rparr>"

definition object_wire :: "checkpoint_object \<Rightarrow> checkpoint_wire" where
  "object_wire c =
     \<lparr>cw_chain_format_version = co_chain_format_version c, cw_checkpoint_seq = co_checkpoint_seq c,
      cw_created_at = co_created_at c, cw_stream_heads = co_stream_heads c, cw_sealed_streams = co_sealed_streams c,
      cw_signature = co_signature c\<rparr>"

text \<open>
  What the third-party functions do: hex and JSON decode what they encoded (the reader ignoring the
  advisory fields of an object), and a signature has 64 bytes and verifies.
\<close>

definition sound_anchor_env :: "'b anchor_env \<Rightarrow> bool" where
  "sound_anchor_env anc \<longleftrightarrow>
     (\<forall>b. an_hex_decode anc (an_hex_encode anc b) = Some b) \<and>
     (\<forall>c. an_wire_from_slice anc (an_object_to_vec anc c) = Some (object_wire c)) \<and>
     (\<forall>m. length (an_sign anc m) = 64 \<and> an_verify anc m (an_sign anc m))"

definition read_object :: "'b anchor_env \<Rightarrow> 'b \<Rightarrow> checkpoint option" where
  "read_object anc bytes = Option.bind (an_wire_from_slice anc bytes) (verify_and_into_domain anc)"

definition healthy :: "'b object_store \<Rightarrow> 'b listing" where
  "healthy store = map (\<lambda>(key, bytes). Inr (key, Inr bytes)) store"

lemma read_all_loop_healthy:
  "read_all_loop anc out (healthy store) = Inr (out @ List.map_filter (\<lambda>(_, bytes). read_object anc bytes) store)"
proof (induction store arbitrary: out)
  case (Cons entry store)
  then show ?case
    by (cases entry) (auto simp: healthy_def map_filter_simps read_object_def split: option.split)
qed (simp add: healthy_def map_filter_simps)

lemma read_all_healthy: "read_all anc (healthy store) = Inr (List.map_filter (\<lambda>(_, bytes). read_object anc bytes) store)"
  by (simp add: read_all_def read_all_loop_healthy)

lemma collect_options_map: "(\<And>x. f (g x) = Some (h x)) \<Longrightarrow> collect_options f (map g xs) = Some (map h xs)"
  by (induction xs) simp_all

lemma hash_hex_roundtrip: "sound_anchor_env anc \<Longrightarrow> parse_hash_hex anc (an_hex_encode anc (hash_bytes h)) = Some h"
  by (simp add: parse_hash_hex_def sound_anchor_env_def)

lemma read_emitted:
  assumes "sound_anchor_env anc"
  shows "read_object anc (snd (sign_and_serialize anc cp)) = Some (anchored_form cp)"
proof -
  have heads: "collect_options (head_from_wire anc) (map (stream_head_to_wire anc) hs) =
      Some (map (\<lambda>h. (sh_stream_id h, sh_final_stream_position h, sh_head_event_hash h)) hs)" for hs
    by (rule collect_options_map) (simp add: head_from_wire_def stream_head_to_wire_def hash_hex_roundtrip [OF assms])
  have sealed: "collect_options (sealed_from_wire anc) (map (sealed_to_wire anc) ss) = Some (map (\<lambda>s. s) ss)" for ss
    by (rule collect_options_map) (simp add: sealed_from_wire_def sealed_to_wire_def hash_hex_roundtrip [OF assms])
  have "wire_body (object_wire (signed_object anc cp)) = emitted_body anc cp"
    by (simp add: wire_body_def object_wire_def signed_object_def emitted_body_def)
  with assms heads sealed show ?thesis
    by (simp add: read_object_def sign_and_serialize_def sound_anchor_env_def verify_and_into_domain_def anchored_form_def
        del: list.map_ident)
      (simp add: object_wire_def signed_object_def)
qed

lemma after_last:
  "c \<notin> set ys \<Longrightarrow> c \<notin> set ys' \<Longrightarrow> xs @ c # ys = xs' @ c # ys' \<Longrightarrow> ys = ys'"
  by (auto simp: append_eq_append_conv2 Cons_eq_append_conv append_eq_Cons_conv)

lemma object_key_inj:
  assumes "checkpoint_object_key anc t seq = checkpoint_object_key anc t' seq'"
  shows "seq = seq'"
proof -
  have dash: "CHR ''-'' \<notin> set (decimal n @ ''.json'')" for n using decimal_no_dash by simp
  define ts where "ts u = checkpoint_prefix @ ''/'' @ map (\<lambda>c. if c = CHR '':'' then CHR ''-'' else c) (an_rfc3339_secs anc u)"
    for u
  have "ts t @ CHR ''-'' # (decimal (unat seq) @ ''.json'') = ts t' @ CHR ''-'' # (decimal (unat seq') @ ''.json'')"
    using assms by (simp add: checkpoint_object_key_def Let_def ts_def)
  from after_last [OF dash dash this] have "decimal (unat seq) = decimal (unat seq')" by simp
  then show ?thesis by (metis decimal_inj unsigned_word_eqI)
qed

lemma update_fresh: "key \<notin> fst ` set store \<Longrightarrow> AList.update key bytes store = store @ [(key, bytes)]"
  by (induction store) auto

end
