(* ===== verification/Anchor_Findings.thy ===== *)
theory Anchor_Findings
  imports Checkpoint_Store Event_Store_Guarantees
begin

text \<open>
  What the verification of the event chain computes: the hashes the walks record at the anchored
  positions, which breaks the cross-check against the checkpoints reports, and the report of the whole
  command in closed form.
\<close>

section \<open>The anchored positions\<close>

definition statements :: "checkpoint list \<Rightarrow> (string \<times> u64 \<times> event_hash) list" where
  "statements cps = concat (map cp_stream_heads cps)"

definition anchored_at :: "checkpoint list \<Rightarrow> string \<Rightarrow> u64 \<Rightarrow> bool" where
  "anchored_at cps sid p \<longleftrightarrow> (\<exists>h. (sid, p, h) \<in> set (statements cps))"

lemma foldl_concat: "foldl (\<lambda>b x. foldl f b (g x)) b xs = foldl f b (concat (map g xs))"
  by (induction xs arbitrary: b) simp_all

lemma seed_slot_apply:
  "seed_slot b (a, q, h) sid =
   (if sid = a then Some (\<lambda>p. case (case b a of Some slots \<Rightarrow> slots p | None \<Rightarrow> None) of
        Some old \<Rightarrow> Some old | None \<Rightarrow> if p = q then Some None else None)
    else b sid)"
  by (auto simp: seed_slot_def fun_eq_iff split: option.split)

lemma seeded_slots:
  "foldl seed_slot (\<lambda>_. None) ss sid =
   (if \<exists>p h. (sid, p, h) \<in> set ss then Some (\<lambda>p. if \<exists>h. (sid, p, h) \<in> set ss then Some None else None) else None)"
proof (induction ss arbitrary: sid rule: rev_induct)
  case (snoc s ss)
  obtain a q h where s: "s = (a, q, h)" by (cases s)
  show ?case
    unfolding foldl_append foldl.simps s seed_slot_apply snoc.IH
    by (cases "\<exists>p h. (a, p, h) \<in> set ss") (auto simp: fun_eq_iff)
qed simp

lemma from_checkpoints_eq:
  "from_checkpoints cps sid =
   (if \<exists>p. anchored_at cps sid p then Some (\<lambda>p. if anchored_at cps sid p then Some None else None) else None)"
  by (simp add: from_checkpoints_def foldl_concat seeded_slots anchored_at_def statements_def)

section \<open>The observing walk\<close>

lemma walk_records:
  assumes "fst (walk_loop sha ser observe (at_head h p) obs rows) = ChainOk h' p'"
  shows "snd (walk_loop sha ser observe (at_head h p) obs rows) =
    foldl (\<lambda>acc row. observe (ci_stream_position (sr_input row)) (sr_stored_hash row) acc) obs rows"
  using assms
proof (induction rows arbitrary: h p obs)
  case (Cons row rows)
  then show ?case
    using walk_no_link [of sha ser h p row observe obs rows]
    by (cases "link_ok sha ser h p row") (auto simp: walk_link)
qed simp

lemma recorded_hashes:
  assumes "distinct (map (\<lambda>r. ci_stream_position (sr_input r)) rows)"
  shows "foldl (\<lambda>acc row. record_hash (ci_stream_position (sr_input row)) (sr_stored_hash row) acc) slots rows p =
    (case slots p of
       None \<Rightarrow> None
     | Some old \<Rightarrow>
         (case find (\<lambda>r. ci_stream_position (sr_input r) = p) rows of
            None \<Rightarrow> Some old | Some r \<Rightarrow> Some (Some (sr_stored_hash r))))"
  using assms
proof (induction rows arbitrary: slots)
  case (Cons row rows)
  have none: "find (\<lambda>r. ci_stream_position (sr_input r) = ci_stream_position (sr_input row)) rows = None"
    using Cons.prems by (simp add: find_None_iff image_iff) metis
  show ?case
    using Cons.IH [of "record_hash (ci_stream_position (sr_input row)) (sr_stored_hash row) slots"] Cons.prems none
    by (auto simp: record_hash_def split: option.splits)
qed (simp split: option.split)

lemma well_linked_positions:
  assumes "well_linked sha ser rows" and "length rows < 2 ^ 64"
  shows "distinct (map (\<lambda>r. ci_stream_position (sr_input r)) rows)"
  using assms of_nat64_inj
  by (auto simp: distinct_conv_nth well_linked_def row_linked_def)

text \<open>One stream's walk: the plain verdict, and the stored hash at every anchored position it passed.\<close>

lemma observing_verdict: "fst (verify_stream_chain_observing sha ser sid rows anchored) = verify_stream_chain sha ser rows"
proof (cases "anchored sid")
  case (Some slots)
  then have "fst (verify_stream_chain_observing sha ser sid rows anchored) =
      fst (walk_loop sha ser record_hash (at_head (genesis_hash sha) (- 1)) slots rows)"
    by (simp add: verify_stream_chain_observing_def walk_stream_chain_def walk_start_at_head case_prod_beta)
  also have "\<dots> = verify_stream_chain sha ser rows"
    unfolding verify_stream_chain_def walk_stream_chain_def walk_start_at_head by (rule walk_verdict)
  finally show ?thesis .
qed (simp add: verify_stream_chain_observing_def)

lemma observing_other:
  "sid' \<noteq> sid \<Longrightarrow> snd (verify_stream_chain_observing sha ser sid rows anchored) sid' = anchored sid'"
  by (auto simp: verify_stream_chain_observing_def split: option.split prod.split)

lemma linked_position_nth:
  "well_linked sha ser rows \<Longrightarrow> i < length rows \<Longrightarrow> ci_stream_position (sr_input (rows ! i)) = of_nat i"
  by (simp add: well_linked_def row_linked_def)

lemma find_by_position:
  assumes "well_linked sha ser rows" and "length rows < 2 ^ 64"
  shows "find (\<lambda>r. ci_stream_position (sr_input r) = q) rows =
    (if unat q < length rows then Some (rows ! unat q) else None)"
proof -
  have pos: "ci_stream_position (sr_input (rows ! i)) = q \<longleftrightarrow> i = unat q" if "i < length rows" for i
  proof -
    have "unat (of_nat i :: u64) = i" using that assms(2) by (simp add: unsigned_of_nat take_bit_nat_eq_self)
    then show ?thesis using linked_position_nth [OF assms(1) that] by auto
  qed
  show ?thesis
  proof (cases "unat q < length rows")
    case True
    have "\<forall>j<unat q. ci_stream_position (sr_input (rows ! j)) \<noteq> q" using pos True by simp
    then show ?thesis
      using pos [OF True] True by (simp only: if_True find_Some_iff) (intro exI [of _ "unat q"] conjI; simp)
  next
    case False
    then have "\<forall>r\<in>set rows. ci_stream_position (sr_input r) \<noteq> q"
      unfolding all_set_conv_all_nth using pos by auto
    then show ?thesis using False by (simp add: find_None_iff)
  qed
qed

lemma observing_slots:
  assumes "verify_stream_chain sha ser rows = ChainOk h p" and "length rows < 2 ^ 64" and "anchored sid = Some slots"
  shows "snd (verify_stream_chain_observing sha ser sid rows anchored) sid =
    Some (\<lambda>q. case slots q of
       None \<Rightarrow> None
     | Some old \<Rightarrow> if unat q < length rows then Some (Some (sr_stored_hash (rows ! unat q))) else Some old)"
proof -
  have wl: "well_linked sha ser rows" using assms(1) by (simp add: verify_iff_well_linked)
  have "fst (walk_loop sha ser record_hash (at_head (genesis_hash sha) (- 1)) slots rows) = ChainOk h p"
    using assms(1) walk_verdict [of sha ser record_hash "genesis_hash sha" "- 1" slots rows "\<lambda>_ _ u. u" "()"]
    by (simp add: verify_stream_chain_def walk_stream_chain_def walk_start_at_head)
  note rec = walk_records [OF this]
  have "snd (walk_loop sha ser record_hash (at_head (genesis_hash sha) (- 1)) slots rows) q =
      (case slots q of None \<Rightarrow> None
       | Some old \<Rightarrow> if unat q < length rows then Some (Some (sr_stored_hash (rows ! unat q))) else Some old)" for q
    unfolding rec recorded_hashes [OF well_linked_positions [OF wl assms(2)]] find_by_position [OF wl assms(2)]
    by (simp split: option.split)
  then show ?thesis
    using assms(3)
    by (simp add: verify_stream_chain_observing_def walk_stream_chain_def walk_start_at_head case_prod_beta fun_eq_iff)
qed

section \<open>The loop over the streams\<close>

definition rows_of :: "'er chain_reader \<Rightarrow> string \<Rightarrow> chain_row list" where
  "rows_of reader sid = (case rd_read_stream_chain reader sid of Inl _ \<Rightarrow> [] | Inr rows \<Rightarrow> rows)"

definition chain_verdict :: "sha256 \<Rightarrow> to_vec \<Rightarrow> 'er chain_reader \<Rightarrow> string \<Rightarrow> stream_verdict" where
  "chain_verdict sha ser reader sid = verify_stream_chain sha ser (views (rows_of reader sid))"

definition live_entry :: "sha256 \<Rightarrow> to_vec \<Rightarrow> 'er chain_reader \<Rightarrow> string \<Rightarrow> (string \<times> u64 \<times> event_hash) list" where
  "live_entry sha ser reader sid =
     (case chain_verdict sha ser reader sid of
        ChainOk head position \<Rightarrow> if position \<noteq> - 1 then [(sid, position, head)] else []
      | _ \<Rightarrow> [])"

definition observe_all :: "sha256 \<Rightarrow> to_vec \<Rightarrow> 'er chain_reader \<Rightarrow> anchored_hashes \<Rightarrow> string list \<Rightarrow> anchored_hashes" where
  "observe_all sha ser reader anchored sids =
     foldl (\<lambda>a sid. snd (verify_stream_chain_observing sha ser sid (views (rows_of reader sid)) a)) anchored sids"

lemma verify_one_ok:
  assumes "rd_read_stream_chain reader sid = Inr rows"
  shows "verify_one sha ser reader st sid =
    Inr \<lparr>vt_hashes = snd (verify_stream_chain_observing sha ser sid (views (rows_of reader sid)) (vt_hashes st)),
         vt_verdicts = vt_verdicts st @ [chain_verdict sha ser reader sid],
         vt_live_heads = vt_live_heads st @ live_entry sha ser reader sid,
         vt_rows_read = vt_rows_read st + length (rows_of reader sid),
         vt_first_broken = (case vt_first_broken st of Some s \<Rightarrow> Some s
            | None \<Rightarrow> if is_broken (chain_verdict sha ser reader sid) then Some sid else None)\<rparr>"
proof -
  obtain verdict hashes where o: "verify_stream_chain_observing sha ser sid (views rows) (vt_hashes st) = (verdict, hashes)"
    by (cases "verify_stream_chain_observing sha ser sid (views rows) (vt_hashes st)")
  then have "verdict = chain_verdict sha ser reader sid"
    using observing_verdict [of sha ser sid "views rows" "vt_hashes st"] assms by (simp add: chain_verdict_def rows_of_def)
  with o assms show ?thesis
    by (auto simp: verify_one_def rows_of_def live_entry_def is_broken_def split: stream_verdict.split option.split)
qed

lemma verify_loop:
  assumes "\<forall>sid\<in>set sids. is_ok (rd_read_stream_chain reader sid)"
  shows "try_fold (verify_one sha ser reader) st sids =
    Inr \<lparr>vt_hashes = observe_all sha ser reader (vt_hashes st) sids,
         vt_verdicts = vt_verdicts st @ map (chain_verdict sha ser reader) sids,
         vt_live_heads = vt_live_heads st @ concat (map (live_entry sha ser reader) sids),
         vt_rows_read = vt_rows_read st + sum_list (map (\<lambda>sid. length (rows_of reader sid)) sids),
         vt_first_broken = (case vt_first_broken st of Some s \<Rightarrow> Some s
            | None \<Rightarrow> find (\<lambda>sid. is_broken (chain_verdict sha ser reader sid)) sids)\<rparr>"
  using assms
proof (induction sids arbitrary: st)
  case (Cons sid sids)
  then obtain rows where "rd_read_stream_chain reader sid = Inr rows" by (auto simp: is_ok_iff)
  note step = verify_one_ok [OF this]
  show ?case
    using Cons by (simp add: step observe_all_def split: option.split)
qed (simp add: observe_all_def split: option.split)

lemma verify_loop_reads:
  assumes "try_fold (verify_one sha ser reader) st sids = Inr st'"
  shows "\<forall>sid\<in>set sids. is_ok (rd_read_stream_chain reader sid)"
  using assms
  by (induction sids arbitrary: st) (auto simp: verify_one_def split: sum.splits prod.splits)

text \<open>What the walks recorded, when every stream verifies.\<close>

lemma observe_all_other: "sid \<notin> set sids \<Longrightarrow> observe_all sha ser reader anchored sids sid = anchored sid"
  by (induction sids rule: rev_induct) (auto simp: observe_all_def observing_other)

lemma observe_all_slots:
  assumes "\<forall>s\<in>set sids. \<exists>h p. chain_verdict sha ser reader s = ChainOk h p" and "sid \<in> set sids"
    and "length (rows_of reader sid) < 2 ^ 64" and "anchored sid = Some slots"
  shows "observe_all sha ser reader anchored sids sid =
    Some (\<lambda>q. case slots q of
       None \<Rightarrow> None
     | Some old \<Rightarrow> if unat q < length (rows_of reader sid)
         then Some (Some (cr_stored_hash (rows_of reader sid ! unat q))) else Some old)"
    (is "_ = Some (?filled slots)")
  using assms(1,2)
proof (induction sids rule: rev_induct)
  case (snoc s sids)
  let ?a = "observe_all sha ser reader anchored sids"
  have step: "observe_all sha ser reader anchored (sids @ [s]) =
      snd (verify_stream_chain_observing sha ser s (views (rows_of reader s)) ?a)"
    by (simp add: observe_all_def)
  show ?case
  proof (cases "s = sid")
    case True
    obtain old where old: "?a sid = Some old" "?filled old = ?filled slots"
    proof (cases "sid \<in> set sids")
      case True
      then have "?a sid = Some (?filled slots)" using snoc by simp
      moreover have "?filled (?filled slots) = ?filled slots" by (rule ext) (simp split: option.split)
      ultimately show ?thesis by (rule that)
    next
      case False
      then show ?thesis using observe_all_other [OF False] assms(4) that by metis
    qed
    obtain h p where "verify_stream_chain sha ser (views (rows_of reader sid)) = ChainOk h p"
      using snoc.prems(1) True by (auto simp: chain_verdict_def)
    with observing_slots [of sha ser "views (rows_of reader sid)" h p ?a sid old] old(1) assms(3) have
      "observe_all sha ser reader anchored (sids @ [s]) sid = Some (\<lambda>q. case old q of
         None \<Rightarrow> None
       | Some v \<Rightarrow> if unat q < length (rows_of reader sid)
           then Some (Some (sr_stored_hash (views (rows_of reader sid) ! unat q))) else Some v)"
      unfolding True step [unfolded True] length_map by simp
    also have "\<dots> = Some (?filled old)" by (auto simp: fun_eq_iff split: option.split)
    finally show ?thesis using old(2) by simp
  next
    case False
    then show ?thesis using snoc by (simp add: step observing_other)
  qed
qed simp

section \<open>The findings\<close>

lemma set_record_once [simp]: "set (record_once xs v) = insert v (set xs)"
  by (auto simp: record_once_def)

lemma record_simps [simp]:
  "set (af_breaks (record_break v f)) = insert v (set (af_breaks f))"
  "af_coverage_gaps (record_break v f) = af_coverage_gaps f"
  "set (af_coverage_gaps (record_gap g f)) = insert g (set (af_coverage_gaps f))"
  "af_breaks (record_gap g f) = af_breaks f"
  by (simp_all add: record_break_def record_gap_def)

definition statement_break ::
    "(string \<times> u64 \<times> event_hash) list \<Rightarrow> sealed_stream_record list \<Rightarrow> anchored_hashes \<Rightarrow> string \<times> u64 \<times> event_hash
     \<Rightarrow> anchor_break option" where
  "statement_break live sealed observed statement =
     (case statement of (sid, p, h) \<Rightarrow>
        (case map_of live sid of
           Some (live_p, live_h) \<Rightarrow>
             if contradicts_anchored_head live_p live_h p h (observed_at observed sid p) then Some HeadMismatch else None
         | None \<Rightarrow> if sid \<in> rec_sealed_stream_id ` set sealed then None else Some UnsealedAbsentStream))"

lemma check_statement_simps:
  "set (af_breaks (check_statement live sealed observed f s)) = set_option (statement_break live sealed observed s) \<union> set (af_breaks f)"
  "af_coverage_gaps (check_statement live sealed observed f s) = af_coverage_gaps f"
  by (auto simp: check_statement_def statement_break_def live_by_id_def split: prod.split option.split)

lemma check_statements:
  "set (af_breaks (foldl (check_statement live sealed observed) f ss)) =
     (\<Union>s\<in>set ss. set_option (statement_break live sealed observed s)) \<union> set (af_breaks f)"
  "af_coverage_gaps (foldl (check_statement live sealed observed) f ss) = af_coverage_gaps f"
  by (induction ss arbitrary: f) (auto simp: check_statement_simps)

definition seal_anchored :: "checkpoint list \<Rightarrow> sealed_stream_record \<Rightarrow> bool" where
  "seal_anchored cps r \<longleftrightarrow> (\<exists>cp\<in>set cps. r \<in> set (cp_sealed_streams cp))"

lemma check_seal_eq: "check_seal cps f r = (if seal_anchored cps r then f else record_break SealUnanchored f)"
proof -
  have "(rec_sealed_stream_id r, rec_final_event_hash r) \<in>
      set (map (\<lambda>s. (rec_sealed_stream_id s, rec_final_event_hash s)) (concat (map cp_sealed_streams cps))) \<longleftrightarrow> seal_anchored cps r"
    unfolding set_map set_concat seal_anchored_def
    by (auto simp: image_iff) (metis sealed_stream_record.surjective old.unit.exhaust)
  then show ?thesis by (simp only: check_seal_def) simp
qed

lemma check_seals:
  "set (af_breaks (foldl (check_seal cps) f rs)) =
     (if \<forall>r\<in>set rs. seal_anchored cps r then {} else {SealUnanchored}) \<union> set (af_breaks f)"
  "af_coverage_gaps (foldl (check_seal cps) f rs) = af_coverage_gaps f"
  by (induction rs arbitrary: f) (auto simp: check_seal_eq)

lemma adjacent_equal_sorted: "sorted xs \<Longrightarrow> adjacent_equal xs \<longleftrightarrow> \<not> distinct xs"
  by (induction xs rule: adjacent_equal.induct) auto

lemma dedup_distinct: "distinct xs \<Longrightarrow> dedup xs = xs"
  by (induction xs rule: dedup.induct) auto

lemma newest_Nil [simp]: "newest_checkpoint [] = None"
  by (simp add: newest_checkpoint_def)

lemma newest_Some: "cps \<noteq> [] \<Longrightarrow> \<exists>newest. newest_checkpoint cps = Some newest"
  by (cases cps) (simp_all add: newest_checkpoint_def)

lemma findings_breaks:
  "set (af_breaks (verify_against_checkpoint from_std max_delta live sealed cps observed now cadence)) =
   (if cps = [] then {}
    else (if distinct (map cp_checkpoint_seq cps) then {} else {DuplicateCheckpointSeq}) \<union>
      (\<Union>s\<in>set (statements cps). set_option (statement_break live sealed observed s)) \<union>
      (if \<forall>r\<in>set sealed. seal_anchored cps r then {} else {SealUnanchored}))"
proof (cases "cps = []")
  case False
  with newest_Some obtain newest where newest: "newest_checkpoint cps = Some newest" by blast
  show ?thesis
    unfolding verify_against_checkpoint_def Let_def newest option.case check_seals check_statements statements_def
    using False by (simp add: adjacent_equal_sorted)
qed (simp add: verify_against_checkpoint_def)

section \<open>The report\<close>

lemma verify_Inr:
  "verify sha ser from_std max_delta reader args anchor now cadence ex = Inr s \<longleftrightarrow>
   (\<exists>cps sids sealed. anchor = Inr cps \<and> select_streams reader args = Inr sids \<and>
      (\<forall>sid\<in>set sids. is_ok (rd_read_stream_chain reader sid)) \<and> rd_read_sealed_records reader = Inr sealed \<and>
      s = \<lparr>vs_report = roll_up (map (chain_verdict sha ser reader) sids)
             (verify_against_checkpoint from_std max_delta (concat (map (live_entry sha ser reader) sids)) sealed cps
               (observe_all sha ser reader (from_checkpoints cps) sids) now cadence),
           vs_streams_verified = length sids, vs_rows_read = sum_list (map (\<lambda>sid. length (rows_of reader sid)) sids),
           vs_first_broken_stream = find (\<lambda>sid. is_broken (chain_verdict sha ser reader sid)) sids,
           vs_anchor_expected = ex\<rparr>)"
proof -
  have loop: "try_fold (verify_one sha ser reader) st sids = Inr st' \<longleftrightarrow>
      (\<forall>sid\<in>set sids. is_ok (rd_read_stream_chain reader sid)) \<and> Inr st' = try_fold (verify_one sha ser reader) st sids"
    for st st' sids
    using verify_loop_reads by metis
  show ?thesis
    unfolding verify_def and_then_Inr_iff
    by (cases anchor; cases "rd_read_sealed_records reader"; simp; subst loop)
      (auto simp: Let_def verify_loop)
qed

lemma not_broken_iff:
  "roll_up verdicts findings \<noteq> ReportBroken \<longleftrightarrow> (\<forall>v\<in>set verdicts. \<not> is_broken v) \<and> set (af_breaks findings) = {}"
  by (auto simp: roll_up_def list_ex_iff)

lemma verdict_cases: "(\<exists>h p. chain_verdict sha ser reader sid = ChainOk h p) \<longleftrightarrow> \<not> is_broken (chain_verdict sha ser reader sid)"
proof (cases "chain_verdict sha ser reader sid")
  case (SealedGap g)
  then have False
    using walk_never_sealed [of sha ser "\<lambda>_ _ u. u" "genesis_hash sha" "- 1" "()" "views (rows_of reader sid)" g]
    by (simp add: chain_verdict_def verify_stream_chain_def walk_stream_chain_def walk_start_at_head)
  then show ?thesis ..
qed (simp_all add: is_broken_def)

text \<open>Where the streams stand, as far as they verify.\<close>

lemma live_lookup:
  "map_of (concat (map (live_entry sha ser reader) sids)) sid =
   (if sid \<in> set sids then
      (case chain_verdict sha ser reader sid of ChainOk h p \<Rightarrow> if p \<noteq> - 1 then Some (p, h) else None | _ \<Rightarrow> None)
    else None)"
proof (induction sids)
  case (Cons x sids)
  have "map_of (live_entry sha ser reader x) sid =
      (if sid = x then (case chain_verdict sha ser reader x of ChainOk h p \<Rightarrow> if p \<noteq> - 1 then Some (p, h) else None | _ \<Rightarrow> None)
       else None)"
    by (simp add: live_entry_def split: stream_verdict.split)
  with Cons show ?case by (auto simp: map_add_def split: option.split)
qed simp

lemma last_position: "0 < n \<Longrightarrow> n < 2 ^ 64 \<Longrightarrow> unat (of_nat n - 1 :: u64) = n - 1"
proof -
  assume "0 < n" "n < 2 ^ 64"
  then have "(of_nat n - 1 :: u64) = of_nat (n - 1)" by (simp add: of_nat_diff Suc_leI)
  then show ?thesis using \<open>n < 2 ^ 64\<close> by (simp add: unsigned_of_nat take_bit_nat_eq_self)
qed

lemma live_lookup_ok:
  assumes "\<not> is_broken (chain_verdict sha ser reader sid)" and "length (rows_of reader sid) < 2 ^ 64"
  shows "map_of (concat (map (live_entry sha ser reader) sids)) sid =
    (if sid \<in> set sids \<and> rows_of reader sid \<noteq> []
     then Some (of_nat (length (rows_of reader sid)) - 1, head_of sha (views (rows_of reader sid))) else None)"
proof -
  let ?n = "length (rows_of reader sid)"
  obtain h p where v: "chain_verdict sha ser reader sid = ChainOk h p"
    using assms(1) unfolding verdict_cases [symmetric] by blast
  then have p: "p = of_nat ?n - 1" "h = head_of sha (views (rows_of reader sid))"
    by (simp_all add: chain_verdict_def verify_iff_well_linked)
  have "p \<noteq> - 1 \<longleftrightarrow> rows_of reader sid \<noteq> []"
  proof (cases "rows_of reader sid = []")
    case False
    then have "unat p = ?n - 1" using assms(2) last_position [of ?n] by (simp add: p)
    moreover have "unat (- 1 :: u64) = 2 ^ 64 - 1" by (simp add: unsigned_minus_1_eq_mask mask_eq_exp_minus_1)
    ultimately show ?thesis using assms(2) False by auto
  qed (simp add: p)
  then show ?thesis by (simp add: live_lookup v p)
qed

lemma well_linked_take:
  assumes "well_linked sha ser rows"
  shows "well_linked sha ser (take n rows)"
  unfolding well_linked_def
proof (intro allI impI)
  fix i
  assume i: "i < length (take n rows)"
  then have "take n rows ! i = rows ! i" "take n rows ! (i - 1) = rows ! (i - 1)"
    by (simp_all add: less_imp_diff_less)
  then show "row_linked sha ser (take n rows) i"
    using assms i unfolding well_linked_def row_linked_def by auto
qed

lemma collision_free_mono:
  assumes "A \<subseteq> B" and "collision_free sha ser (f ` (B \<union> C))"
  shows "collision_free sha ser (f ` (A \<union> C))"
  using assms unfolding collision_free_def by (auto elim!: inj_on_subset)

text \<open>An anchored statement about a live stream that raises no break fixes the rows up to its position.\<close>

lemma anchored_prefix:
  assumes "verify_stream_chain sha ser (views rows) = ChainOk live_h live_p" and "rows \<noteq> []" and "length rows < 2 ^ 64"
    and "\<not> contradicts_anchored_head live_p live_h p h (if unat p < length rows then Some (cr_stored_hash (rows ! unat p)) else None)"
  shows "unat p < length rows" and "verify_stream_chain sha ser (views (take (Suc (unat p)) rows)) = ChainOk h p"
proof -
  have wl: "well_linked sha ser (views rows)" and live: "live_p = of_nat (length rows) - 1"
    using assms(1) by (simp_all add: verify_iff_well_linked)
  have "p \<le> live_p" using assms(4) by (auto simp: contradicts_anchored_head_def split: if_splits)
  then have "unat p \<le> unat live_p" by (simp add: word_le_nat_alt)
  then show less: "unat p < length rows"
    using last_position [of "length rows"] assms(2,3) live by (cases rows) simp_all
  have h: "h = cr_stored_hash (rows ! unat p)"
    using assms(4) less by (auto simp: contradicts_anchored_head_def split: if_splits)
  have "last (take (Suc (unat p)) rows) = rows ! unat p" using less by (simp add: take_Suc_conv_app_nth)
  moreover have "length (take (Suc (unat p)) rows) = Suc (unat p)" using less by simp
  moreover have "take (Suc (unat p)) rows \<noteq> []" using assms(2) by simp
  ultimately show "verify_stream_chain sha ser (views (take (Suc (unat p)) rows)) = ChainOk h p"
    using well_linked_take [OF wl, of "Suc (unat p)"]
    by (simp add: verify_iff_well_linked head_of_def take_map last_map h)
qed

end
