(* ===== verification/Event_Anchor_Guarantees.thy ===== *)
theory Event_Anchor_Guarantees
  imports Anchor_Findings
begin

text \<open>
  The guarantees of anchoring over the runs of a deployment: its event store takes appends and seals
  while checkpoints of it are emitted to the anchor store. An anchored history cannot be rewritten
  without the verifier reporting it, whatever the database answers; an honest deployment raises no
  break but for a seal that no checkpoint has recorded yet; and a scoped verification reports breaks
  that are none.
\<close>

section \<open>Tombstones\<close>

text \<open>
  A tombstone is stored under its event type and decodes to the record of its seal.
\<close>

definition sealed_codec :: "'e store_env \<Rightarrow> bool" where
  "sealed_codec env \<longleftrightarrow>
     (\<forall>t. se_event_type env (se_stream_sealed env t) = ''StreamSealed'' \<and>
        sealed_record_from_row env (se_jsonb env (stored_payload_envelope env (se_stream_sealed env t))) =
          Inr \<lparr>rec_sealed_stream_id = ss_sealed_stream_id t, rec_final_event_hash = ss_final_event_hash t\<rparr>)"

definition tombstoned :: "'e store_env \<Rightarrow> event_table \<Rightarrow> string \<Rightarrow> bool" where
  "tombstoned env tab sid \<longleftrightarrow>
     (\<exists>r\<in>set (stream_rows tab (retention_sid env)). cr_event_type (er_chain r) = ''StreamSealed'' \<and>
        (\<exists>h. sealed_record_from_row env (cr_event_data (er_chain r)) =
           Inr \<lparr>rec_sealed_stream_id = sid, rec_final_event_hash = h\<rparr>))"

lemma tombstoned_prefix:
  "prefix (stream_rows tab (retention_sid env)) (stream_rows tab' (retention_sid env)) \<Longrightarrow>
   tombstoned env tab sid \<Longrightarrow> tombstoned env tab' sid"
  by (auto simp: tombstoned_def dest: set_mono_prefix)

lemma seal_rows_type:
  "\<exists>row. seal_rows env ids now tab t data = [row] \<and> cr_event_data (er_chain row) = se_jsonb env data \<and>
     cr_event_type (er_chain row) = se_event_type env (se_stream_sealed env t)"
  by (simp add: seal_rows_def written_Cons next_row_def Let_def row_to_insert_def chain_input_of_def)
    (simp add: seal_batch_def)

lemma seal_tombstones:
  assumes "history_ok env hs" and "hs = newer @ (snap, l) # older" and "\<not> sealed_since newer (target_sid env stream)"
    and "audit_snap \<in> fst ` set hs" and "sealed_codec env"
    and "delete_stream env faults now ids snap audit_snap (fst (hd hs)) stream authority = (Inr Sealed, tab')"
  shows "tombstoned env tab' (target_sid env stream)"
proof -
  let ?sid = "target_sid env stream" and ?tab = "fst (hd hs)"
  have lt: "streams_linked env ?tab" by (intro history_tables [OF assms(1)])
  have ls: "streams_linked env snap" by (rule history_tables [OF assms(1)]) (simp add: assms(2))
  have la: "streams_linked env audit_snap" using assms(1,4) by (rule history_tables(1))
  define t where "t = tombstone_of ?sid (category_column (si_category stream)) (of_nat (length (stream_chain ?tab ?sid)) - 1)
      (head_of (se_sha env) (views (stream_chain ?tab ?sid)))"
  have "stream_rows tab' (retention_sid env) = stream_rows ?tab (retention_sid env) @
      seal_rows env ids now ?tab t (stored_payload_envelope env (se_stream_sealed env t))"
    unfolding t_def
    by (rule seal_effect(5) [OF assms(6) [unfolded delete_stream_def]])
      (use lt ls la history_retention_prefix [OF assms(1,4)] history_prefix [OF assms(1-3)] in
        \<open>simp_all add: streams_linked_def\<close>)
  moreover obtain row where "seal_rows env ids now ?tab t (stored_payload_envelope env (se_stream_sealed env t)) = [row]"
      "cr_event_data (er_chain row) = se_jsonb env (stored_payload_envelope env (se_stream_sealed env t))"
      "cr_event_type (er_chain row) = se_event_type env (se_stream_sealed env t)"
    using seal_rows_type by blast
  ultimately show ?thesis
    using assms(5) by (auto simp: tombstoned_def sealed_codec_def t_def tombstone_of_def)
qed

lemma sealed_tombstoned:
  assumes "store_history env hs" and "\<forall>tab\<in>fst ` set hs. no_genesis_hash env tab" and "sealed_codec env"
    and "sealed_since hs sid"
  shows "tombstoned env (fst (hd hs)) sid"
  using assms(1,2,4)
proof (induction rule: store_history.induct)
  case start
  then show ?case by (simp add: sealed_since_def)
next
  case (append_step hs newer snap l older batch faults now res tab')
  have "store_history env ((tab', None) # hs)"
    using append_step.hyps by (rule store_history.append_step)
  then have "history_ok env ((tab', None) # hs)" using append_step.prems(1) by (rule store_history_ok)
  moreover have "hs \<noteq> []" using append_step.hyps(2) by simp
  ultimately have "prefix (stream_rows (fst (hd hs)) (retention_sid env)) (stream_rows tab' (retention_sid env))"
    using history_retention_prefix [of env "(tab', None) # hs" "fst (hd hs)"] by simp
  moreover have "tombstoned env (fst (hd hs)) sid"
    using append_step.IH append_step.prems by (simp add: sealed_since_def)
  ultimately show ?case by (simp add: tombstoned_prefix)
next
  case (seal_step hs newer snap l older stream audit_snap faults now ids authority res tab')
  let ?l = "if res = Inr Sealed then Some (target_sid env stream) else None"
  have ok: "history_ok env hs" using seal_step.hyps(1) seal_step.prems(1) by (simp add: store_history_ok)
  have "store_history env ((tab', ?l) # hs)"
    using seal_step.hyps by (rule store_history.seal_step)
  then have "history_ok env ((tab', ?l) # hs)" using seal_step.prems(1) by (rule store_history_ok)
  moreover have "hs \<noteq> []" using seal_step.hyps(2) by simp
  ultimately have "prefix (stream_rows (fst (hd hs)) (retention_sid env)) (stream_rows tab' (retention_sid env))"
    using history_retention_prefix [of env "(tab', ?l) # hs" "fst (hd hs)"] by simp
  note old = tombstoned_prefix [OF this]
  show ?case
  proof (cases "sealed_since hs sid")
    case True
    then show ?thesis using seal_step.IH seal_step.prems old by simp
  next
    case False
    then have "res = Inr Sealed" "sid = target_sid env stream"
      using seal_step.prems(2) by (auto simp: sealed_since_def split: if_splits)
    then show ?thesis
      using seal_tombstones [OF ok seal_step.hyps(2,3,4) assms(3)] seal_step.hyps(6) by simp
  qed
qed

lemma collect_results_Inr: "collect_results f xs = Inr ys \<Longrightarrow> x \<in> set xs \<Longrightarrow> \<exists>y\<in>set ys. f x = Inr y"
  by (induction xs arbitrary: ys) auto

lemma tombstoned_recorded:
  assumes "tombstoned env tab sid" and "read_sealed_records env tab = Inr sealed"
  shows "sid \<in> rec_sealed_stream_id ` set sealed"
proof -
  obtain r h where r: "r \<in> set (stream_rows tab (retention_sid env))" "cr_event_type (er_chain r) = ''StreamSealed''"
      "sealed_record_from_row env (cr_event_data (er_chain r)) = Inr \<lparr>rec_sealed_stream_id = sid, rec_final_event_hash = h\<rparr>"
    using assms(1) by (auto simp: tombstoned_def)
  then have "\<lparr>rec_sealed_stream_id = sid, rec_final_event_hash = h\<rparr> \<in> set sealed"
    using collect_results_Inr [OF assms(2) [unfolded read_sealed_records_def], of r] by (auto simp: retention_stream_id_def)
  then show ?thesis by force
qed

section \<open>Runs\<close>

text \<open>
  A run interleaves the transactions of the event store with emission cycles, each of which may list
  the anchor store in any order and may fail to write.
\<close>

inductive anchored_run :: "'e store_env \<Rightarrow> 'b anchor_env \<Rightarrow> table_history \<Rightarrow> 'b object_store \<Rightarrow> bool" for env anc where
  start: "store_history env hs \<Longrightarrow> anchored_run env anc hs []"
| change: "anchored_run env anc hs store \<Longrightarrow> store_history env (e # hs) \<Longrightarrow> anchored_run env anc (e # hs) store"
| cycle:
    "anchored_run env anc hs store \<Longrightarrow> mset objects = mset store \<Longrightarrow>
     emit_once env (read_all anc (healthy objects)) (fst (hd hs)) now backfill (emit_checkpoint anc put_fails) store = (res, store') \<Longrightarrow>
     anchored_run env anc hs store'"

text \<open>What a checkpoint of a state of the table says.\<close>

definition states :: "event_table \<Rightarrow> checkpoint \<Rightarrow> bool" where
  "states tab cp \<longleftrightarrow>
     set (cp_stream_heads cp) = (\<lambda>sid. (sid, cr_stream_position (er_chain (last (stream_rows tab sid))),
       cr_stored_hash (er_chain (last (stream_rows tab sid))))) ` set (list_stream_ids tab None)"

definition run_ok :: "'e store_env \<Rightarrow> 'b anchor_env \<Rightarrow> table_history \<Rightarrow> 'b object_store \<Rightarrow> bool" where
  "run_ok env anc hs store \<longleftrightarrow>
     (\<exists>cps. map (\<lambda>(_, bytes). read_object anc bytes) store = map Some cps \<and>
        map cp_checkpoint_seq cps = map of_nat [1..<Suc (length cps)] \<and>
        map fst store = map (\<lambda>cp. checkpoint_object_key anc (cp_created_at cp) (cp_checkpoint_seq cp)) cps \<and>
        (\<forall>cp\<in>set cps. \<exists>tab\<in>fst ` set hs. states tab cp))"

lemma map_filter_Some: "map f xs = map Some ys \<Longrightarrow> List.map_filter f xs = ys"
proof (induction xs arbitrary: ys)
  case (Cons x xs)
  then show ?case by (cases ys) (auto simp: map_filter_simps)
qed (simp add: map_filter_simps)

lemma read_permuted:
  assumes "mset objects = mset store" and "map (\<lambda>(_, bytes). read_object anc bytes) store = map Some cps"
  obtains cps' where "read_all anc (healthy objects) = Inr cps'" and "mset cps' = mset cps"
proof -
  let ?f = "\<lambda>(_, bytes). read_object anc bytes"
  have "mset (List.map_filter ?f objects) = mset (List.map_filter ?f store)"
    using assms(1) by (simp add: List.map_filter_def mset_filter mset_map)
  then show thesis
    using that [of "List.map_filter ?f objects"] map_filter_Some [OF assms(2)] by (simp add: read_all_healthy)
qed

lemma foldl_max_eq: "foldl max (x :: 'a :: linorder) xs = Max (set (x # xs))"
proof -
  have "(\<lambda>x s :: 'a. max s x) = max" by (intro ext) (rule max.commute)
  then show ?thesis by (simp only: Max.set_eq_fold foldl_conv_fold)
qed

lemma numbered_seqs:
  assumes "mset (cps' :: checkpoint list) = mset cps" and "map cp_checkpoint_seq cps = map of_nat [1..<Suc (length cps)]"
    and "length cps < 2 ^ 64"
  shows "sort (map cp_checkpoint_seq cps') = map of_nat [1..<Suc (length cps)]"
    and "distinct (map cp_checkpoint_seq cps')"
proof -
  have m: "mset (map cp_checkpoint_seq cps') = mset (map of_nat [1..<Suc (length cps)])"
    using assms(1,2) by (metis mset_map)
  have unat: "unat (of_nat k :: u64) = k" if "k \<in> set [1..<Suc (length cps)]" for k
    using that assms(3) by (auto simp: unsigned_of_nat take_bit_nat_eq_self)
  have "sorted (map (of_nat :: nat \<Rightarrow> u64) [1..<Suc (length cps)])"
    unfolding sorted_map
  proof (rule sorted_wrt_mono_rel [OF _ sorted_upt])
    show "(of_nat x :: u64) \<le> of_nat y" if "x \<in> set [1..<Suc (length cps)]" "y \<in> set [1..<Suc (length cps)]" "x \<le> y" for x y
      using that unat by (simp only: word_le_nat_alt)
  qed
  with m show "sort (map cp_checkpoint_seq cps') = map of_nat [1..<Suc (length cps)]"
    by (metis properties_for_sort)
  have "inj_on (of_nat :: nat \<Rightarrow> u64) (set [1..<Suc (length cps)])"
    by (rule inj_on_inverseI [of _ unat]) (rule unat)
  then have "distinct (map (of_nat :: nat \<Rightarrow> u64) [1..<Suc (length cps)])"
    by (simp only: distinct_map distinct_upt)
  then show "distinct (map cp_checkpoint_seq cps')" using mset_eq_imp_distinct_iff [OF m] by blast
qed

lemma next_seq:
  assumes "mset cps' = mset cps" and "map cp_checkpoint_seq cps = map of_nat [1..<Suc (length cps)]" and "length cps < 2 ^ 64"
  shows "next_checkpoint_seq cps' = of_nat (Suc (length cps))"
proof (cases "cps = []")
  case True
  then show ?thesis using assms(1) by (simp add: next_checkpoint_seq_def)
next
  case False
  then obtain c rest where c: "cps' = c # rest" using assms(1) by (cases cps') auto
  have "set (map cp_checkpoint_seq cps') = set (map (of_nat :: nat \<Rightarrow> u64) [1..<Suc (length cps)])"
    using numbered_seqs(1) [OF assms] by (metis set_sort)
  moreover have "Max (set (map (of_nat :: nat \<Rightarrow> u64) [1..<Suc (length cps)])) = of_nat (length cps)"
  proof (rule Max_eqI)
    show "y \<le> of_nat (length cps)" if y: "y \<in> set (map (of_nat :: nat \<Rightarrow> u64) [1..<Suc (length cps)])" for y
    proof -
      obtain k where "y = of_nat k" "k \<le> length cps" using y by (auto simp del: upt_Suc)
      then show ?thesis using assms(3) by (simp add: word_le_nat_alt unsigned_of_nat take_bit_nat_eq_self)
    qed
    show "of_nat (length cps) \<in> set (map (of_nat :: nat \<Rightarrow> u64) [1..<Suc (length cps)])"
      using False by (auto simp: Suc_le_eq)
  qed simp
  ultimately show ?thesis
    using c by (simp add: next_checkpoint_seq_def foldl_max_eq del: upt_Suc)
qed

lemma emit_once_Inr:
  assumes "emit_once env (Inr existing) tab now backfill (emit_checkpoint anc put_fails) store = (res, store')"
  shows "store' = store \<or>
    (\<exists>cp sealed. ce_checkpoint_seq cp = next_checkpoint_seq existing \<and> ce_created_at cp = now \<and>
       read_sealed_records env tab = Inr sealed \<and> ce_sealed_streams cp = sealed \<and>
       ce_stream_heads cp = sorted_witness (map (head_row tab) (list_stream_ids tab None)) \<and>
       store' = AList.update (fst (sign_and_serialize anc cp)) (snd (sign_and_serialize anc cp)) store)"
proof (cases "snapshot_live_chain env tab")
  case (Inl e)
  then show ?thesis using assms by (simp add: emit_once_def)
next
  case (Inr snapshot)
  define cp where "cp = build_checkpoint chain_format_version existing (ls_heads snapshot)
    (ls_sealed_since_previous snapshot) (ls_max_global_position snapshot) now backfill"
  have "read_sealed_records env tab = Inr (ls_sealed_since_previous snapshot)"
      "ls_heads snapshot = map (head_row tab) (list_stream_ids tab None)"
    using Inr by (auto simp: snapshot_live_chain_def)
  moreover have "store' = store \<or> store' = AList.update (fst (sign_and_serialize anc cp)) (snd (sign_and_serialize anc cp)) store"
    using assms Inr by (auto simp: emit_once_def cp_def [symmetric] emit_checkpoint_def Let_def split: prod.splits if_splits)
  moreover have "ce_checkpoint_seq cp = next_checkpoint_seq existing" "ce_created_at cp = now"
      "ce_sealed_streams cp = ls_sealed_since_previous snapshot" "ce_stream_heads cp = sorted_witness (ls_heads snapshot)"
    by (simp_all add: cp_def build_checkpoint_def)
  ultimately show ?thesis by metis
qed

lemma emitted_states:
  assumes "ce_stream_heads cp = sorted_witness (map (head_row tab) (list_stream_ids tab None))"
  shows "states tab (anchored_form cp)"
  using assms by (auto simp: states_def anchored_form_def sorted_witness_def head_row_def Let_def image_image)

lemma run_history: "anchored_run env anc hs store \<Longrightarrow> store_history env hs"
  by (induction rule: anchored_run.induct) auto

lemma history_nonempty: "store_history env hs \<Longrightarrow> fst (hd hs) \<in> fst ` set hs"
  by (induction rule: store_history.induct) auto

lemma update_length: "length store \<le> length (AList.update key bytes store)"
  by (induction store) auto

lemma run_invariant:
  assumes "anchored_run env anc hs store" and "sound_anchor_env anc" and "length store < 2 ^ 64"
  shows "run_ok env anc hs store"
  using assms(1,3)
proof (induction rule: anchored_run.induct)
  case (start hs)
  then show ?case by (auto simp: run_ok_def intro: exI [of _ "[]"])
next
  case (change hs store e)
  then show ?case by (fastforce simp: run_ok_def)
next
  case (cycle hs store objects now backfill put_fails res store')
  show ?case
  proof (cases "store' = store")
    case True
    then show ?thesis using cycle.IH cycle.prems by simp
  next
    case False
    have "length store < 2 ^ 64"
    proof -
      have "length store \<le> length store'"
        using cycle.hyps(3)
        by (auto simp: emit_once_def Let_def emit_checkpoint_def update_length split: sum.splits prod.splits if_splits)
      then show ?thesis using cycle.prems by simp
    qed
    then obtain cps where cps: "map (\<lambda>(_, bytes). read_object anc bytes) store = map Some cps"
        "map cp_checkpoint_seq cps = map of_nat [1..<Suc (length cps)]"
        "map fst store = map (\<lambda>cp. checkpoint_object_key anc (cp_created_at cp) (cp_checkpoint_seq cp)) cps"
        "\<forall>cp\<in>set cps. \<exists>tab\<in>fst ` set hs. states tab cp"
      using cycle.IH unfolding run_ok_def by blast
    have len: "length store = length cps" using cps(1) by (rule map_eq_imp_length_eq)
    with \<open>length store < 2 ^ 64\<close> have bound: "length cps < 2 ^ 64" by simp
    obtain existing where ex: "read_all anc (healthy objects) = Inr existing" "mset existing = mset cps"
      using cycle.hyps(2) cps(1) by (rule read_permuted)
    obtain cp where cp: "ce_checkpoint_seq cp = of_nat (Suc (length cps))" "ce_created_at cp = now"
        "ce_stream_heads cp = sorted_witness (map (head_row (fst (hd hs))) (list_stream_ids (fst (hd hs)) None))"
        "store' = AList.update (fst (sign_and_serialize anc cp)) (snd (sign_and_serialize anc cp)) store"
      using emit_once_Inr [OF cycle.hyps(3) [unfolded ex(1)]] False next_seq [OF ex(2) cps(2) bound] by auto
    have fresh: "fst (sign_and_serialize anc cp) \<notin> fst ` set store"
    proof
      assume "fst (sign_and_serialize anc cp) \<in> fst ` set store"
      then have "fst (sign_and_serialize anc cp) \<in> set (map fst store)" by simp
      then obtain c where c: "c \<in> set cps" "fst (sign_and_serialize anc cp) = checkpoint_object_key anc (cp_created_at c) (cp_checkpoint_seq c)"
        unfolding cps(3) by auto
      then have "of_nat (Suc (length cps)) = cp_checkpoint_seq c"
        using object_key_inj by (metis cp(1) fst_conv sign_and_serialize_def)
      moreover have "cp_checkpoint_seq c \<in> set (map (of_nat :: nat \<Rightarrow> u64) [1..<Suc (length cps)])"
        using c(1) unfolding cps(2) [symmetric] by simp
      then obtain k where k: "cp_checkpoint_seq c = of_nat k" "1 \<le> k" "k \<le> length cps" by (auto simp del: upt_Suc)
      ultimately have "(of_nat (Suc (length cps)) :: u64) = of_nat k" by simp
      then have "Suc (length cps) mod 2 ^ 64 = k mod 2 ^ 64" by (simp add: word_of_nat_eq_iff take_bit_eq_mod del: of_nat_Suc)
      then have "Suc (length cps) mod 2 ^ 64 = k" using k(3) bound by simp
      moreover have "Suc (length cps) < 2 ^ 64 \<or> Suc (length cps) = 2 ^ 64" using bound by linarith
      ultimately show False using k(2,3) by auto
    qed
    let ?cps = "cps @ [anchored_form cp]"
    have store': "store' = store @ [sign_and_serialize anc cp]" using update_fresh [OF fresh] cp(4) by simp
    have "map (\<lambda>(_, bytes). read_object anc bytes) store' = map Some ?cps"
      using cps(1) read_emitted [OF assms(2), of cp] by (simp add: store' case_prod_beta)
    moreover have "map cp_checkpoint_seq ?cps = map of_nat [1..<Suc (length ?cps)]"
      using cps(2) cp(1) by (simp add: anchored_form_def)
    moreover have "map fst store' = map (\<lambda>cp. checkpoint_object_key anc (cp_created_at cp) (cp_checkpoint_seq cp)) ?cps"
      using cps(3) by (simp add: store' sign_and_serialize_def anchored_form_def)
    moreover have "\<forall>c\<in>set ?cps. \<exists>tab\<in>fst ` set hs. states tab c"
      using cps(4) emitted_states [OF cp(3)] history_nonempty [OF run_history [OF cycle.hyps(1)]]
      unfolding set_append list.set by blast
    ultimately show ?thesis unfolding run_ok_def by blast
  qed
qed

section \<open>An honest deployment\<close>

text \<open>No break is raised by a statement that was true of an earlier state.\<close>

lemma pg_rows:
  assumes "streams_linked env tab"
  shows "rows_of (pg_chain_reader env tab) sid = stream_chain tab sid"
    and "\<exists>h p. chain_verdict (se_sha env) (se_ser env) (pg_chain_reader env tab) sid = ChainOk h p"
proof -
  have l: "linked env (stream_chain tab sid)" and "length (stream_rows tab sid) < 2 ^ 63"
    using assms length_stream_rows [of tab sid] by (simp_all add: streams_linked_def fits_def)
  then have "read_stream_chain tab sid = stream_chain tab sid"
    by (intro read_stream_chain_eq [of 0] linked_numbered)
  then show "rows_of (pg_chain_reader env tab) sid = stream_chain tab sid"
    by (simp add: rows_of_def pg_chain_reader_def)
  then show "\<exists>h p. chain_verdict (se_sha env) (se_ser env) (pg_chain_reader env tab) sid = ChainOk h p"
    using l by (simp add: chain_verdict_def linked_def verify_iff_well_linked)
qed

lemma hash_position:
  assumes "linked env rows" and "i < length rows" and "j < length rows" and "length rows < 2 ^ 64"
    and "collision_free (se_sha env) (se_ser env) ((\<lambda>r. sr_input (as_stream_row r)) ` set rows)"
    and "cr_stored_hash (rows ! i) = cr_stored_hash (rows ! j)"
  shows "i = j"
proof -
  have hash: "compute_event_hash (se_sha env) (se_ser env) (sr_input (as_stream_row (rows ! k))) = cr_stored_hash (rows ! k)"
    if "k < length rows" for k
    using assms(1) that by (simp add: linked_def well_linked_def row_linked_def)
  have "attested (sr_input (as_stream_row (rows ! i))) = attested (sr_input (as_stream_row (rows ! j)))"
    by (rule collision_free_hash [OF assms(5)]) (use assms(2,3,6) hash in simp_all)
  then have "ci_stream_position (attested (sr_input (as_stream_row (rows ! i)))) =
      ci_stream_position (attested (sr_input (as_stream_row (rows ! j))))" by simp
  then have "cr_stream_position (rows ! i) = cr_stream_position (rows ! j)" by (simp add: attested_def)
  then have "(of_nat i :: u64) = of_nat j" using linked_position [OF assms(1)] assms(2,3) by simp
  then show ?thesis by (rule of_nat64_inj) (use assms(2-4) in simp_all)
qed

text \<open>The head of a prefix of a chain does not contradict the chain.\<close>

lemma prefix_head_consistent:
  assumes "linked env rows" and "length rows < 2 ^ 64" and "0 < n" and "n \<le> length rows"
    and "collision_free (se_sha env) (se_ser env) ((\<lambda>r. sr_input (as_stream_row r)) ` set rows)"
  shows "\<not> contradicts_anchored_head (of_nat (length rows) - 1) (head_of (se_sha env) (views rows))
    (of_nat n - 1) (cr_stored_hash (rows ! (n - 1))) (Some (cr_stored_hash (rows ! (n - 1))))"
proof -
  have pos: "unat (of_nat n - 1 :: u64) = n - 1" "unat (of_nat (length rows) - 1 :: u64) = length rows - 1"
    using last_position [of n] last_position [of "length rows"] assms(2-4) by linarith+
  have head: "head_of (se_sha env) (views rows) = cr_stored_hash (rows ! (length rows - 1))"
    using assms(3,4) by (cases rows) (simp_all add: head_of_def last_conv_nth)
  have "(of_nat n - 1 :: u64) = of_nat (length rows) - 1 \<longleftrightarrow> n - 1 = length rows - 1"
    using pos by (metis unsigned_word_eqI)
  moreover have "cr_stored_hash (rows ! (n - 1)) = cr_stored_hash (rows ! (length rows - 1)) \<longleftrightarrow> n - 1 = length rows - 1"
    using hash_position [OF assms(1) _ _ assms(2,5), of "n - 1" "length rows - 1"] assms(3,4) by auto
  moreover have "\<not> (of_nat (length rows) - 1 :: u64) < of_nat n - 1"
    using pos assms(4) by (simp add: word_less_nat_alt)
  ultimately show ?thesis by (simp add: contradicts_anchored_head_def head)
qed

text \<open>What the verifier sees of an honest state: every stream live with its own head.\<close>

lemma listed_streams: "sid \<in> set (list_stream_ids tab None) \<longleftrightarrow> stream_rows tab sid \<noteq> []"
  unfolding set_empty [symmetric] by (auto simp: list_stream_ids_def stream_rows_def)

lemma honest_statement:
  assumes "anchored_run env anc hs store" and "\<forall>tab\<in>fst ` set hs. no_genesis_hash env tab" and "sealed_codec env"
    and "tab = fst (hd hs)" and "\<forall>sid. sealed_since hs sid \<longrightarrow> stream_rows tab sid = []"
    and "collision_free (se_sha env) (se_ser env) ((\<lambda>r. sr_input (as_stream_row (er_chain r))) ` set (et_rows tab))"
    and "read_sealed_records env tab = Inr sealed"
    and "old \<in> fst ` set hs" and "states old cp" and "cp \<in> set cps" and "(sid, p, h) \<in> set (cp_stream_heads cp)"
  shows "statement_break (concat (map (live_entry (se_sha env) (se_ser env) (pg_chain_reader env tab)) (list_stream_ids tab None)))
    sealed (observe_all (se_sha env) (se_ser env) (pg_chain_reader env tab) (from_checkpoints cps) (list_stream_ids tab None))
    (sid, p, h) = None"
    (is "statement_break ?live _ ?seen _ = _")
proof -
  let ?reader = "pg_chain_reader env tab" and ?rows = "stream_chain tab sid"
  have hist: "store_history env hs" using assms(1) by (rule run_history)
  have ok: "history_ok env hs" using hist assms(2) by (rule store_history_ok)
  have lt: "streams_linked env tab" unfolding assms(4) by (intro history_tables [OF ok])
  have lo: "streams_linked env old" using ok assms(8) by (rule history_tables(1))
  have len: "length ?rows < 2 ^ 64" using fits_length [of tab sid] lt by (simp add: streams_linked_def)
  have nb: "\<not> is_broken (chain_verdict (se_sha env) (se_ser env) ?reader x)" for x
    using pg_rows(2) [OF lt] by (simp add: verdict_cases)
  have live: "map_of ?live sid = (if ?rows \<noteq> [] then Some (of_nat (length ?rows) - 1, head_of (se_sha env) (views ?rows)) else None)"
    using live_lookup_ok [OF nb, of sid "list_stream_ids tab None"] len listed_streams [of sid tab]
    by (simp add: pg_rows(1) [OF lt] stream_chain_def)
  have old: "stream_rows old sid \<noteq> []" "p = cr_stream_position (er_chain (last (stream_rows old sid)))"
      "h = cr_stored_hash (er_chain (last (stream_rows old sid)))"
    using assms(9,11) by (auto simp: states_def listed_streams)
  show ?thesis
  proof (cases "sealed_since hs sid")
    case True
    then have "sid \<in> rec_sealed_stream_id ` set sealed"
      using tombstoned_recorded [OF sealed_tombstoned [OF hist assms(2,3)]] assms(4,7) by blast
    then show ?thesis using live assms(5) True by (simp add: statement_break_def stream_chain_def)
  next
    case False
    obtain l where "(old, l) \<in> set hs" using assms(8) by auto
    then obtain newer older where hs: "hs = newer @ (old, l) # older" by (auto dest: split_list)
    then have "\<not> sealed_since newer sid" using False by (auto simp: sealed_since_def)
    then have pre: "prefix (stream_rows old sid) (stream_rows tab sid)"
      unfolding assms(4) by (rule history_prefix [OF ok hs])
    let ?n = "length (stream_rows old sid)"
    have n: "0 < ?n" "?n \<le> length ?rows" using old(1) prefix_length_le [OF pre] by (simp_all add: stream_chain_length)
    have last: "?rows ! (?n - 1) = er_chain (last (stream_rows old sid))"
      using pre old(1) n by (auto simp: prefix_def stream_chain_def nth_append last_conv_nth)
    have p: "p = of_nat ?n - 1"
      using tail_of_linked [of env old sid] lo old(1,2)
      by (simp add: streams_linked_def tail_state_def read_tail_def stream_chain_length Let_def)
    have "(sid, p, h) \<in> set (statements cps)" using assms(10,11) by (auto simp: statements_def)
    then have at: "anchored_at cps sid p" by (auto simp: anchored_at_def)
    then have slots: "from_checkpoints cps sid = Some (\<lambda>p. if anchored_at cps sid p then Some None else None)"
      by (auto simp: from_checkpoints_eq)
    have "?n - 1 < length ?rows" using n by linarith
    moreover have "unat p = ?n - 1" using last_position [of ?n] n len by (simp add: p)
    moreover have "sid \<in> set (list_stream_ids tab None)" using n by (auto simp: listed_streams stream_chain_def)
    ultimately have "observed_at ?seen sid p = Some h"
      using observe_all_slots [of "list_stream_ids tab None" "se_sha env" "se_ser env" ?reader sid "from_checkpoints cps", OF _ _ _ slots]
        at n len last old(3) pg_rows(2) [OF lt]
      by (simp add: observed_at_def pg_rows(1) [OF lt])
    moreover have "collision_free (se_sha env) (se_ser env) ((\<lambda>r. sr_input (as_stream_row r)) ` set ?rows)"
    proof -
      have "set ?rows \<subseteq> er_chain ` set (et_rows tab)" by (auto simp: stream_chain_def stream_rows_def)
      moreover have "collision_free (se_sha env) (se_ser env) ((\<lambda>r. sr_input (as_stream_row r)) ` (er_chain ` set (et_rows tab) \<union> {}))"
        using assms(6) by (simp add: image_image)
      ultimately have "collision_free (se_sha env) (se_ser env) ((\<lambda>r. sr_input (as_stream_row r)) ` (set ?rows \<union> {}))"
        by (rule collision_free_mono)
      then show ?thesis by simp
    qed
    then have "\<not> contradicts_anchored_head (of_nat (length ?rows) - 1) (head_of (se_sha env) (views ?rows)) p h (Some h)"
      using prefix_head_consistent [of env ?rows ?n] lt len n last old(3) by (simp add: streams_linked_def p)
    ultimately show ?thesis using live n by (auto simp: statement_break_def)
  qed
qed

text \<open>The newest checkpoint has the greatest sequence number.\<close>

lemma foldl_newest:
  "foldl (\<lambda>best y. if checkpoint_le best y then y else best) x xs \<in> set (x # xs) \<and>
   (\<forall>y\<in>set (x # xs). cp_checkpoint_seq y \<le> cp_checkpoint_seq (foldl (\<lambda>best y. if checkpoint_le best y then y else best) x xs))"
proof (induction xs arbitrary: x)
  case (Cons z xs)
  have "cp_checkpoint_seq x \<le> cp_checkpoint_seq (if checkpoint_le x z then z else x)"
    "cp_checkpoint_seq z \<le> cp_checkpoint_seq (if checkpoint_le x z then z else x)"
    by (auto simp: checkpoint_le_def)
  with Cons.IH [of "if checkpoint_le x z then z else x"] show ?case by (auto intro: order_trans split: if_splits)
qed simp

lemma newest_greatest:
  assumes "newest_checkpoint cps = Some newest"
  shows "newest \<in> set cps" and "\<forall>cp\<in>set cps. cp_checkpoint_seq cp \<le> cp_checkpoint_seq newest"
  using assms foldl_newest [of "hd cps" "tl cps"] by (cases cps; auto simp: newest_checkpoint_def)+

definition stale :: "(nat \<Rightarrow> duration option) \<Rightarrow> duration \<Rightarrow> timestamp \<Rightarrow> nat \<Rightarrow> checkpoint \<Rightarrow> bool" where
  "stale from_std max_delta now cadence newest \<longleftrightarrow>
     (case from_std (saturating_double cadence) of Some d \<Rightarrow> d | None \<Rightarrow> max_delta) < now - cp_created_at newest"

lemma findings_gaps:
  assumes "newest_checkpoint cps = Some newest" and "sort (map cp_checkpoint_seq cps) = map of_nat [1..<Suc n]" and "0 < n"
    and "distinct (map cp_checkpoint_seq cps)" and "n < 2 ^ 64"
  shows "af_coverage_gaps (verify_against_checkpoint from_std max_delta live sealed cps observed now cadence) =
    (if stale from_std max_delta now cadence newest then [Stale] else [])"
proof -
  have set: "cp_checkpoint_seq ` set cps = set (map (of_nat :: nat \<Rightarrow> u64) [1..<Suc n])"
    using assms(2) by (metis list.set_map set_sort)
  have "of_nat n \<in> cp_checkpoint_seq ` set cps" unfolding set using assms(3) by auto
  then have "of_nat n \<le> cp_checkpoint_seq newest" using newest_greatest(2) [OF assms(1)] by auto
  moreover have "cp_checkpoint_seq newest \<in> set (map (of_nat :: nat \<Rightarrow> u64) [1..<Suc n])"
    using newest_greatest(1) [OF assms(1)] set by blast
  then obtain k where "cp_checkpoint_seq newest = of_nat k" "k \<le> n" by (auto simp del: upt_Suc)
  ultimately have newest: "cp_checkpoint_seq newest = of_nat n"
    using assms(5) by (simp add: word_le_nat_alt unsigned_of_nat take_bit_nat_eq_self)
  have seqs: "dedup (map of_nat [1..<Suc n]) = (map of_nat [1..<Suc n] :: u64 list)"
    using assms(2,4) by (metis dedup_distinct distinct_sort)
  have adj: "\<not> adjacent_equal (map of_nat [1..<Suc n] :: u64 list)"
    using assms(2,4) by (metis adjacent_equal_sorted distinct_sort sorted_sort)
  have first: "(map of_nat [1..<Suc n] :: u64 list) = 1 # map of_nat [Suc 1..<Suc n]"
    using assms(3) by (simp add: upt_conv_Cons del: upt_Suc)
  have len: "of_nat (length (map (of_nat :: nat \<Rightarrow> u64) [1..<Suc n])) = (of_nat n :: u64)" by (simp del: upt_Suc)
  show ?thesis
    unfolding verify_against_checkpoint_def Let_def assms(1,2) option.case check_seals check_statements seqs len newest
      stale_def [symmetric]
    using adj first by (simp add: record_gap_def record_once_def del: upt_Suc)
qed

lemma sum_length_filter:
  "finite S \<Longrightarrow> f ` set xs \<subseteq> S \<Longrightarrow> (\<Sum>s\<in>S. length (filter (\<lambda>x. f x = s) xs)) = length xs"
proof (induction xs)
  case (Cons x xs)
  have "length (filter (\<lambda>y. f y = s) (x # xs)) = (if f x = s then 1 else 0) + length (filter (\<lambda>y. f y = s) xs)" for s
    by simp
  then have "(\<Sum>s\<in>S. length (filter (\<lambda>y. f y = s) (x # xs))) =
      (\<Sum>s\<in>S. if f x = s then 1 else 0) + (\<Sum>s\<in>S. length (filter (\<lambda>y. f y = s) xs))"
    by (simp only: sum.distrib)
  then show ?case using Cons by simp
qed simp

lemma rows_partition: "sum_list (map (\<lambda>sid. length (stream_rows tab sid)) (list_stream_ids tab None)) = length (et_rows tab)"
proof -
  have "sum_list (map (\<lambda>sid. length (stream_rows tab sid)) (list_stream_ids tab None)) =
      (\<Sum>sid\<in>(\<lambda>r. cr_stream_id (er_chain r)) ` set (et_rows tab). length (filter (\<lambda>r. cr_stream_id (er_chain r) = sid) (et_rows tab)))"
    by (subst sum_list_distinct_conv_sum_set) (simp_all add: list_stream_ids_def stream_rows_def)
  then show ?thesis by (simp add: sum_length_filter)
qed

text \<open>The report an honest deployment gets.\<close>

lemma honest_report:
  assumes "anchored_run env anc hs store" and "sound_anchor_env anc" and "sealed_codec env" and "length store < 2 ^ 64"
    and "\<forall>tab\<in>fst ` set hs. no_genesis_hash env tab" and "tab = fst (hd hs)"
    and "\<forall>sid. sealed_since hs sid \<longrightarrow> stream_rows tab sid = []"
    and "collision_free (se_sha env) (se_ser env) ((\<lambda>r. sr_input (as_stream_row (er_chain r))) ` set (et_rows tab))"
    and "read_sealed_records env tab = Inr sealed" and "mset objects = mset store"
  obtains cps s where "read_all anc (healthy objects) = Inr cps" and "length cps = length store"
    and "verify (se_sha env) (se_ser env) from_std max_delta (pg_chain_reader env tab) \<lparr>va_streams = [], va_since_global = None\<rparr>
      (Inr cps) now cadence ex = Inr s"
    and "vs_streams_verified s = length (list_stream_ids tab None)" and "vs_rows_read s = length (et_rows tab)"
    and "vs_first_broken_stream s = None"
    and "vs_report s =
      (case newest_checkpoint cps of
         None \<Rightarrow> ReportMissingCheckpoint
       | Some newest \<Rightarrow>
           if \<exists>r\<in>set sealed. \<not> seal_anchored cps r then ReportBroken
           else if stale from_std max_delta now cadence newest then ReportMissingCheckpoint
           else ReportOk)"
proof -
  let ?reader = "pg_chain_reader env tab" and ?sids = "list_stream_ids tab None"
  have hist: "store_history env hs" using assms(1) by (rule run_history)
  have ok: "history_ok env hs" using hist assms(5) by (rule store_history_ok)
  have lt: "streams_linked env tab" unfolding assms(6) by (intro history_tables [OF ok])
  obtain cps0 where cps0: "map (\<lambda>(_, bytes). read_object anc bytes) store = map Some cps0"
      "map cp_checkpoint_seq cps0 = map of_nat [1..<Suc (length cps0)]" "\<forall>cp\<in>set cps0. \<exists>tab\<in>fst ` set hs. states tab cp"
    using run_invariant [OF assms(1,2,4)] unfolding run_ok_def by blast
  have len0: "length store = length cps0" using cps0(1) by (rule map_eq_imp_length_eq)
  obtain cps where cps: "read_all anc (healthy objects) = Inr cps" "mset cps = mset cps0"
    using assms(10) cps0(1) by (rule read_permuted)
  have len: "length cps = length store" using cps(2) len0 by (metis size_mset)
  have nb: "\<not> is_broken (chain_verdict (se_sha env) (se_ser env) ?reader x)" for x
    using pg_rows(2) [OF lt] by (simp add: verdict_cases)
  define findings where "findings = verify_against_checkpoint from_std max_delta
    (concat (map (live_entry (se_sha env) (se_ser env) ?reader) ?sids)) sealed cps
    (observe_all (se_sha env) (se_ser env) ?reader (from_checkpoints cps) ?sids) now cadence"
  have bound: "length cps0 < 2 ^ 64" using assms(4) len0 by simp
  note seqs = numbered_seqs [OF cps(2) cps0(2) bound]
  have quiet: "statement_break (concat (map (live_entry (se_sha env) (se_ser env) ?reader) ?sids)) sealed
      (observe_all (se_sha env) (se_ser env) ?reader (from_checkpoints cps) ?sids) st = None" if st: "st \<in> set (statements cps)" for st
  proof -
    obtain sid p h where s: "st = (sid, p, h)" by (cases st)
    obtain cp where cp: "cp \<in> set cps" "(sid, p, h) \<in> set (cp_stream_heads cp)" using st s by (auto simp: statements_def)
    then have "cp \<in> set cps0" using cps(2) by (metis set_mset_mset)
    then obtain old where "old \<in> fst ` set hs" "states old cp" using cps0(3) by blast
    then show ?thesis
      unfolding s using cp by (intro honest_statement [OF assms(1,5,3,6,7,8,9)])
  qed
  have breaks: "set (af_breaks findings) = (if cps = [] \<or> (\<forall>r\<in>set sealed. seal_anchored cps r) then {} else {SealUnanchored})"
    using seqs(2) quiet unfolding findings_def findings_breaks by simp
  have gaps: "af_coverage_gaps findings = (if stale from_std max_delta now cadence newest then [Stale] else [])"
    if "newest_checkpoint cps = Some newest" for newest
  proof -
    have "cps \<noteq> []" using that by auto
    then have "0 < length cps0" using len len0 by (metis length_greater_0_conv)
    then show ?thesis unfolding findings_def by (rule findings_gaps [OF that seqs(1) _ seqs(2) bound])
  qed
  have none: "af_coverage_gaps findings = [NoCheckpoint]" if "cps = []"
    using that by (simp add: findings_def verify_against_checkpoint_def record_gap_def record_once_def)
  have report: "roll_up (map (chain_verdict (se_sha env) (se_ser env) ?reader) ?sids) findings =
      (case newest_checkpoint cps of
         None \<Rightarrow> ReportMissingCheckpoint
       | Some newest \<Rightarrow>
           if \<exists>r\<in>set sealed. \<not> seal_anchored cps r then ReportBroken
           else if stale from_std max_delta now cadence newest then ReportMissingCheckpoint
           else ReportOk)"
  proof (cases "cps = []")
    case True
    then show ?thesis using breaks none nb by (simp add: roll_up_def list_ex_iff)
  next
    case False
    with newest_Some obtain newest where newest: "newest_checkpoint cps = Some newest" by blast
    then show ?thesis
      using breaks gaps [OF newest] nb False
      by (cases "\<forall>r\<in>set sealed. seal_anchored cps r") (auto simp: roll_up_def list_ex_iff)
  qed
  have "select_streams ?reader \<lparr>va_streams = [], va_since_global = None\<rparr> = Inr ?sids"
    by (simp add: select_streams_def pg_chain_reader_def)
  moreover have "\<forall>sid\<in>set ?sids. is_ok (rd_read_stream_chain ?reader sid)" "rd_read_sealed_records ?reader = Inr sealed"
    using assms(9) by (simp_all add: pg_chain_reader_def)
  ultimately have v: "verify (se_sha env) (se_ser env) from_std max_delta ?reader \<lparr>va_streams = [], va_since_global = None\<rparr> (Inr cps)
      now cadence ex = Inr \<lparr>vs_report = roll_up (map (chain_verdict (se_sha env) (se_ser env) ?reader) ?sids) findings,
        vs_streams_verified = length ?sids, vs_rows_read = sum_list (map (\<lambda>sid. length (rows_of ?reader sid)) ?sids),
        vs_first_broken_stream = find (\<lambda>sid. is_broken (chain_verdict (se_sha env) (se_ser env) ?reader sid)) ?sids,
        vs_anchor_expected = ex\<rparr>"
    unfolding verify_Inr findings_def by blast
  show thesis
    by (rule that [OF cps(1) len v])
      (use nb report rows_partition in \<open>simp_all add: pg_rows(1) [OF lt] find_None_iff stream_chain_length\<close>)
qed

section \<open>A small deployment\<close>

text \<open>
  The small store after its one append, with one checkpoint emitted. The stand-ins for the third-party
  code of the anchor store keep every object as it is.
\<close>

definition sample_anchor :: "checkpoint_object anchor_env" where
  "sample_anchor =
     \<lparr>an_hex_encode = (\<lambda>b. b), an_hex_decode = Some, an_body_to_vec = (\<lambda>_. []), an_object_to_vec = (\<lambda>c. c),
      an_wire_from_slice = (\<lambda>c. Some (object_wire c)), an_sign = (\<lambda>_. replicate 64 CHR ''0''),
      an_verify = (\<lambda>_ sig. length sig = 64), an_rfc3339_secs = (\<lambda>_. ''Z'')\<rparr>"

definition sample_cycle :: "(cycle_error + checkpoint_to_emit) \<times> checkpoint_object object_store" where
  "sample_cycle = emit_once sample_env (read_all sample_anchor (healthy [])) sample_table 0 None (emit_checkpoint sample_anchor False) []"

definition sample_checkpoint :: checkpoint where
  "sample_checkpoint =
     \<lparr>cp_chain_format_version = chain_format_version, cp_checkpoint_seq = 1, cp_created_at = 0,
      cp_stream_heads = [(target_sid sample_env sample_stream, 0, cr_stored_hash (er_chain (hd (et_rows sample_table))))],
      cp_sealed_streams = []\<rparr>"

lemma sample_anchor_sound: "sound_anchor_env sample_anchor"
  by (simp add: sound_anchor_env_def sample_anchor_def)

lemma sample_codec: "sealed_codec sample_env"
  by (simp add: sealed_codec_def sealed_record_from_row_def sample_env_def stored_payload_envelope_def reshape_to_envelope_def
      sample_type_def sample_body_def sample_from_value_def json_get_def Let_def)

lemma sample_no_seals: "read_sealed_records sample_env sample_table = Inr []"
proof -
  have "retention_sid sample_env \<noteq> target_sid sample_env sample_stream"
    by (simp add: stream_id_to_string_def eventstore_retention_def sample_stream_def)
  then show ?thesis by (simp add: read_sealed_records_def retention_stream_id_def sample_rows)
qed

lemma sample_streams: "list_stream_ids sample_table None = [target_sid sample_env sample_stream]"
  by (simp add: list_stream_ids_def sample_table_def) (simp add: sample_batch_def)

lemma sample_objects: "read_all sample_anchor (healthy (snd sample_cycle)) = Inr [sample_checkpoint]"
proof -
  have "head_row sample_table (target_sid sample_env sample_stream) =
      \<lparr>sh_stream_id = target_sid sample_env sample_stream, sh_final_stream_position = 0,
       sh_head_event_hash = cr_stored_hash (er_chain (hd (et_rows sample_table)))\<rparr>"
    by (simp add: head_row_def Let_def sample_rows) (simp add: sample_table_def)
  moreover define cp where "cp = build_checkpoint chain_format_version [] (map (head_row sample_table) (list_stream_ids sample_table None))
    [] (word_of_int (foldl max 0 (map er_global_position (et_rows sample_table)))) 0 None"
  ultimately have "anchored_form cp = sample_checkpoint"
    by (simp add: anchored_form_def sample_checkpoint_def build_checkpoint_def sorted_witness_def sample_streams next_checkpoint_seq_def)
  moreover have "snd sample_cycle = [sign_and_serialize sample_anchor cp]"
    by (simp add: sample_cycle_def emit_once_def read_all_def healthy_def snapshot_live_chain_def sample_no_seals cp_def Let_def
        emit_checkpoint_def case_prod_beta)
  ultimately show ?thesis
    using read_emitted [OF sample_anchor_sound, of cp]
    by (simp add: read_all_healthy map_filter_simps case_prod_beta)
qed

lemma sample_run: "anchored_run sample_env sample_anchor sample_states (snd sample_cycle)"
proof (rule anchored_run.cycle [OF anchored_run.start [OF sample_history]])
  show "emit_once sample_env (read_all sample_anchor (healthy [])) (fst (hd sample_states)) 0 None (emit_checkpoint sample_anchor False) [] =
      (fst sample_cycle, snd sample_cycle)"
    by (simp add: sample_cycle_def)
qed simp

lemma sample_collision_free:
  "collision_free sample_sha sample_ser ((\<lambda>r. sr_input (as_stream_row (er_chain r))) ` set (et_rows sample_table))"
  by (simp add: collision_free_def sample_table_def next_row_def Let_def row_to_insert_def sample_env_def sample_batch_def
      compute_event_hash_def canonical_event_bytes_def sample_sha_def genesis_hash_def chain_input_of_def as_stream_row_def
      stream_id_to_columns_def stream_id_to_string_def sample_stream_def timer_actor_def length_fields put_opt_def
      domain_tag_def genesis_preimage_def canonical_payload_bytes_def sample_ser_def sample_type_def input_sized_def sized_def)

section \<open>Properties\<close>

text \<open>
  C8. Anchored history cannot be rewritten unnoticed. Take any reader, that is, whatever the database
  now returns, and any checkpoint that was read back. If the report is not that the chain is broken,
  then for every stream head the checkpoint states: either the stream was read and its rows start with
  exactly the events, and hashes, of the chain that had this head, or no rows of the stream were read
  and a seal of the stream is on record, every seal on record being anchored by a checkpoint. The
  hypothesis on the hash function and the serialiser is only about the two chains compared.
\<close>

theorem anchored_history_is_immutable:
  assumes "verify sha ser from_std max_delta reader args (Inr cps) now cadence ex = Inr s" and "vs_report s \<noteq> ReportBroken"
    and "cp \<in> set cps" and "(sid, p, h) \<in> set (cp_stream_heads cp)"
    and "select_streams reader args = Inr sids" and "rd_read_stream_chain reader sid = Inr rows" and "length rows < 2 ^ 64"
    and "verify_stream_chain sha ser (views original) = ChainOk h p"
    and "collision_free sha ser ((\<lambda>r. sr_input (as_stream_row r)) ` (set rows \<union> set original))"
  shows "if sid \<in> set sids \<and> rows \<noteq> []
    then map (\<lambda>r. (content r, cr_stored_hash r)) (take (length original) rows) = map (\<lambda>r. (content r, cr_stored_hash r)) original
    else (\<exists>sealed. rd_read_sealed_records reader = Inr sealed \<and> sid \<in> rec_sealed_stream_id ` set sealed \<and>
      (\<forall>r\<in>set sealed. \<exists>cp'\<in>set cps. r \<in> set (cp_sealed_streams cp')))"
proof -
  have rows: "rows_of reader sid = rows" using assms(6) by (simp add: rows_of_def)
  obtain sealed where sealed: "rd_read_sealed_records reader = Inr sealed"
    and s: "vs_report s = roll_up (map (chain_verdict sha ser reader) sids)
      (verify_against_checkpoint from_std max_delta (concat (map (live_entry sha ser reader) sids)) sealed cps
        (observe_all sha ser reader (from_checkpoints cps) sids) now cadence)"
    using assms(1,5) unfolding verify_Inr by auto
  let ?live = "concat (map (live_entry sha ser reader) sids)" and ?seen = "observe_all sha ser reader (from_checkpoints cps) sids"
  have stmt: "(sid, p, h) \<in> set (statements cps)" using assms(3,4) by (auto simp: statements_def)
  have ok: "\<not> is_broken (chain_verdict sha ser reader x)" if "x \<in> set sids" for x
    using assms(2) that unfolding s not_broken_iff by simp
  have "statement_break ?live sealed ?seen (sid, p, h) = None" and anchored: "\<forall>r\<in>set sealed. seal_anchored cps r"
    using assms(2,3) stmt unfolding s not_broken_iff findings_breaks by (auto split: if_splits)
  note no_break = this(1)
  show ?thesis
  proof (cases "sid \<in> set sids \<and> rows \<noteq> []")
    case True
    then have nb: "\<not> is_broken (chain_verdict sha ser reader sid)" using ok by blast
    then obtain live_h live_p where v: "verify_stream_chain sha ser (views rows) = ChainOk live_h live_p"
      unfolding verdict_cases [symmetric] by (auto simp: chain_verdict_def rows)
    then have lk: "map_of ?live sid = Some (live_p, live_h)"
      using live_lookup_ok [OF nb] assms(7) True by (simp add: rows verify_iff_well_linked)
    have at: "anchored_at cps sid p" using stmt by (auto simp: anchored_at_def)
    then have slots: "from_checkpoints cps sid = Some (\<lambda>p. if anchored_at cps sid p then Some None else None)"
      by (auto simp: from_checkpoints_eq)
    have "\<forall>x\<in>set sids. \<exists>h p. chain_verdict sha ser reader x = ChainOk h p" using ok by (simp add: verdict_cases)
    from observe_all_slots [OF this, of sid "from_checkpoints cps", OF _ _ slots] have
      "observed_at ?seen sid p = (if unat p < length rows then Some (cr_stored_hash (rows ! unat p)) else None)"
      using True assms(7) at by (simp add: observed_at_def rows)
    then have "\<not> contradicts_anchored_head live_p live_h p h
        (if unat p < length rows then Some (cr_stored_hash (rows ! unat p)) else None)"
      using no_break lk by (simp add: statement_break_def split: if_splits)
    note prefix = anchored_prefix [OF v conjunct2 [OF True] assms(7) this]
    have "set (take (Suc (unat p)) rows) \<subseteq> set rows" by (rule set_take_subset)
    then have "collision_free sha ser ((\<lambda>r. sr_input (as_stream_row r)) ` (set (take (Suc (unat p)) rows) \<union> set original))"
      using assms(9) by (rule collision_free_mono)
    from same_head_same_chain [OF this prefix(2) assms(8)] have
      eq: "map (\<lambda>r. (content r, cr_stored_hash r)) (take (Suc (unat p)) rows) = map (\<lambda>r. (content r, cr_stored_hash r)) original" .
    then have "length (take (Suc (unat p)) rows) = length original" by (rule map_eq_imp_length_eq)
    then have "Suc (unat p) = length original" using prefix(1) by simp
    with eq True show ?thesis by simp
  next
    case False
    have "map_of ?live sid = None"
    proof (cases "sid \<in> set sids")
      case True
      then show ?thesis using live_lookup_ok [OF ok [OF True], of sids] False assms(7) by (simp add: rows)
    qed (simp add: live_lookup)
    then have "sid \<in> rec_sealed_stream_id ` set sealed"
      using no_break by (simp add: statement_break_def split: if_splits)
    with False sealed anchored show ?thesis by (auto simp: seal_anchored_def)
  qed
qed

lemma sample_store_length: "length (snd sample_cycle) < 2 ^ 64"
  by (simp add: sample_cycle_def emit_once_def read_all_def healthy_def snapshot_live_chain_def sample_no_seals Let_def
      emit_checkpoint_def case_prod_beta)

lemma sample_honest:
  "sample_table = fst (hd sample_states)"
  "\<forall>sid. sealed_since sample_states sid \<longrightarrow> stream_rows sample_table sid = []"
  "collision_free (se_sha sample_env) (se_ser sample_env)
     ((\<lambda>r. sr_input (as_stream_row (er_chain r))) ` set (et_rows sample_table))"
  using sample_collision_free by (simp_all add: sealed_since_def sample_env_def)

lemmas sample_deployment =
  sample_run sample_anchor_sound sample_codec sample_store_length sample_states_no_genesis sample_honest sample_no_seals

lemma sample_verified:
  obtains s where "verify sample_sha sample_ser (\<lambda>n. Some (int n)) 0 (pg_chain_reader sample_env sample_table)
      \<lparr>va_streams = [], va_since_global = None\<rparr> (Inr [sample_checkpoint]) 0 1 True = Inr s" and "vs_report s = ReportOk"
proof -
  have env: "se_sha sample_env = sample_sha" "se_ser sample_env = sample_ser" by (simp_all add: sample_env_def)
  have newest: "newest_checkpoint [sample_checkpoint] = Some sample_checkpoint" by (simp add: newest_checkpoint_def)
  have fresh: "\<not> stale (\<lambda>n. Some (int n)) 0 0 1 sample_checkpoint"
    by (simp add: stale_def saturating_double_def std_duration_max_def sample_checkpoint_def)
  show thesis
  proof (rule honest_report [where from_std = "\<lambda>n. Some (int n)" and max_delta = 0 and now = 0 and cadence = 1 and ex = True,
        OF sample_deployment refl])
    fix cps s
    assume "read_all sample_anchor (healthy (snd sample_cycle)) = Inr cps"
      and v: "verify (se_sha sample_env) (se_ser sample_env) (\<lambda>n. Some (int n)) 0 (pg_chain_reader sample_env sample_table)
        \<lparr>va_streams = [], va_since_global = None\<rparr> (Inr cps) 0 1 True = Inr s"
      and r: "vs_report s = (case newest_checkpoint cps of None \<Rightarrow> ReportMissingCheckpoint
        | Some newest \<Rightarrow> if \<exists>r\<in>set []. \<not> seal_anchored cps r then ReportBroken
            else if stale (\<lambda>n. Some (int n)) 0 0 1 newest then ReportMissingCheckpoint else ReportOk)"
    then have "cps = [sample_checkpoint]" by (simp add: sample_objects)
    with that v r newest fresh env show thesis by simp
  qed
qed

theorem anchored_history_is_immutable_witness:
  "map (\<lambda>r. (content r, cr_stored_hash r)) (take 1 (read_stream_chain sample_table (target_sid sample_env sample_stream))) =
   map (\<lambda>r. (content r, cr_stored_hash r)) [er_chain (hd (et_rows sample_table))]"
proof -
  let ?T = "target_sid sample_env sample_stream" and ?reader = "pg_chain_reader sample_env sample_table"
  define row where "row = er_chain (hd (et_rows sample_table))"
  have rows: "et_rows sample_table = [hd (et_rows sample_table)]" by (simp add: sample_table_def)
  have lt: "streams_linked sample_env sample_table"
    by (rule history_tables(1) [OF store_history_ok [OF sample_history sample_states_no_genesis]]) simp
  have chain: "stream_chain sample_table ?T = [row]" using rows by (simp add: stream_chain_def sample_rows row_def) (metis list.simps(8,9))
  then have read: "rd_read_stream_chain ?reader ?T = Inr [row]"
    using pg_rows(1) [OF lt, of ?T] by (simp add: rows_of_def pg_chain_reader_def)
  have orig: "verify_stream_chain sample_sha sample_ser (views [row]) = ChainOk (cr_stored_hash row) 0"
  proof -
    have "linked sample_env (stream_chain sample_table ?T)" using lt by (simp add: streams_linked_def)
    then have "well_linked sample_sha sample_ser (views [row])"
      unfolding chain linked_def by (simp add: sample_env_def)
    then show ?thesis by (simp add: verify_iff_well_linked head_of_def)
  qed
  have cf: "collision_free sample_sha sample_ser ((\<lambda>r. sr_input (as_stream_row r)) ` (set [row] \<union> set [row]))"
    using sample_collision_free rows by (simp add: row_def) (metis list.set(1,2) image_empty image_insert)
  obtain s where s: "verify sample_sha sample_ser (\<lambda>n. Some (int n)) 0 ?reader \<lparr>va_streams = [], va_since_global = None\<rparr>
      (Inr [sample_checkpoint]) 0 1 True = Inr s" "vs_report s = ReportOk"
    by (rule sample_verified)
  have "select_streams ?reader \<lparr>va_streams = [], va_since_global = None\<rparr> = Inr [?T]"
    by (simp add: select_streams_def pg_chain_reader_def sample_streams)
  then show ?thesis
    using anchored_history_is_immutable [OF s(1), of sample_checkpoint ?T 0 "cr_stored_hash row" "[?T]" "[row]" "[row]"] s(2) read orig cf
    by (simp add: sample_checkpoint_def row_def [symmetric]) (simp add: pg_chain_reader_def)
qed

text \<open>
  C9. What an honest deployment reports. In any interleaving of appends, seals and checkpoint cycles in which
  no operation on a stream read its tail before a seal of that stream and ran after it, and no sealed
  stream has rows again, whatever cycles failed to write and in whatever order the anchor store is
  listed: the verification of the whole store reads every row once, finds no broken stream, and reports a
  break exactly if a checkpoint was written and some seal on record is in none of them. Otherwise it reports a
  missing checkpoint exactly if none was written or the newest is older than twice the cadence, and else
  that all is well. Further hypotheses: no stored hash is the genesis sentinel, no two stored events
  collide under the hash and the serialiser, the tombstones on record decode, the payload column
  keeps values up to key order, and the third-party codecs and the signature are sound. Without the
  first restriction the report can be a break: an append that straddles a seal leaves a stream
  that starts at a later position.
\<close>

theorem honest_deployment_report:
  assumes "anchored_run env anc hs store" and "sound_anchor_env anc" and "sealed_codec env" and "length store < 2 ^ 64"
    and "\<forall>tab\<in>fst ` set hs. no_genesis_hash env tab" and "tab = fst (hd hs)"
    and "\<forall>sid. sealed_since hs sid \<longrightarrow> stream_rows tab sid = []"
    and "collision_free (se_sha env) (se_ser env) ((\<lambda>r. sr_input (as_stream_row (er_chain r))) ` set (et_rows tab))"
    and "read_sealed_records env tab = Inr sealed" and "mset objects = mset store"
  shows "\<exists>cps s. read_all anc (healthy objects) = Inr cps \<and> length cps = length store \<and>
    verify (se_sha env) (se_ser env) from_std max_delta (pg_chain_reader env tab) \<lparr>va_streams = [], va_since_global = None\<rparr>
      (Inr cps) now cadence ex = Inr s \<and>
    vs_rows_read s = length (et_rows tab) \<and> vs_first_broken_stream s = None \<and>
    vs_report s =
      (case newest_checkpoint cps of
         None \<Rightarrow> ReportMissingCheckpoint
       | Some newest \<Rightarrow>
           if \<exists>r\<in>set sealed. \<not> seal_anchored cps r then ReportBroken
           else if stale from_std max_delta now cadence newest then ReportMissingCheckpoint
           else ReportOk)"
  by (rule honest_report [OF assms]) blast

theorem honest_deployment_report_witness:
  "\<exists>s. verify sample_sha sample_ser (\<lambda>n. Some (int n)) 0 (pg_chain_reader sample_env sample_table)
     \<lparr>va_streams = [], va_since_global = None\<rparr> (read_all sample_anchor (healthy (snd sample_cycle))) 3 1 True = Inr s \<and>
   vs_report s = ReportMissingCheckpoint \<and> vs_rows_read s = 1"
proof -
  have env: "se_sha sample_env = sample_sha" "se_ser sample_env = sample_ser" by (simp_all add: sample_env_def)
  have newest: "newest_checkpoint [sample_checkpoint] = Some sample_checkpoint" by (simp add: newest_checkpoint_def)
  have old: "stale (\<lambda>n. Some (int n)) 0 3 1 sample_checkpoint"
    by (simp add: stale_def saturating_double_def std_duration_max_def sample_checkpoint_def)
  have rows: "length (et_rows sample_table) = 1" by (simp add: sample_table_def)
  obtain cps s where "read_all sample_anchor (healthy (snd sample_cycle)) = Inr cps"
      "verify (se_sha sample_env) (se_ser sample_env) (\<lambda>n. Some (int n)) 0 (pg_chain_reader sample_env sample_table)
        \<lparr>va_streams = [], va_since_global = None\<rparr> (Inr cps) 3 1 True = Inr s"
      "vs_rows_read s = length (et_rows sample_table)"
      "vs_report s = (case newest_checkpoint cps of None \<Rightarrow> ReportMissingCheckpoint
        | Some newest \<Rightarrow> if \<exists>r\<in>set []. \<not> seal_anchored cps r then ReportBroken
            else if stale (\<lambda>n. Some (int n)) 0 3 1 newest then ReportMissingCheckpoint else ReportOk)"
    using honest_deployment_report [where from_std = "\<lambda>n. Some (int n)" and max_delta = 0 and now = 3 and cadence = 1
        and ex = True, OF sample_deployment refl] by blast
  then show ?thesis using newest old rows env by (simp add: sample_objects)
qed

text \<open>
  C39. A verification scoped to some streams reports a break that is none. Whenever a checkpoint states
  the head of a stream that is not among the streams selected by \<^verbatim>\<open>--stream\<close> or \<^verbatim>\<open>--since-global\<close> and
  was not sealed, the report is that the chain is broken and the exit code 2, because the cross-check
  visits every anchored stream and takes the streams it was not asked to read for deleted.
\<close>

theorem scoped_verification_reports_break:
  assumes "verify sha ser from_std max_delta reader args (Inr cps) now cadence ex = Inr s"
    and "select_streams reader args = Inr sids" and "cp \<in> set cps" and "(sid, p, h) \<in> set (cp_stream_heads cp)"
    and "sid \<notin> set sids" and "rd_read_sealed_records reader = Inr sealed" and "sid \<notin> rec_sealed_stream_id ` set sealed"
  shows "vs_report s = ReportBroken \<and> report_to_exit_code (vs_report s) (resolve_fail_on_missing flag ex) = 2"
proof -
  have stmt: "(sid, p, h) \<in> set (statements cps)" using assms(3,4) by (auto simp: statements_def)
  have "vs_report s = ReportBroken"
  proof (rule ccontr)
    assume "vs_report s \<noteq> ReportBroken"
    then have "statement_break (concat (map (live_entry sha ser reader) sids)) sealed
        (observe_all sha ser reader (from_checkpoints cps) sids) (sid, p, h) = None"
      using assms(1,2,3,6) stmt unfolding verify_Inr
      by (auto simp: not_broken_iff findings_breaks split: if_splits)
    then show False using assms(5,7) by (simp add: statement_break_def live_lookup)
  qed
  then show ?thesis by (simp add: report_to_exit_code_def)
qed

theorem scoped_verification_reports_break_witness:
  "\<exists>all scoped. verify sample_sha sample_ser (\<lambda>n. Some (int n)) 0 (pg_chain_reader sample_env sample_table)
       \<lparr>va_streams = [], va_since_global = None\<rparr> (Inr [sample_checkpoint]) 0 1 True = Inr all \<and> vs_report all = ReportOk \<and>
     verify sample_sha sample_ser (\<lambda>n. Some (int n)) 0 (pg_chain_reader sample_env sample_table)
       \<lparr>va_streams = [], va_since_global = Some 2\<rparr> (Inr [sample_checkpoint]) 0 1 True = Inr scoped \<and> vs_report scoped = ReportBroken"
proof -
  let ?reader = "pg_chain_reader sample_env sample_table"
  have sel: "select_streams ?reader \<lparr>va_streams = [], va_since_global = Some 2\<rparr> = Inr []"
    by (simp add: select_streams_def pg_chain_reader_def list_stream_ids_def) (simp add: sample_table_def)
  have sealed: "rd_read_sealed_records ?reader = Inr []" by (simp add: pg_chain_reader_def sample_no_seals)
  obtain scoped where scoped: "verify sample_sha sample_ser (\<lambda>n. Some (int n)) 0 ?reader
      \<lparr>va_streams = [], va_since_global = Some 2\<rparr> (Inr [sample_checkpoint]) 0 1 True = Inr scoped"
    using sel sealed unfolding verify_Inr by auto
  have "vs_report scoped = ReportBroken"
    using scoped_verification_reports_break [OF scoped sel, of sample_checkpoint "target_sid sample_env sample_stream" 0
        "cr_stored_hash (er_chain (hd (et_rows sample_table)))" "[]"] sealed
    by (simp add: sample_checkpoint_def)
  with scoped show ?thesis using sample_verified by metis
qed

end
