(* ===== verification/Access_Control.thy ===== *)
theory Access_Control
  imports Policy_Exclusion
begin

text \<open>
  Who may do what: the permissions, grants, claim mappings and token caps of
  \<^verbatim>\<open>hort-domain/src/entities/{rbac,api_token,caller}.rs\<close> and the in-memory evaluator of
  \<^verbatim>\<open>hort-app/src/rbac.rs\<close>. The decision has two legs. The grants leg scans the grants for one whose
  subject the caller satisfies, with a short circuit for the \<open>admin\<close> claim; the cap leg bounds a
  caller that presented a token by what the token was issued for. The lemmas show that the enumeration
  of held permissions agrees with the decision, and that a cap derived from it passes the decision.
\<close>

section \<open>Permissions, grants and caps\<close>

datatype permission =
    PermRead | PermWrite | PermDelete | PermAdmin | PermAdminTaskInvoke | PermCurate | PermPrefetch |
    PermReadMetrics

fun permission_to_string :: "permission \<Rightarrow> string" where
  "permission_to_string PermRead = ''read''"
| "permission_to_string PermWrite = ''write''"
| "permission_to_string PermDelete = ''delete''"
| "permission_to_string PermAdmin = ''admin''"
| "permission_to_string PermAdminTaskInvoke = ''admin_task_invoke''"
| "permission_to_string PermCurate = ''curate''"
| "permission_to_string PermPrefetch = ''prefetch''"
| "permission_to_string PermReadMetrics = ''read_metrics''"

datatype access_msg = UnknownPermission string

definition permission_from_str :: "(string \<Rightarrow> string) \<Rightarrow> string \<Rightarrow> access_msg domain_error + permission" where
  "permission_from_str uni s =
     (let l = to_lowercase uni s in
      if l = ''read'' then Inr PermRead
      else if l = ''write'' then Inr PermWrite
      else if l = ''delete'' then Inr PermDelete
      else if l = ''admin'' then Inr PermAdmin
      else if l = ''admin_task_invoke'' then Inr PermAdminTaskInvoke
      else if l = ''curate'' then Inr PermCurate
      else if l = ''prefetch'' then Inr PermPrefetch
      else if l = ''read_metrics'' then Inr PermReadMetrics
      else Inl (Validation (UnknownPermission s)))"

datatype grant_subject = SubjectClaims "string list" | SubjectUser uuid

record permission_grant =
  pg_id :: uuid
  pg_subject :: grant_subject
  pg_repository_id :: "uuid option"
  pg_permission :: permission
  pg_managed_by :: managed_by
  pg_managed_by_digest :: "string option"
  pg_created_at :: timestamp

record claim_mapping =
  cm_id :: uuid
  cm_idp_group :: string
  cm_claim :: string
  cm_managed_by :: managed_by
  cm_managed_by_digest :: "string option"

datatype token_kind = Pat | ServiceAccount | CliSession

record token_cap =
  cap_permissions :: "permission list"
  cap_repository_ids :: "uuid list option"
  cap_per_repository_permissions :: "(uuid \<rightharpoonup> permission list) option"

record caller_principal =
  pr_user_id :: uuid
  pr_external_id :: string
  pr_username :: string
  pr_email :: string
  pr_claims :: "string list"
  pr_token_kind :: "token_kind option"
  pr_issued_at :: timestamp
  pr_token_cap :: "token_cap option"

section \<open>The cap leg\<close>

definition cap_allows_optional_repo :: "token_cap option \<Rightarrow> permission \<Rightarrow> uuid option \<Rightarrow> bool" where
  "cap_allows_optional_repo cap requested repository_id =
     (case cap of
        None \<Rightarrow> True
      | Some c \<Rightarrow>
          if requested \<notin> set (cap_permissions c) then False
          else
            let repository_ids_leg =
              (case (cap_repository_ids c, repository_id) of
                 (None, _) \<Rightarrow> True
               | (Some ids, Some repo) \<Rightarrow> repo \<in> set ids
               | (Some _, None) \<Rightarrow> False)
            in if \<not> repository_ids_leg then False
               else (case (cap_per_repository_permissions c, repository_id) of
                       (None, _) \<Rightarrow> True
                     | (Some per_repo, Some repo) \<Rightarrow>
                         (case per_repo repo of None \<Rightarrow> False | Some actions \<Rightarrow> requested \<in> set actions)
                     | (Some _, None) \<Rightarrow> False))"

definition cap_allows :: "token_cap option \<Rightarrow> permission \<Rightarrow> uuid \<Rightarrow> bool" where
  "cap_allows cap requested repo = cap_allows_optional_repo cap requested (Some repo)"

definition user_grants_allow :: "permission_grant list \<Rightarrow> permission \<Rightarrow> uuid \<Rightarrow> bool" where
  "user_grants_allow grants requested repo =
     list_ex (\<lambda>g. (case pg_repository_id g of None \<Rightarrow> True | Some r \<Rightarrow> r = repo) \<and>
       (pg_permission g = PermAdmin \<or> pg_permission g = requested)) grants"

definition effective_permission ::
    "token_cap option \<Rightarrow> permission_grant list \<Rightarrow> permission \<Rightarrow> uuid \<Rightarrow> bool" where
  "effective_permission token_cap user_grants requested repo \<longleftrightarrow>
     user_grants_allow user_grants requested repo \<and> cap_allows token_cap requested repo"

section \<open>The evaluator\<close>

datatype authz_decision = Allowed | DeniedGrants | DeniedCap | DeniedBoth

definition is_allowed :: "authz_decision \<Rightarrow> bool" where
  "is_allowed d \<longleftrightarrow> d = Allowed"

fun denial_reason :: "authz_decision \<Rightarrow> string option" where
  "denial_reason Allowed = None"
| "denial_reason DeniedGrants = Some ''grants''"
| "denial_reason DeniedCap = Some ''cap''"
| "denial_reason DeniedBoth = Some ''both''"

fun subject_matches :: "grant_subject \<Rightarrow> string list \<Rightarrow> uuid option \<Rightarrow> bool" where
  "subject_matches (SubjectClaims required) claims user_id = list_all (\<lambda>c. c \<in> set claims) required"
| "subject_matches (SubjectUser uid) claims user_id = (user_id = Some uid)"

abbreviation is_admin_claims :: "string list \<Rightarrow> bool" where
  "is_admin_claims claims \<equiv> ''admin'' \<in> set claims"

definition user_grants_authorize ::
    "permission_grant list \<Rightarrow> caller_principal \<Rightarrow> permission \<Rightarrow> uuid option \<Rightarrow> bool" where
  "user_grants_authorize grants caller permission repository_id =
     (if permission \<noteq> PermReadMetrics \<and> is_admin_claims (pr_claims caller)
      then \<not> (pr_token_kind caller \<in> {Some Pat, Some ServiceAccount} \<and> pr_token_cap caller = None)
      else list_ex (\<lambda>grant.
        pg_permission grant = permission \<and>
        (case pg_repository_id grant of None \<Rightarrow> True | Some scoped \<Rightarrow> repository_id = Some scoped) \<and>
        subject_matches (pg_subject grant) (pr_claims caller) (Some (pr_user_id caller))) grants)"

definition authorize_explained ::
    "permission_grant list \<Rightarrow> caller_principal \<Rightarrow> permission \<Rightarrow> uuid option \<Rightarrow> authz_decision" where
  "authorize_explained grants caller permission repository_id =
     (case (user_grants_authorize grants caller permission repository_id,
            cap_allows_optional_repo (pr_token_cap caller) permission repository_id) of
        (True, True) \<Rightarrow> Allowed
      | (False, True) \<Rightarrow> DeniedGrants
      | (True, False) \<Rightarrow> DeniedCap
      | (False, False) \<Rightarrow> DeniedBoth)"

definition authorize ::
    "permission_grant list \<Rightarrow> caller_principal \<Rightarrow> permission \<Rightarrow> uuid option \<Rightarrow> bool" where
  "authorize grants caller permission repository_id =
     is_allowed (authorize_explained grants caller permission repository_id)"

definition authorize_granted ::
    "permission_grant list \<Rightarrow> caller_principal \<Rightarrow> permission \<Rightarrow> uuid option \<Rightarrow> bool" where
  "authorize_granted grants caller permission repository_id =
     user_grants_authorize grants caller permission repository_id"

definition claims_satisfy :: "caller_principal \<Rightarrow> string list \<Rightarrow> bool" where
  "claims_satisfy caller required =
     (if is_admin_claims (pr_claims caller) then True
      else list_all (\<lambda>c. c \<in> set (pr_claims caller)) required)"

section \<open>Enumerating what is held\<close>

text \<open>The idiom \<^verbatim>\<open>if !out.contains(&x) { out.push(x) }\<close>.\<close>

definition push_unique :: "'a list \<Rightarrow> 'a \<Rightarrow> 'a list" where
  "push_unique out x = (if x \<in> set out then out else out @ [x])"

record effective_grant_set =
  eg_is_global_admin :: bool
  eg_cells :: "(uuid option \<times> permission) list"

definition effective_grants ::
    "permission_grant list \<Rightarrow> string list \<Rightarrow> uuid option \<Rightarrow> bool \<Rightarrow> effective_grant_set" where
  "effective_grants grants claims user_id is_admin =
     (let is_global_admin = is_admin \<or> is_admin_claims claims in
      \<lparr>eg_is_global_admin = is_global_admin,
       eg_cells = foldl (\<lambda>cells grant.
         if is_global_admin \<and> pg_permission grant \<noteq> PermReadMetrics then cells
         else if \<not> subject_matches (pg_subject grant) claims user_id then cells
         else push_unique cells (pg_repository_id grant, pg_permission grant)) [] grants\<rparr>)"

definition dedup_preserving_order :: "permission list \<Rightarrow> permission list" where
  "dedup_preserving_order perms = foldl push_unique [] perms"

definition footprint_candidate_repos :: "effective_grant_set \<Rightarrow> uuid list" where
  "footprint_candidate_repos footprint =
     foldl (\<lambda>out (repo, _). case repo of None \<Rightarrow> out | Some r \<Rightarrow> push_unique out r) [] (eg_cells footprint)"

text \<open>The permission axis of \<open>derive_cli_session_cap\<close>: what is held somewhere, and whether all of it globally.\<close>

definition held_step ::
    "(uuid option \<times> permission) list \<Rightarrow> permission list \<times> bool \<Rightarrow> permission \<Rightarrow> permission list \<times> bool" where
  "held_step cells st perm =
     (case st of (held, all_globally) \<Rightarrow>
       if perm \<in> set held then (held, all_globally)
       else if (None, perm) \<in> set cells then (held @ [perm], all_globally)
       else if list_ex (\<lambda>(r, p). r \<noteq> None \<and> p = perm) cells then (held @ [perm], False)
       else (held, all_globally))"

definition global_cap :: "permission list \<Rightarrow> token_cap" where
  "global_cap permissions =
     \<lparr>cap_permissions = permissions, cap_repository_ids = None, cap_per_repository_permissions = None\<rparr>"

definition derive_cli_session_cap ::
    "permission_grant list \<Rightarrow> caller_principal \<Rightarrow> permission list \<Rightarrow> token_cap option" where
  "derive_cli_session_cap grants caller requested =
     (if is_admin_claims (pr_claims caller) then
        let permissions = filter (\<lambda>p. p \<noteq> PermReadMetrics \<or>
              user_grants_authorize grants caller PermReadMetrics None) (dedup_preserving_order requested)
        in if permissions = [] then None else Some (global_cap permissions)
      else if PermAdmin \<in> set requested then Some (global_cap (dedup_preserving_order requested))
      else
        let footprint = effective_grants grants (pr_claims caller) (Some (pr_user_id caller)) False;
            (held, all_globally) = foldl (held_step (eg_cells footprint)) ([], True) requested
        in if held = [] then None
           else if all_globally then Some (global_cap held)
           else
             let repos = filter (\<lambda>repo. list_all (\<lambda>perm. (None, perm) \<in> set (eg_cells footprint) \<or>
                   (Some repo, perm) \<in> set (eg_cells footprint)) held) (footprint_candidate_repos footprint)
             in if repos = [] then None
                else Some \<lparr>cap_permissions = held, cap_repository_ids = Some repos,
                           cap_per_repository_permissions = None\<rparr>)"

definition service_account_cap_permissions ::
    "permission_grant list \<Rightarrow> uuid \<Rightarrow> permission list \<Rightarrow> permission list" where
  "service_account_cap_permissions grants backing_user_id requested_scope =
     (let footprint = effective_grants grants [] (Some backing_user_id) False;
          held = dedup_preserving_order (map snd (eg_cells footprint))
      in if requested_scope = [] then held
         else filter (\<lambda>p. p \<in> set held) (dedup_preserving_order requested_scope))"

definition resolve_claims :: "claim_mapping list \<Rightarrow> string list \<Rightarrow> string list" where
  "resolve_claims mappings idp_groups =
     foldl (\<lambda>out mapping. if cm_idp_group mapping \<in> set idp_groups then push_unique out (cm_claim mapping) else out)
       [] mappings"

definition add_admin_claim_if_admin :: "string list \<Rightarrow> bool \<Rightarrow> string list" where
  "add_admin_claim_if_admin claims is_admin =
     (if is_admin \<and> \<not> is_admin_claims claims then claims @ [''admin''] else claims)"

section \<open>Lemmas\<close>

interpretation permission_wire: wire_enum permission_to_string permission_from_str
proof
  fix x uni s
  show "is_ascii (permission_to_string x) \<and> to_ascii_lowercase (permission_to_string x) = permission_to_string x"
    by (cases x) (simp_all, code_simp+)
  show "permission_from_str uni s = Inr x \<longleftrightarrow> to_lowercase uni s = permission_to_string x"
    by (cases x) (auto simp: permission_from_str_def Let_def)
qed

lemma set_push_unique [simp]: "set (push_unique out x) = insert x (set out)"
  by (auto simp: push_unique_def)

lemma distinct_push_unique [simp]: "distinct (push_unique out x) = distinct out"
  by (simp add: push_unique_def)

lemma set_foldl_push_unique [simp]: "set (foldl push_unique out xs) = set out \<union> set xs"
  by (induction xs arbitrary: out) auto

lemma distinct_foldl_push_unique [simp]: "distinct (foldl push_unique out xs) = distinct out"
  by (induction xs arbitrary: out) auto

lemma set_dedup_preserving_order [simp]: "set (dedup_preserving_order perms) = set perms"
  by (simp add: dedup_preserving_order_def)

lemma dedup_preserving_order_nil [simp]: "dedup_preserving_order perms = [] \<longleftrightarrow> perms = []"
  by (metis set_dedup_preserving_order set_empty)

text \<open>A cell of the enumeration is a grant whose subject matches.\<close>

definition holds_cell ::
    "permission_grant list \<Rightarrow> string list \<Rightarrow> uuid option \<Rightarrow> uuid option \<times> permission \<Rightarrow> bool" where
  "holds_cell grants claims user_id cell \<longleftrightarrow>
     (\<exists>g\<in>set grants. (pg_repository_id g, pg_permission g) = cell \<and> subject_matches (pg_subject g) claims user_id)"

lemma set_effective_cells:
  "set (eg_cells (effective_grants grants claims user_id is_admin)) =
     {cell. holds_cell grants claims user_id cell \<and>
        ((is_admin \<or> is_admin_claims claims) \<longrightarrow> snd cell = PermReadMetrics)}"
proof -
  define adm where "adm = (is_admin \<or> is_admin_claims claims)"
  have "set (foldl (\<lambda>cells grant.
         if adm \<and> pg_permission grant \<noteq> PermReadMetrics then cells
         else if \<not> subject_matches (pg_subject grant) claims user_id then cells
         else push_unique cells (pg_repository_id grant, pg_permission grant)) out grants) =
     set out \<union> {cell. holds_cell grants claims user_id cell \<and> (adm \<longrightarrow> snd cell = PermReadMetrics)}" for out
    by (induction grants arbitrary: out) (auto simp: holds_cell_def)
  then show ?thesis by (simp add: effective_grants_def Let_def adm_def)
qed

lemma is_global_admin_effective [simp]:
  "eg_is_global_admin (effective_grants grants claims user_id is_admin) \<longleftrightarrow> is_admin \<or> is_admin_claims claims"
  by (simp add: effective_grants_def Let_def)

lemma authorize_iff:
  "authorize grants p perm repo \<longleftrightarrow>
     user_grants_authorize grants p perm repo \<and> cap_allows_optional_repo (pr_token_cap p) perm repo"
  by (simp add: authorize_def authorize_explained_def is_allowed_def split: bool.split)

lemma scope_matches_iff:
  "(case scope of None \<Rightarrow> True | Some scoped \<Rightarrow> repo = Some scoped) \<longleftrightarrow> scope = None \<or> repo \<noteq> None \<and> scope = repo"
  by (cases scope) auto

lemma scan_iff_holds:
  "list_ex (\<lambda>grant. pg_permission grant = perm \<and>
      (case pg_repository_id grant of None \<Rightarrow> True | Some scoped \<Rightarrow> repo = Some scoped) \<and>
      subject_matches (pg_subject grant) claims user_id) grants \<longleftrightarrow>
   holds_cell grants claims user_id (None, perm) \<or> (repo \<noteq> None \<and> holds_cell grants claims user_id (repo, perm))"
  unfolding scope_matches_iff list_ex_iff holds_cell_def by auto

lemma user_grants_authorize_iff:
  "user_grants_authorize grants p perm repo \<longleftrightarrow>
     (if perm \<noteq> PermReadMetrics \<and> is_admin_claims (pr_claims p)
      then \<not> (pr_token_kind p \<in> {Some Pat, Some ServiceAccount} \<and> pr_token_cap p = None)
      else holds_cell grants (pr_claims p) (Some (pr_user_id p)) (None, perm) \<or>
        (repo \<noteq> None \<and> holds_cell grants (pr_claims p) (Some (pr_user_id p)) (repo, perm)))"
  unfolding user_grants_authorize_def scan_iff_holds ..

lemma cap_allows_global [simp]:
  "cap_allows_optional_repo (Some (global_cap perms)) perm repo \<longleftrightarrow> perm \<in> set perms"
  by (simp add: cap_allows_optional_repo_def global_cap_def Let_def)

lemma cap_leg_only_narrows:
  assumes "cap_allows_optional_repo (Some c) perm repo"
  shows "perm \<in> set (cap_permissions c) \<and> (\<forall>ids. cap_repository_ids c = Some ids \<longrightarrow> (\<exists>r\<in>set ids. repo = Some r)) \<and>
    (\<forall>m. cap_per_repository_permissions c = Some m \<longrightarrow> (\<exists>r actions. repo = Some r \<and> m r = Some actions \<and> perm \<in> set actions))"
  using assms by (auto simp: cap_allows_optional_repo_def Let_def split: if_splits option.splits)

subsection \<open>The derived cap\<close>

text \<open>What \<open>held_step\<close> accumulates: the requested permissions held in some cell, and whether each is held globally.\<close>

definition held_somewhere :: "(uuid option \<times> permission) list \<Rightarrow> permission \<Rightarrow> bool" where
  "held_somewhere cells perm \<longleftrightarrow> (\<exists>r. (r, perm) \<in> set cells)"

lemma held_step_eq:
  "held_step cells (held, g) perm =
     (if perm \<in> set held \<or> \<not> held_somewhere cells perm then (held, g) else (held @ [perm], g \<and> (None, perm) \<in> set cells))"
proof -
  have "list_ex (\<lambda>(r, p). r \<noteq> None \<and> p = perm) cells \<longleftrightarrow> (\<exists>r. (Some r, perm) \<in> set cells)"
    by (force simp: list_ex_iff)
  moreover have "held_somewhere cells perm \<longleftrightarrow> (None, perm) \<in> set cells \<or> (\<exists>r. (Some r, perm) \<in> set cells)"
    unfolding held_somewhere_def by (metis option.exhaust)
  ultimately show ?thesis by (simp add: held_step_def)
qed

lemma held_permissions:
  "set (fst (foldl (held_step cells) (held, g) requested)) = set held \<union> {p \<in> set requested. held_somewhere cells p}"
proof (induction requested arbitrary: held g)
  case (Cons p requested)
  then show ?case by (cases "held_somewhere cells p") (auto simp: held_step_eq)
qed simp

lemma all_held_globally:
  "snd (foldl (held_step cells) (held, g) requested) \<longleftrightarrow>
     g \<and> (\<forall>p\<in>set requested. p \<notin> set held \<and> held_somewhere cells p \<longrightarrow> (None, p) \<in> set cells)"
proof (induction requested arbitrary: held g)
  case (Cons p requested)
  show ?case
  proof (cases "p \<in> set held \<or> \<not> held_somewhere cells p")
    case True
    then show ?thesis using Cons by (simp add: held_step_eq) blast
  next
    case False
    then show ?thesis using Cons by (simp add: held_step_eq) blast
  qed
qed simp

lemma set_footprint_candidate_repos:
  "set (footprint_candidate_repos e) = {r. \<exists>p. (Some r, p) \<in> set (eg_cells e)}"
proof -
  have "set (foldl (\<lambda>out (repo, _). case repo of None \<Rightarrow> out | Some r \<Rightarrow> push_unique out r) out cells) =
      set out \<union> {r. \<exists>p. (Some r, p) \<in> set cells}" for out and cells :: "(uuid option \<times> permission) list"
  proof (induction cells arbitrary: out)
    case (Cons cell cells)
    obtain repo p where "cell = (repo, p)" by force
    then show ?case using Cons by (cases repo) auto
  qed simp
  then show ?thesis by (simp add: footprint_candidate_repos_def)
qed

text \<open>The footprint of a caller without the \<open>admin\<close> claim decides its uncapped authority.\<close>

abbreviation footprint_of :: "permission_grant list \<Rightarrow> caller_principal \<Rightarrow> (uuid option \<times> permission) list" where
  "footprint_of grants p \<equiv> eg_cells (effective_grants grants (pr_claims p) (Some (pr_user_id p)) False)"

lemma grants_leg_footprint:
  assumes "\<not> is_admin_claims (pr_claims p)"
  shows "user_grants_authorize grants p perm repo \<longleftrightarrow>
    (None, perm) \<in> set (footprint_of grants p) \<or> repo \<noteq> None \<and> (repo, perm) \<in> set (footprint_of grants p)"
  using assms by (simp add: user_grants_authorize_iff set_effective_cells)

lemma held_somewhere_iff:
  assumes "\<not> is_admin_claims (pr_claims p)"
  shows "held_somewhere (footprint_of grants p) perm \<longleftrightarrow> (\<exists>repo. user_grants_authorize grants p perm repo)"
  unfolding grants_leg_footprint [OF assms] held_somewhere_def by (metis option.exhaust)

lemma derive_non_admin:
  assumes "\<not> is_admin_claims (pr_claims p)" and "PermAdmin \<notin> set requested"
    and "held = fst (foldl (held_step (footprint_of grants p)) ([], True) requested)"
  shows "derive_cli_session_cap grants p requested =
    (if held = [] then None
     else if \<forall>perm\<in>set held. user_grants_authorize grants p perm None then Some (global_cap held)
     else
       let repos = filter (\<lambda>repo. \<forall>perm\<in>set held. user_grants_authorize grants p perm (Some repo))
                     (footprint_candidate_repos (effective_grants grants (pr_claims p) (Some (pr_user_id p)) False))
       in if repos = [] then None
          else Some \<lparr>cap_permissions = held, cap_repository_ids = Some repos, cap_per_repository_permissions = None\<rparr>)"
proof -
  have set_held: "set held = {q \<in> set requested. held_somewhere (footprint_of grants p) q}"
    by (simp add: assms(3) held_permissions)
  have glob: "snd (foldl (held_step (footprint_of grants p)) ([], True) requested) \<longleftrightarrow>
      (\<forall>perm\<in>set held. user_grants_authorize grants p perm None)"
    by (auto simp: all_held_globally set_held grants_leg_footprint [OF assms(1)])
  show ?thesis
    using assms(1,2)
    by (simp add: derive_cli_session_cap_def Let_def case_prod_beta assms(3) [symmetric] glob list_all_iff
        grants_leg_footprint [OF assms(1)])
qed

section \<open>Properties\<close>

text \<open>
  C24. The enumeration of held permissions and the decision agree, for every caller. A permission is
  granted on a repository, or at system level, exactly if the caller's token cap allows it and the
  enumeration marks the caller as a global administrator and the permission is not the metrics one, or
  lists the permission globally, or lists it for that very repository. The one exception is the
  fail-closed one: a personal or service-account token that carries no cap gets nothing from the
  administrator claim.
\<close>

theorem enumeration_agrees_with_decision:
  "authorize grants p perm repo \<longleftrightarrow>
    (let e = effective_grants grants (pr_claims p) (Some (pr_user_id p)) False in
     cap_allows_optional_repo (pr_token_cap p) perm repo \<and>
     (eg_is_global_admin e \<and> perm \<noteq> PermReadMetrics \<and>
        \<not> (pr_token_kind p \<in> {Some Pat, Some ServiceAccount} \<and> pr_token_cap p = None) \<or>
      (None, perm) \<in> set (eg_cells e) \<or> repo \<noteq> None \<and> (repo, perm) \<in> set (eg_cells e)))"
  unfolding Let_def authorize_iff user_grants_authorize_iff set_effective_cells by auto

text \<open>The cap as far as the session's own kind of caller goes.\<close>

lemma derived_session_cap:
  assumes "pr_token_kind p \<notin> {Some Pat, Some ServiceAccount}"
    and "is_admin_claims (pr_claims p) \<or> PermAdmin \<notin> set requested"
    and "held = {q \<in> set requested. \<exists>repo. user_grants_authorize grants p q repo}"
    and "globally = {q \<in> set requested. user_grants_authorize grants p q None}"
  shows "case derive_cli_session_cap grants p requested of
      None \<Rightarrow>
        if is_admin_claims (pr_claims p) then globally = {}
        else held = {} \<or> (\<forall>r. \<exists>q\<in>held. \<not> user_grants_authorize grants p q (Some r))
    | Some cap \<Rightarrow> cap_permissions cap \<noteq> [] \<and> cap_per_repository_permissions cap = None \<and>
       (case cap_repository_ids cap of
          None \<Rightarrow> set (cap_permissions cap) = globally \<and> (is_admin_claims (pr_claims p) \<or> globally = held)
        | Some repos \<Rightarrow> set (cap_permissions cap) = held \<and> repos \<noteq> [] \<and>
            set repos = {r. \<forall>q\<in>held. user_grants_authorize grants p q (Some r)})"
proof (cases "is_admin_claims (pr_claims p)")
  case True
  let ?perms = "filter (\<lambda>q. q \<noteq> PermReadMetrics \<or> user_grants_authorize grants p PermReadMetrics None)
      (dedup_preserving_order requested)"
  have glob: "set ?perms = globally"
    using True assms(1) by (auto simp: assms(4) user_grants_authorize_iff)
  then have "?perms = [] \<longleftrightarrow> globally = {}" by (metis set_empty)
  then show ?thesis
    using True glob unfolding derive_cli_session_cap_def Let_def global_cap_def by simp
next
  case False
  define hs where "hs = fst (foldl (held_step (footprint_of grants p)) ([], True) requested)"
  have held: "set hs = held"
    by (simp add: hs_def held_permissions assms(3) held_somewhere_iff [OF False])
  have nil: "hs = [] \<longleftrightarrow> held = {}" using held by auto
  define repos where "repos = filter (\<lambda>repo. \<forall>q\<in>held. user_grants_authorize grants p q (Some repo)) (footprint_candidate_repos
      (effective_grants grants (pr_claims p) (Some (pr_user_id p)) False))"
  have repos: "set repos = {r. \<forall>q\<in>held. user_grants_authorize grants p q (Some r)}"
    if "\<not> (\<forall>q\<in>held. user_grants_authorize grants p q None)"
    using that by (auto simp: repos_def set_footprint_candidate_repos grants_leg_footprint [OF False])
  have glob: "globally = held" if "\<forall>q\<in>held. user_grants_authorize grants p q None"
    using that by (auto simp: assms(3,4))
  note derive = derive_non_admin [OF False _ hs_def, unfolded held Let_def, folded repos_def]
  show ?thesis
  proof (cases "held = {} \<or> (\<forall>q\<in>held. user_grants_authorize grants p q None)")
    case True
    then show ?thesis
      using False assms(2) held nil glob by (auto simp: derive global_cap_def)
  next
    case nonglobal: False
    then have rs: "set repos = {r. \<forall>q\<in>held. user_grants_authorize grants p q (Some r)}" by (simp add: repos)
    have "repos = [] \<longleftrightarrow> (\<forall>r. \<exists>q\<in>held. \<not> user_grants_authorize grants p q (Some r))"
      unfolding set_empty [symmetric] rs by auto
    then show ?thesis
      using False nonglobal assms(2) held nil rs by (auto simp: derive)
  qed
qed

lemma derive_ignores_kind:
  "derive_cli_session_cap grants (p\<lparr>pr_token_kind := k\<rparr>) requested = derive_cli_session_cap grants p requested"
  by (simp add: derive_cli_session_cap_def user_grants_authorize_def cong: if_cong)

text \<open>
  C23. A cap derived for a session is exactly what the caller may use. What the caller holds is what its
  claims and grants give, whatever kind of token it presented. Only requested permissions the
  caller holds are in the cap. If it is for all repositories, its permissions are the requested ones the
  caller holds globally, and, without the administrator claim, these are all it holds anywhere; if it is
  limited to repositories, its permissions are the requested ones the caller holds anywhere, and the
  repositories exactly those on which the caller holds all of them. If there is no cap, an administrator
  holds none of the requested permissions globally, and a caller without that claim holds none of them
  at all, or there is no repository on which it holds all of those it holds anywhere. The exception the
  code makes: a caller without the administrator claim that asks for the administrator permission gets
  the request back, without repetitions, for the issuance gate to refuse.
\<close>

theorem derived_cap_is_exact:
  fixes p :: caller_principal and grants :: "permission_grant list" and requested :: "permission list"
  defines "bare \<equiv> p\<lparr>pr_token_kind := None\<rparr>"
  defines "held \<equiv> {q \<in> set requested. \<exists>repo. user_grants_authorize grants bare q repo}"
  defines "globally \<equiv> {q \<in> set requested. user_grants_authorize grants bare q None}"
  shows "if \<not> is_admin_claims (pr_claims p) \<and> PermAdmin \<in> set requested
    then derive_cli_session_cap grants p requested = Some (global_cap (dedup_preserving_order requested))
    else case derive_cli_session_cap grants p requested of
      None \<Rightarrow>
        if is_admin_claims (pr_claims p) then globally = {}
        else held = {} \<or> (\<forall>r. \<exists>q\<in>held. \<not> user_grants_authorize grants bare q (Some r))
    | Some cap \<Rightarrow> cap_permissions cap \<noteq> [] \<and> cap_per_repository_permissions cap = None \<and>
       (case cap_repository_ids cap of
          None \<Rightarrow> set (cap_permissions cap) = globally \<and> (is_admin_claims (pr_claims p) \<or> globally = held)
        | Some repos \<Rightarrow> set (cap_permissions cap) = held \<and> repos \<noteq> [] \<and>
            set repos = {r. \<forall>q\<in>held. user_grants_authorize grants bare q (Some r)})"
proof (cases "\<not> is_admin_claims (pr_claims p) \<and> PermAdmin \<in> set requested")
  case True
  then show ?thesis by (simp add: derive_cli_session_cap_def)
next
  case False
  have same: "pr_claims bare = pr_claims p" "derive_cli_session_cap grants bare requested = derive_cli_session_cap grants p requested"
    by (simp_all add: bare_def derive_ignores_kind)
  have kind: "pr_token_kind bare \<notin> {Some Pat, Some ServiceAccount}" by (simp add: bare_def)
  have "is_admin_claims (pr_claims bare) \<or> PermAdmin \<notin> set requested" using False same by simp
  note cap = derived_session_cap [OF kind this held_def [THEN meta_eq_to_obj_eq] globally_def [THEN meta_eq_to_obj_eq], unfolded same]
  show ?thesis unfolding if_not_P [OF False] by (rule cap)
qed

text \<open>A caller with global read and write on one repository, for the witnesses.\<close>

definition sample_grants :: "permission_grant list" where
  "sample_grants =
     [\<lparr>pg_id = 1, pg_subject = SubjectClaims [''dev''], pg_repository_id = None, pg_permission = PermRead,
       pg_managed_by = ManagedGitOps, pg_managed_by_digest = None, pg_created_at = 0\<rparr>,
      \<lparr>pg_id = 2, pg_subject = SubjectUser 7, pg_repository_id = Some 11, pg_permission = PermWrite,
       pg_managed_by = ManagedGitOps, pg_managed_by_digest = None, pg_created_at = 0\<rparr>]"

definition sample_caller :: caller_principal where
  "sample_caller = \<lparr>pr_user_id = 7, pr_external_id = ''ext'', pr_username = ''dev'', pr_email = [], pr_claims = [''dev''],
     pr_token_kind = None, pr_issued_at = 0, pr_token_cap = None\<rparr>"

theorem derived_cap_is_exact_witness:
  "derive_cli_session_cap sample_grants sample_caller [PermWrite, PermRead, PermDelete] =
     Some \<lparr>cap_permissions = [PermWrite, PermRead], cap_repository_ids = Some [11], cap_per_repository_permissions = None\<rparr> \<and>
   {PermWrite, PermRead} = {q \<in> {PermWrite, PermRead, PermDelete}. \<exists>repo. user_grants_authorize sample_grants sample_caller q repo}"
proof
  show derive: "derive_cli_session_cap sample_grants sample_caller [PermWrite, PermRead, PermDelete] =
     Some \<lparr>cap_permissions = [PermWrite, PermRead], cap_repository_ids = Some [11], cap_per_repository_permissions = None\<rparr>"
    by (simp add: derive_cli_session_cap_def sample_caller_def sample_grants_def effective_grants_def push_unique_def
        held_step_def footprint_candidate_repos_def)
  show "{PermWrite, PermRead} = {q \<in> {PermWrite, PermRead, PermDelete}. \<exists>repo. user_grants_authorize sample_grants sample_caller q repo}"
    using derived_cap_is_exact [of sample_caller "[PermWrite, PermRead, PermDelete]" sample_grants] derive
    by (simp add: sample_caller_def)
qed

end
