(* ===== verification/Api_Tokens.thy ===== *)
theory Api_Tokens
  imports Access_Control Findings
begin

text \<open>
  Issuing and revoking tokens: \<^verbatim>\<open>hort-app/src/use_cases/api_token_use_case.rs\<close>, with the token row and
  its audit events from \<^verbatim>\<open>hort-domain\<close>, the token table of \<^verbatim>\<open>hort-adapters-postgres/src/api_token_repo.rs\<close>
  and the replay guard of \<^verbatim>\<open>replay_guard_repo.rs\<close>. One issuance is a function from the state (the token
  table, the audit events on the user streams, the set of federated tokens already redeemed) to a
  result and a new state, with the ports' outcomes as arguments: the users found, the grants in force,
  the result of each attempt to append an audit event, database faults, clock readings and random
  bytes. Argon2 and the session signer are third-party and are functions of the environment.
\<close>

section \<open>Rows, requests and events\<close>

datatype auth_provider = AuthLocal | AuthLdap | AuthSaml | AuthOidc

record user =
  us_id :: uuid
  us_username :: string
  us_email :: string
  us_auth_provider :: auth_provider
  us_external_id :: "string option"
  us_display_name :: "string option"
  us_is_active :: bool
  us_is_admin :: bool
  us_is_service_account :: bool
  us_last_login_at :: "timestamp option"
  us_created_at :: timestamp
  us_updated_at :: timestamp

record api_token =
  tk_id :: uuid
  tk_user_id :: uuid
  tk_name :: string
  tk_description :: "string option"
  tk_kind :: token_kind
  tk_token_hash :: string
  tk_token_prefix :: string
  tk_declared_permissions :: "permission list"
  tk_repository_ids :: "uuid list option"
  tk_expires_at :: "timestamp option"
  tk_revoked_at :: "timestamp option"
  tk_last_used_at :: "timestamp option"
  tk_last_used_ip :: "string option"
  tk_last_used_user_agent :: "string option"
  tk_created_by_user_id :: uuid
  tk_created_at :: timestamp

datatype revoke_reason = OperatorRequest | AdminBulk

datatype token_denial_reason =
    DenyCapExceedsAuthority | DenyServiceAccountSelfMint | DenyAdminTokenDisallowed |
    DenyUnboundedSvcTokenDisallowed | DenyInvalidRepositorySet | DenyAdminTokenExceedsThirtyDays |
    DenyNotServiceAccount | DenyBootstrapAdminMintForbidden

record api_token_issued =
  ti_token_id :: uuid
  ti_user_id :: uuid
  ti_kind :: token_kind
  ti_declared_permissions :: "permission list"
  ti_repository_ids :: "uuid list option"
  ti_expires_at :: "timestamp option"
  ti_minted_by_admin_id :: "uuid option"
  ti_at :: timestamp
  ti_source_issuer :: "string option"
  ti_source_jti :: "string option"
  ti_source_sub :: "string option"

record api_token_revoked =
  tr_token_id :: uuid
  tr_user_id :: uuid
  tr_revoked_by_admin_id :: "uuid option"
  tr_reason :: revoke_reason
  tr_at :: timestamp

record api_token_issuance_denied =
  td_target_user_id :: uuid
  td_requested_kind :: token_kind
  td_requested_permissions :: "permission list"
  td_requested_repository_ids :: "uuid list option"
  td_denial_reason :: token_denial_reason
  td_at :: timestamp

datatype token_event =
    EApiTokenIssued api_token_issued
  | EApiTokenRevoked api_token_revoked
  | EApiTokenIssuanceDenied api_token_issuance_denied

record api_token_issuance_config =
  ic_allow_admin_tokens :: bool
  ic_allow_unbounded_svc_tokens :: bool

record federation_source =
  fs_issuer :: string
  fs_jti :: "string option"
  fs_subject :: string
  fs_iss :: string
  fs_iat :: "int option"
  fs_exp :: int
  fs_require_jti :: bool

record issue_token_request =
  rq_name :: string
  rq_description :: "string option"
  rq_declared_permissions :: "permission list"
  rq_repository_ids :: "uuid list option"
  rq_expires_in_days :: "u32 option"
  rq_expires_in_seconds :: "u64 option"
  rq_federation_source :: "federation_source option"

record issue_cli_session_request =
  cq_client_name :: "string option"
  cq_source_ip :: string
  cq_requested_scope :: "permission list"
  cq_requested_lifetime_secs :: "u64 option"

record issued_token =
  it_id :: uuid
  it_name :: string
  it_kind :: token_kind
  it_plaintext :: string
  it_expires_at :: "timestamp option"

datatype token_msg =
    Argon2HashFailed
  | TokenAlreadyExists
  | PortFailed
  | UnboundedCliSession
  | SignerNotConfigured
  | SessionMintFailed
  | ExpNotRepresentable

datatype api_token_error =
    CapExceedsAuthority "(uuid option \<times> permission) list"
  | ServiceAccountSelfMint
  | BootstrapAdminMintForbidden
  | AdminTokenDisallowed
  | AdminAuthorityRequired
  | AdminTokenExceedsThirtyDays
  | AdminTokenUnboundedNotAllowed
  | UnboundedSvcTokenDisallowed
  | InvalidRepositorySet
  | NotServiceAccount
  | NotAuthorized
  | TokenNotFound
  | NameEmpty
  | NameTooLong
  | DescriptionTooLong
  | ExpiryZero
  | ExpiryTooLong
  | LifetimeBelowMinimum
  | ExpiryUnitConflict
  | ReplayDetected bool
  | ReplayGuardUnavailable
  | JtiRequired
  | TokenContended
  | TokenInfrastructure "token_msg domain_error"

section \<open>Constants\<close>

definition max_description_len :: nat where "max_description_len = 1024"
definition max_token_name_len :: nat where "max_token_name_len = 255"
definition default_pat_expiry_days :: int where "default_pat_expiry_days = 90"
definition default_svc_expiry_days :: int where "default_svc_expiry_days = 365"
definition max_expiry_days :: u32 where "max_expiry_days = 365"
definition max_admin_expiry_days :: u32 where "max_admin_expiry_days = 30"
definition max_bootstrap_admin_lifetime_secs :: u64 where "max_bootstrap_admin_lifetime_secs = 3600"
definition bootstrap_admin_username :: string where "bootstrap_admin_username = ''bootstrap-admin''"
definition min_cli_session_lifetime_secs :: u64 where "min_cli_session_lifetime_secs = 300"
definition max_admin_cli_session_lifetime_secs :: u64 where "max_admin_cli_session_lifetime_secs = 900"
definition max_non_admin_cli_session_lifetime_secs :: u64 where "max_non_admin_cli_session_lifetime_secs = 900"
definition default_cli_session_lifetime_secs :: u64 where "default_cli_session_lifetime_secs = 900"
definition event_append_retry_attempts :: nat where "event_append_retry_attempts = 5"

abbreviation secs :: "int \<Rightarrow> duration" where "secs n \<equiv> n * nanos_per_sec"
abbreviation days :: "int \<Rightarrow> duration" where "days n \<equiv> secs (n * 86400)"

section \<open>The state and the ports\<close>

record token_store =
  ts_tokens :: "api_token list"
  ts_events :: "(uuid \<times> token_event) list"
  ts_seen :: "((string \<times> string \<times> string) \<times> timestamp) list"

record token_ports =
  tp_find_user :: "uuid \<Rightarrow> token_msg domain_error + user"
  tp_grants :: "permission_grant list"
  tp_config :: api_token_issuance_config
  tp_append :: "nat \<Rightarrow> token_msg domain_error + unit"
  tp_read_fault :: "token_msg domain_error option"
  tp_write_fault :: "token_msg domain_error option"
  tp_replay_guard :: "bool option"
  tp_gate_now :: timestamp
  tp_row_now :: timestamp
  tp_new_id :: uuid
  tp_random :: "u8 list"
  tp_hash_token :: "string \<Rightarrow> string option"
  tp_sha256_hex :: "string \<Rightarrow> string"
  tp_from_timestamp :: "int \<Rightarrow> timestamp option"
  tp_signer :: "(uuid \<Rightarrow> string list \<Rightarrow> uuid \<Rightarrow> timestamp \<Rightarrow> string option) option"

type_synonym 'a token_result = "(api_token_error + 'a) \<times> token_store"

text \<open>
  \<^verbatim>\<open>append_any_with_conflict_retry\<close>: the outcome of the \<open>n\<close>-th attempt is an argument; only a conflict is
  retried, and at most \<open>attempts\<close> attempts are made.
\<close>

function append_any_with_conflict_retry ::
    "(nat \<Rightarrow> 'm domain_error + 'r) \<Rightarrow> nat \<Rightarrow> nat \<Rightarrow> 'm domain_error + 'r" where
  "append_any_with_conflict_retry try_append attempts attempt =
     (case try_append attempt of
        Inr result \<Rightarrow> Inr result
      | Inl (Conflict m) \<Rightarrow>
          if attempt < attempts then append_any_with_conflict_retry try_append attempts (attempt + 1)
          else Inl (Conflict m)
      | Inl err \<Rightarrow> Inl err)"
  by pat_completeness auto

termination by (relation "measure (\<lambda>(_, attempts, attempt). attempts - attempt)") auto

declare append_any_with_conflict_retry.simps [simp del]

definition is_conflict :: "'m domain_error + 'r \<Rightarrow> bool" where
  "is_conflict r = (case r of Inl (Conflict _) \<Rightarrow> True | _ \<Rightarrow> False)"

lemma append_any_with_conflict_retry_eq:
  "append_any_with_conflict_retry try_append attempts attempt =
     (if is_conflict (try_append attempt) \<and> attempt < attempts
      then append_any_with_conflict_retry try_append attempts (attempt + 1) else try_append attempt)"
  by (subst append_any_with_conflict_retry.simps, cases "try_append attempt")
    (auto simp: is_conflict_def split: domain_error.split)

interpretation conflict: bounded_retry "append_any_with_conflict_retry try_append" "\<lambda>attempt. attempt" try_append
  is_conflict "\<lambda>attempt. attempt + 1" for try_append
  by unfold_locales (rule append_any_with_conflict_retry_eq, simp)

definition append_user_event :: "token_ports \<Rightarrow> token_store \<Rightarrow> uuid \<Rightarrow> token_event \<Rightarrow> (token_msg domain_error + unit) \<times> token_store" where
  "append_user_event ports st user_id event =
     (case append_any_with_conflict_retry (tp_append ports) event_append_retry_attempts 1 of
        Inl e \<Rightarrow> (Inl e, st)
      | Inr _ \<Rightarrow> (Inr (), st\<lparr>ts_events := ts_events st @ [(user_id, event)]\<rparr>))"

text \<open>The \<^verbatim>\<open>?\<close> on an operation that also changes the state.\<close>

definition and_then_st :: "('e + 'a) \<times> 's \<Rightarrow> ('a \<Rightarrow> 's \<Rightarrow> ('e + 'b) \<times> 's) \<Rightarrow> ('e + 'b) \<times> 's" where
  "and_then_st r f = (case r of (Inl e, st) \<Rightarrow> (Inl e, st) | (Inr x, st) \<Rightarrow> f x st)"

definition infra :: "(token_msg domain_error + 'a) \<times> token_store \<Rightarrow> 'a token_result" where
  "infra r = (case r of (Inl e, st) \<Rightarrow> (Inl (TokenInfrastructure e), st) | (Inr x, st) \<Rightarrow> (Inr x, st))"

definition find_user :: "token_ports \<Rightarrow> uuid \<Rightarrow> token_store \<Rightarrow> user token_result" where
  "find_user ports user_id st = infra (tp_find_user ports user_id, st)"

definition emit_denial ::
    "token_ports \<Rightarrow> timestamp \<Rightarrow> uuid \<Rightarrow> uuid \<Rightarrow> token_kind \<Rightarrow> issue_token_request \<Rightarrow> token_denial_reason
     \<Rightarrow> token_store \<Rightarrow> unit token_result" where
  "emit_denial ports now actor_user_id target_user_id requested_kind request reason st =
     infra (append_user_event ports st actor_user_id (EApiTokenIssuanceDenied
       \<lparr>td_target_user_id = target_user_id, td_requested_kind = requested_kind,
        td_requested_permissions = rq_declared_permissions request,
        td_requested_repository_ids = rq_repository_ids request, td_denial_reason = reason, td_at = now\<rparr>))"

text \<open>Every refusal on authority grounds is audited first; if the audit event cannot be written, that is the error.\<close>

definition deny ::
    "token_ports \<Rightarrow> uuid \<Rightarrow> uuid \<Rightarrow> token_kind \<Rightarrow> issue_token_request \<Rightarrow> token_denial_reason \<Rightarrow> api_token_error
     \<Rightarrow> token_store \<Rightarrow> 'a token_result" where
  "deny ports actor_user_id target_user_id kind request reason err st =
     and_then_st (emit_denial ports (tp_gate_now ports) actor_user_id target_user_id kind request reason st)
       (\<lambda>_ st'. (Inl err, st'))"

section \<open>The gates\<close>

definition validate_request :: "issue_token_request \<Rightarrow> api_token_error + unit" where
  "validate_request request =
     (if rq_expires_in_days request \<noteq> None \<and> rq_expires_in_seconds request \<noteq> None
      then Inl ExpiryUnitConflict else Inr ())"

text \<open>Name and description, checked by both issuance paths.\<close>

definition check_texts :: "issue_token_request \<Rightarrow> api_token_error + unit" where
  "check_texts request =
     (if trim (rq_name request) = [] then Inl NameEmpty
      else if max_token_name_len < length (rq_name request) then Inl NameTooLong
      else (case rq_description request of
              Some d \<Rightarrow> if max_description_len < length d then Inl DescriptionTooLong else Inr ()
            | None \<Rightarrow> Inr ()))"

abbreviation principal_is_admin :: "caller_principal \<Rightarrow> bool" where
  "principal_is_admin p \<equiv> is_admin_claims (pr_claims p)"

definition resolve_expiry ::
    "token_ports \<Rightarrow> uuid \<Rightarrow> caller_principal \<Rightarrow> user \<Rightarrow> token_kind \<Rightarrow> issue_token_request \<Rightarrow> token_store
     \<Rightarrow> (timestamp option) token_result" where
  "resolve_expiry ports actor_user_id caller target kind request st =
     (let now = tp_gate_now ports in
      case rq_expires_in_seconds request of
        Some n \<Rightarrow> (Inr (Some (now + secs (sint n))), st)
      | None \<Rightarrow>
          if PermAdmin \<in> set (rq_declared_permissions request) then
            (case rq_expires_in_days request of
               None \<Rightarrow> deny ports actor_user_id (us_id target) kind request DenyAdminTokenExceedsThirtyDays
                         AdminTokenUnboundedNotAllowed st
             | Some n \<Rightarrow>
                 if \<not> (1 \<le> n \<and> n \<le> max_admin_expiry_days)
                 then deny ports actor_user_id (us_id target) kind request DenyAdminTokenExceedsThirtyDays
                        AdminTokenExceedsThirtyDays st
                 else (Inr (Some (now + days (uint n))), st))
          else
            (case rq_expires_in_days request of
               Some n \<Rightarrow>
                 if n = 0 then (Inl ExpiryZero, st)
                 else if max_expiry_days < n then (Inl ExpiryTooLong, st)
                 else (Inr (Some (now + days (uint n))), st)
             | None \<Rightarrow>
                 (case kind of
                    ServiceAccount \<Rightarrow>
                      if \<not> ic_allow_unbounded_svc_tokens (tp_config ports) \<or> \<not> principal_is_admin caller
                      then deny ports actor_user_id (us_id target) kind request DenyUnboundedSvcTokenDisallowed
                             UnboundedSvcTokenDisallowed st
                      else (Inr None, st)
                  | Pat \<Rightarrow> (Inr (Some (now + days default_pat_expiry_days)), st)
                  | CliSession \<Rightarrow> (Inr (Some (now + secs (uint default_cli_session_lifetime_secs))), st))))"

definition failed_cells :: "permission_grant list \<Rightarrow> caller_principal \<Rightarrow> issue_token_request \<Rightarrow> (uuid option \<times> permission) list" where
  "failed_cells grants authz_subject request =
     (case rq_repository_ids request of
        None \<Rightarrow> map (\<lambda>perm. (None, perm))
                  (filter (\<lambda>perm. \<not> authorize grants authz_subject perm None) (rq_declared_permissions request))
      | Some ids \<Rightarrow> concat (map (\<lambda>repo. map (\<lambda>perm. (Some repo, perm))
                  (filter (\<lambda>perm. \<not> authorize grants authz_subject perm (Some repo)) (rq_declared_permissions request))) ids))"

definition run_issuance_gates ::
    "token_ports \<Rightarrow> uuid \<Rightarrow> caller_principal \<Rightarrow> caller_principal \<Rightarrow> user \<Rightarrow> token_kind \<Rightarrow> issue_token_request
     \<Rightarrow> token_store \<Rightarrow> (timestamp option) token_result" where
  "run_issuance_gates ports actor_user_id caller authz_subject target kind request st =
     (if us_username target = bootstrap_admin_username
      then deny ports actor_user_id (us_id target) kind request DenyBootstrapAdminMintForbidden BootstrapAdminMintForbidden st
      else case and_then (validate_request request) (\<lambda>_. check_texts request) of
        Inl e \<Rightarrow> (Inl e, st)
      | Inr _ \<Rightarrow>
          if rq_repository_ids request = Some []
          then deny ports actor_user_id (us_id target) kind request DenyInvalidRepositorySet InvalidRepositorySet st
          else if PermAdmin \<in> set (rq_declared_permissions request) \<and> \<not> ic_allow_admin_tokens (tp_config ports)
          then deny ports actor_user_id (us_id target) kind request DenyAdminTokenDisallowed AdminTokenDisallowed st
          else if PermAdmin \<in> set (rq_declared_permissions request) \<and> \<not> principal_is_admin caller
          then deny ports actor_user_id (us_id target) kind request DenyAdminTokenDisallowed AdminAuthorityRequired st
          else and_then_st (resolve_expiry ports actor_user_id caller target kind request st) (\<lambda>expires_at st'.
            let failed = failed_cells (tp_grants ports) authz_subject request in
            if failed \<noteq> []
            then deny ports actor_user_id (us_id target) kind request DenyCapExceedsAuthority (CapExceedsAuthority failed) st'
            else (Inr expires_at, st')))"

section \<open>Token texts\<close>

definition base32_alphabet :: string where
  "base32_alphabet = ''abcdefghijklmnopqrstuvwxyz234567''"

text \<open>The inner \<^verbatim>\<open>while bits_left >= 5\<close> loop of \<^verbatim>\<open>encode_base32_lowercase\<close>.\<close>

fun base32_flush :: "u32 \<Rightarrow> nat \<Rightarrow> string \<Rightarrow> string \<times> nat" where
  "base32_flush buffer bits_left out =
     (if 5 \<le> bits_left
      then base32_flush buffer (bits_left - 5)
             (out @ [base32_alphabet ! unat (and (drop_bit (bits_left - 5) buffer) 31)])
      else (out, bits_left))"

declare base32_flush.simps [simp del]

fun base32_loop :: "u32 \<Rightarrow> nat \<Rightarrow> string \<Rightarrow> u8 list \<Rightarrow> string" where
  "base32_loop buffer bits_left out [] = out"
| "base32_loop buffer bits_left out (b # bs) =
     (let buffer' = or (push_bit 8 buffer) (ucast b);
          (out', bits_left') = base32_flush buffer' (bits_left + 8) out
      in base32_loop buffer' bits_left' out' bs)"

definition encode_base32_lowercase :: "u8 list \<Rightarrow> string" where
  "encode_base32_lowercase bytes = base32_loop 0 0 [] bytes"

fun token_kind_prefix :: "token_kind \<Rightarrow> string" where
  "token_kind_prefix Pat = ''pat''"
| "token_kind_prefix ServiceAccount = ''svc''"
| "token_kind_prefix CliSession = ''cli''"

definition token_prefix_len :: nat where "token_prefix_len = 8"

definition generate_token_plaintext :: "u8 list \<Rightarrow> token_kind \<Rightarrow> string \<times> string" where
  "generate_token_plaintext random kind =
     (let body = encode_base32_lowercase random
      in (''hort_'' @ token_kind_prefix kind @ ''_'' @ body, take token_prefix_len body))"

section \<open>The token table\<close>

definition insert_token :: "token_ports \<Rightarrow> api_token \<Rightarrow> token_store \<Rightarrow> unit token_result" where
  "insert_token ports token st =
     infra (case tp_write_fault ports of
        Some e \<Rightarrow> (Inl e, st)
      | None \<Rightarrow>
          if tk_id token \<in> tk_id ` set (ts_tokens st) then (Inl (Conflict TokenAlreadyExists), st)
          else (Inr (), st\<lparr>ts_tokens := ts_tokens st @ [token]\<rparr>))"

text \<open>
  The lookup is a \<^verbatim>\<open>LIMIT 1\<close> without an \<^verbatim>\<open>ORDER BY\<close> over a prefix that is not unique: \<open>order\<close> is the order in which
  the database visits the rows.
\<close>

definition find_token_by_prefix ::
    "(api_token list \<Rightarrow> api_token list) \<Rightarrow> string \<Rightarrow> token_store \<Rightarrow> api_token option" where
  "find_token_by_prefix order body_prefix st = find (\<lambda>t. tk_token_prefix t = body_prefix) (order (ts_tokens st))"

definition find_token_by_id :: "uuid \<Rightarrow> token_store \<Rightarrow> api_token option" where
  "find_token_by_id i st = find (\<lambda>t. tk_id t = i) (ts_tokens st)"

definition revoke_row :: "timestamp \<Rightarrow> uuid \<Rightarrow> token_store \<Rightarrow> token_store" where
  "revoke_row now i st =
     st\<lparr>ts_tokens := map (\<lambda>t. if tk_id t = i \<and> tk_revoked_at t = None then t\<lparr>tk_revoked_at := Some now\<rparr> else t) (ts_tokens st)\<rparr>"

section \<open>Issuing\<close>

definition issued_event :: "api_token \<Rightarrow> uuid option \<Rightarrow> timestamp \<Rightarrow> federation_source option \<Rightarrow> token_event" where
  "issued_event token minted_by now source = EApiTokenIssued
     \<lparr>ti_token_id = tk_id token, ti_user_id = tk_user_id token, ti_kind = tk_kind token,
      ti_declared_permissions = tk_declared_permissions token, ti_repository_ids = tk_repository_ids token,
      ti_expires_at = tk_expires_at token, ti_minted_by_admin_id = minted_by, ti_at = now,
      ti_source_issuer = map_option fs_issuer source, ti_source_jti = Option.bind source fs_jti,
      ti_source_sub = map_option fs_subject source\<rparr>"

definition token_row ::
    "token_ports \<Rightarrow> user \<Rightarrow> token_kind \<Rightarrow> string \<Rightarrow> string option \<Rightarrow> permission list \<Rightarrow> uuid list option \<Rightarrow> timestamp option
     \<Rightarrow> uuid \<Rightarrow> string \<Rightarrow> string \<Rightarrow> api_token" where
  "token_row ports target kind name description declared repos expires_at created_by token_hash body_prefix =
     \<lparr>tk_id = tp_new_id ports, tk_user_id = us_id target, tk_name = name, tk_description = description,
      tk_kind = kind, tk_token_hash = token_hash, tk_token_prefix = body_prefix,
      tk_declared_permissions = declared, tk_repository_ids = repos, tk_expires_at = expires_at,
      tk_revoked_at = None, tk_last_used_at = None, tk_last_used_ip = None, tk_last_used_user_agent = None,
      tk_created_by_user_id = created_by, tk_created_at = tp_row_now ports\<rparr>"

definition hash_plaintext :: "token_ports \<Rightarrow> string \<Rightarrow> api_token_error + string" where
  "hash_plaintext ports plaintext =
     (case tp_hash_token ports plaintext of
        None \<Rightarrow> Inl (TokenInfrastructure (Invariant Argon2HashFailed))
      | Some h \<Rightarrow> Inr h)"

definition issued :: "api_token \<Rightarrow> string \<Rightarrow> issued_token" where
  "issued token plaintext = \<lparr>it_id = tk_id token, it_name = tk_name token, it_kind = tk_kind token,
     it_plaintext = plaintext, it_expires_at = tk_expires_at token\<rparr>"

definition issue_inner ::
    "token_ports \<Rightarrow> uuid \<Rightarrow> caller_principal \<Rightarrow> caller_principal \<Rightarrow> user \<Rightarrow> token_kind \<Rightarrow> issue_token_request
     \<Rightarrow> token_store \<Rightarrow> issued_token token_result" where
  "issue_inner ports actor_user_id caller authz_subject target kind request st =
     and_then_st (run_issuance_gates ports actor_user_id caller authz_subject target kind request st) (\<lambda>expires_at st1.
       let (plaintext, body_prefix) = generate_token_plaintext (tp_random ports) kind in
       case hash_plaintext ports plaintext of
         Inl e \<Rightarrow> (Inl e, st1)
       | Inr token_hash \<Rightarrow>
           let token = token_row ports target kind (rq_name request) (rq_description request)
                 (rq_declared_permissions request) (rq_repository_ids request) expires_at actor_user_id token_hash body_prefix;
               minted_by = (if actor_user_id = us_id target then None else Some actor_user_id)
           in and_then_st (insert_token ports token st1) (\<lambda>_ st2.
                and_then_st (infra (append_user_event ports st2 (us_id target)
                    (issued_event token minted_by (tp_row_now ports) (rq_federation_source request)))) (\<lambda>_ st3.
                  (Inr (issued token plaintext), st3))))"

definition issue_self_token ::
    "token_ports \<Rightarrow> caller_principal \<Rightarrow> issue_token_request \<Rightarrow> token_store \<Rightarrow> issued_token token_result" where
  "issue_self_token ports caller request st =
     and_then_st (find_user ports (pr_user_id caller) st) (\<lambda>target st1.
       if us_is_service_account target
       then deny ports (pr_user_id caller) (pr_user_id caller) Pat request DenyServiceAccountSelfMint ServiceAccountSelfMint st1
       else issue_inner ports (pr_user_id caller) caller caller target Pat request st1)"

definition service_account_subject :: "token_ports \<Rightarrow> (uuid \<Rightarrow> string) \<Rightarrow> user \<Rightarrow> caller_principal" where
  "service_account_subject ports uuid_str target =
     \<lparr>pr_user_id = us_id target,
      pr_external_id = (case us_external_id target of Some e \<Rightarrow> e | None \<Rightarrow> uuid_str (us_id target)),
      pr_username = us_username target, pr_email = us_email target,
      pr_claims = add_admin_claim_if_admin [] (us_is_admin target),
      pr_token_kind = Some ServiceAccount, pr_issued_at = tp_gate_now ports, pr_token_cap = None\<rparr>"

definition issue_for_service_account ::
    "token_ports \<Rightarrow> (uuid \<Rightarrow> string) \<Rightarrow> caller_principal \<Rightarrow> uuid \<Rightarrow> issue_token_request \<Rightarrow> token_store
     \<Rightarrow> issued_token token_result" where
  "issue_for_service_account ports uuid_str admin target_user_id request st =
     (if \<not> principal_is_admin admin then (Inl NotAuthorized, st)
      else if PermAdmin \<in> set (rq_declared_permissions request) then (Inl AdminAuthorityRequired, st)
      else and_then_st (find_user ports target_user_id st) (\<lambda>target st1.
        if \<not> us_is_service_account target
        then deny ports (pr_user_id admin) target_user_id ServiceAccount request DenyNotServiceAccount NotServiceAccount st1
        else issue_inner ports (pr_user_id admin) admin (service_account_subject ports uuid_str target) target
               ServiceAccount request st1))"

section \<open>System mints and the replay guard\<close>

datatype replay_key =
    ReplayJti string string
  | ReplayComposite string string string int int

fun replay_key_kind :: "replay_key \<Rightarrow> string" where
  "replay_key_kind (ReplayJti issuer_name jti) = ''jti''"
| "replay_key_kind (ReplayComposite issuer_name iss sub iat exp) = ''composite''"

fun replay_issuer_name :: "replay_key \<Rightarrow> string" where
  "replay_issuer_name (ReplayJti issuer_name jti) = issuer_name"
| "replay_issuer_name (ReplayComposite issuer_name iss sub iat exp) = issuer_name"

fun replay_key_id :: "(string \<Rightarrow> string) \<Rightarrow> replay_key \<Rightarrow> string" where
  "replay_key_id sha256_hex (ReplayJti issuer_name jti) = jti"
| "replay_key_id sha256_hex (ReplayComposite issuer_name iss sub iat exp) =
     sha256_hex (iss @ [CHR 0x1F] @ sub @ [CHR 0x1F] @ decimal_int iat @ [CHR 0x1F] @ decimal_int exp)"

definition build_replay_key :: "federation_source \<Rightarrow> api_token_error + replay_key" where
  "build_replay_key fs =
     (case (fs_jti fs, fs_require_jti fs) of
        (Some jti, _) \<Rightarrow> Inr (ReplayJti (fs_issuer fs) jti)
      | (None, True) \<Rightarrow> Inl JtiRequired
      | (None, False) \<Rightarrow>
          (case fs_iat fs of
             Some iat \<Rightarrow> Inr (ReplayComposite (fs_issuer fs) (fs_iss fs) (fs_subject fs) iat (fs_exp fs))
           | None \<Rightarrow> Inl JtiRequired))"

datatype replay_claim = FirstSeen | Replayed

text \<open>
  \<^verbatim>\<open>PgReplayGuardRepository::claim\<close>, an \<^verbatim>\<open>INSERT ... ON CONFLICT DO NOTHING RETURNING\<close>; \<open>available\<close> is whether
  the statement ran. \<open>prune_expired\<close> is the cleanup of rows past their horizon.
\<close>

definition replay_claim_row :: "replay_key \<Rightarrow> (string \<Rightarrow> string) \<Rightarrow> string \<times> string \<times> string" where
  "replay_claim_row key sha256_hex = (replay_issuer_name key, replay_key_kind key, replay_key_id sha256_hex key)"

definition claim_replay_key ::
    "bool \<Rightarrow> (string \<Rightarrow> string) \<Rightarrow> replay_key \<Rightarrow> timestamp \<Rightarrow> token_store \<Rightarrow> replay_claim option \<times> token_store" where
  "claim_replay_key available sha256_hex key expires_at st =
     (if \<not> available then (None, st)
      else if replay_claim_row key sha256_hex \<in> fst ` set (ts_seen st) then (Some Replayed, st)
      else (Some FirstSeen, st\<lparr>ts_seen := ts_seen st @ [(replay_claim_row key sha256_hex, expires_at)]\<rparr>))"

definition prune_expired :: "timestamp \<Rightarrow> token_store \<Rightarrow> token_store" where
  "prune_expired now st = st\<lparr>ts_seen := filter (\<lambda>(_, expires_at). \<not> expires_at < now) (ts_seen st)\<rparr>"

definition is_composite :: "replay_key \<Rightarrow> bool" where
  "is_composite key = (case key of ReplayJti _ _ \<Rightarrow> False | ReplayComposite _ _ _ _ _ \<Rightarrow> True)"

text \<open>The federated part of a system mint: the presented token is redeemed before anything is written.\<close>

definition redeem_federation_source :: "token_ports \<Rightarrow> federation_source option \<Rightarrow> token_store \<Rightarrow> unit token_result" where
  "redeem_federation_source ports source st =
     (case source of
        None \<Rightarrow> (Inr (), st)
      | Some fs \<Rightarrow>
          (case tp_from_timestamp ports (fs_exp fs) of
             None \<Rightarrow> (Inl (TokenInfrastructure (Invariant ExpNotRepresentable)), st)
           | Some seen_expires_at \<Rightarrow>
               (case build_replay_key fs of
                  Inl e \<Rightarrow> (Inl e, st)
                | Inr key \<Rightarrow>
                    (case tp_replay_guard ports of
                       None \<Rightarrow> (Inl ReplayGuardUnavailable, st)
                     | Some available \<Rightarrow>
                         (case claim_replay_key available (tp_sha256_hex ports) key seen_expires_at st of
                            (Some FirstSeen, st') \<Rightarrow> (Inr (), st')
                          | (Some Replayed, st') \<Rightarrow> (Inl (ReplayDetected (is_composite key)), st')
                          | (None, st') \<Rightarrow> (Inl ReplayGuardUnavailable, st'))))))"

definition system_expiry :: "token_ports \<Rightarrow> issue_token_request \<Rightarrow> api_token_error + timestamp option" where
  "system_expiry ports request =
     (let now = tp_gate_now ports in
      case rq_expires_in_seconds request of
        Some n \<Rightarrow> Inr (Some (now + secs (sint n)))
      | None \<Rightarrow>
          (case rq_expires_in_days request of
             Some n \<Rightarrow>
               if n = 0 then Inl ExpiryZero
               else if max_expiry_days < n then Inl ExpiryTooLong
               else Inr (Some (now + days (uint n)))
           | None \<Rightarrow> Inr (Some (now + days default_svc_expiry_days))))"

text \<open>A conflict that survives the retries is reported as contention by the system mint, and only there.\<close>

definition contended :: "unit token_result \<Rightarrow> unit token_result" where
  "contended r =
     (case r of (Inl (TokenInfrastructure (Conflict m)), st) \<Rightarrow> (Inl TokenContended, st) | _ \<Rightarrow> r)"

definition issue_for_service_account_system ::
    "token_ports \<Rightarrow> uuid \<Rightarrow> issue_token_request \<Rightarrow> token_store \<Rightarrow> issued_token token_result" where
  "issue_for_service_account_system ports target_user_id request st =
     (case and_then (validate_request request) (\<lambda>_. check_texts request) of
        Inl e \<Rightarrow> (Inl e, st)
      | Inr _ \<Rightarrow>
          if rq_repository_ids request = Some [] then (Inl InvalidRepositorySet, st)
          else if PermAdmin \<in> set (rq_declared_permissions request) then (Inl AdminAuthorityRequired, st)
          else and_then_st (find_user ports target_user_id st) (\<lambda>target st1.
            if \<not> us_is_service_account target then (Inl NotServiceAccount, st1)
            else case system_expiry ports request of
              Inl e \<Rightarrow> (Inl e, st1)
            | Inr expires_at \<Rightarrow>
                let (plaintext, body_prefix) = generate_token_plaintext (tp_random ports) ServiceAccount in
                case hash_plaintext ports plaintext of
                  Inl e \<Rightarrow> (Inl e, st1)
                | Inr token_hash \<Rightarrow>
                    let token = token_row ports target ServiceAccount (rq_name request) (rq_description request)
                          (rq_declared_permissions request) (rq_repository_ids request) expires_at (us_id target) token_hash body_prefix
                    in and_then_st (redeem_federation_source ports (rq_federation_source request) st1) (\<lambda>_ st2.
                         and_then_st (insert_token ports token st2) (\<lambda>_ st3.
                           and_then_st (contended (infra (append_user_event ports st3 (us_id target)
                               (issued_event token None (tp_row_now ports) (rq_federation_source request))))) (\<lambda>_ st4.
                             (Inr (issued token plaintext), st4))))))"

definition bootstrap_description :: string where
  "bootstrap_description = ''Issued by hort-server admin bootstrap-session (break-glass)''"

definition issue_for_bootstrap_admin_system ::
    "token_ports \<Rightarrow> uuid \<Rightarrow> string \<Rightarrow> permission list \<Rightarrow> u64 \<Rightarrow> token_store \<Rightarrow> issued_token token_result" where
  "issue_for_bootstrap_admin_system ports target_user_id name declared_permissions lifetime_secs st =
     (if trim name = [] then (Inl NameEmpty, st)
      else if max_token_name_len < length name then (Inl NameTooLong, st)
      else if PermAdmin \<notin> set declared_permissions then (Inl AdminAuthorityRequired, st)
      else and_then_st (find_user ports target_user_id st) (\<lambda>target st1.
        if \<not> us_is_admin target \<or> us_is_service_account target then (Inl NotAuthorized, st1)
        else if lifetime_secs = 0 then (Inl ExpiryZero, st1)
        else
          let clamped_secs = min lifetime_secs max_bootstrap_admin_lifetime_secs;
              expires_at = Some (tp_row_now ports + secs (sint clamped_secs));
              (plaintext, body_prefix) = generate_token_plaintext (tp_random ports) Pat
          in case hash_plaintext ports plaintext of
               Inl e \<Rightarrow> (Inl e, st1)
             | Inr token_hash \<Rightarrow>
                 let token = token_row ports target Pat name (Some bootstrap_description) declared_permissions None expires_at
                       (us_id target) token_hash body_prefix
                 in and_then_st (insert_token ports token st1) (\<lambda>_ st2.
                      and_then_st (infra (append_user_event ports st2 (us_id target)
                          (issued_event token None (tp_row_now ports) None))) (\<lambda>_ st3.
                        (Inr (issued token plaintext), st3)))))"

section \<open>Sessions and revocation\<close>

definition clamp_lifetime :: "u64 \<Rightarrow> bool \<Rightarrow> api_token_error + u64" where
  "clamp_lifetime n has_admin =
     (if n < min_cli_session_lifetime_secs then Inl LifetimeBelowMinimum
      else Inr (min n (if has_admin then max_admin_cli_session_lifetime_secs else max_non_admin_cli_session_lifetime_secs)))"

definition max_cli_session_lifetime :: u64 where
  "max_cli_session_lifetime = max max_admin_cli_session_lifetime_secs max_non_admin_cli_session_lifetime_secs"

text \<open>The label of a session; a name too long for the column is cut at a character boundary.\<close>

definition cli_session_name :: "string option \<Rightarrow> string" where
  "cli_session_name client_name =
     (let trimmed = (case client_name of Some n \<Rightarrow> trim n | None \<Rightarrow> []) in
      if trimmed = [] then ''hort-cli''
      else let original = (case client_name of Some n \<Rightarrow> n | None \<Rightarrow> []) in
           if max_token_name_len < length original then take (floor_boundary original max_token_name_len) original
           else original)"

definition cli_session_request :: "issue_cli_session_request \<Rightarrow> permission list \<Rightarrow> uuid list option \<Rightarrow> u64 \<Rightarrow> issue_token_request" where
  "cli_session_request request declared repos n =
     \<lparr>rq_name = cli_session_name (cq_client_name request),
      rq_description = Some (''Issued via /exchange from '' @ cq_source_ip request),
      rq_declared_permissions = declared, rq_repository_ids = repos, rq_expires_in_days = None,
      rq_expires_in_seconds = Some n, rq_federation_source = None\<rparr>"

definition issue_cli_session ::
    "token_ports \<Rightarrow> caller_principal \<Rightarrow> issue_cli_session_request \<Rightarrow> token_store \<Rightarrow> issued_token token_result" where
  "issue_cli_session ports caller request st =
     and_then_st (find_user ports (pr_user_id caller) st) (\<lambda>target st1.
       let requested_permissions =
             (if cq_requested_scope request = [] then [PermRead, PermWrite, PermDelete] else cq_requested_scope request)
       in case derive_cli_session_cap (tp_grants ports) caller requested_permissions of
            None \<Rightarrow>
              deny ports (pr_user_id caller) (us_id target) CliSession
                (cli_session_request request requested_permissions None default_cli_session_lifetime_secs)
                DenyCapExceedsAuthority (CapExceedsAuthority (map (\<lambda>p. (None, p)) requested_permissions)) st1
          | Some derived_cap \<Rightarrow>
              (case clamp_lifetime
                  (case cq_requested_lifetime_secs request of Some n \<Rightarrow> n | None \<Rightarrow> default_cli_session_lifetime_secs)
                  (PermAdmin \<in> set (cap_permissions derived_cap)) of
                 Inl e \<Rightarrow> (Inl e, st1)
               | Inr clamped_secs \<Rightarrow>
                   let inner = cli_session_request request (cap_permissions derived_cap) (cap_repository_ids derived_cap) clamped_secs
                   in and_then_st (run_issuance_gates ports (pr_user_id caller) caller caller target CliSession inner st1)
                      (\<lambda>expiry st2.
                        case expiry of
                          None \<Rightarrow> (Inl (TokenInfrastructure (Invariant UnboundedCliSession)), st2)
                        | Some expires_at \<Rightarrow>
                            (case tp_signer ports of
                               None \<Rightarrow> (Inl (TokenInfrastructure (Invariant SignerNotConfigured)), st2)
                             | Some mint \<Rightarrow>
                                 (case mint (pr_user_id caller) (pr_claims caller) (tp_new_id ports) expires_at of
                                    None \<Rightarrow> (Inl (TokenInfrastructure (Invariant SessionMintFailed)), st2)
                                  | Some plaintext \<Rightarrow>
                                      and_then_st (infra (append_user_event ports st2 (us_id target) (EApiTokenIssued
                                        \<lparr>ti_token_id = tp_new_id ports, ti_user_id = us_id target, ti_kind = CliSession,
                                         ti_declared_permissions = rq_declared_permissions inner,
                                         ti_repository_ids = rq_repository_ids inner, ti_expires_at = Some expires_at,
                                         ti_minted_by_admin_id = None, ti_at = tp_row_now ports, ti_source_issuer = None,
                                         ti_source_jti = None, ti_source_sub = None\<rparr>))) (\<lambda>_ st3.
                                        (Inr \<lparr>it_id = tp_new_id ports, it_name = rq_name inner, it_kind = CliSession,
                                              it_plaintext = plaintext, it_expires_at = Some expires_at\<rparr>, st3)))))))"

definition revoke_token ::
    "token_ports \<Rightarrow> uuid \<Rightarrow> uuid \<Rightarrow> bool \<Rightarrow> token_store \<Rightarrow> unit token_result" where
  "revoke_token ports actor_user_id token_id admin_authority st =
     (case tp_read_fault ports of Some e \<Rightarrow> (Inl (TokenInfrastructure e), st) | None \<Rightarrow>
      case find_token_by_id token_id st of
        None \<Rightarrow> (Inl TokenNotFound, st)
      | Some token \<Rightarrow>
          if \<not> admin_authority \<and> actor_user_id \<noteq> tk_user_id token then (Inl NotAuthorized, st)
          else case tp_write_fault ports of
            Some e \<Rightarrow> (Inl (TokenInfrastructure e), st)
          | None \<Rightarrow>
              infra (append_user_event ports (revoke_row (tp_row_now ports) token_id st) (tk_user_id token) (EApiTokenRevoked
                \<lparr>tr_token_id = token_id, tr_user_id = tk_user_id token,
                 tr_revoked_by_admin_id = (if admin_authority \<and> actor_user_id \<noteq> tk_user_id token then Some actor_user_id else None),
                 tr_reason = OperatorRequest, tr_at = tp_row_now ports\<rparr>)))"

end
