(* ===== verification/Ephemeral_Store.thy ===== *)
theory Ephemeral_Store
  imports Hort_Prelude
begin

text \<open>
  The ephemeral key-value store: the port of \<^verbatim>\<open>hort-domain/src/ports/ephemeral_store.rs\<close> with its default
  counter, and the in-memory adapter of \<^verbatim>\<open>hort-adapters-ephemeral-memory/src/store.rs\<close>. The state of the
  adapter is the content of its concurrent map; an operation is a function of the clock reading and
  the state. The operations that hold the per-key lock are single steps; \<^verbatim>\<open>compare_and_swap\<close> is given
  in its two halves as well, since \<^verbatim>\<open>put\<close> and \<^verbatim>\<open>delete\<close> do not take that lock. A call of \<^verbatim>\<open>put\<close> reads the
  clock twice in a row, which is one reading here. The lemmas are the contract the clients rely on,
  an interface that the adapter is shown to satisfy, and the exactness of the bounded counter.
\<close>

section \<open>The port\<close>

datatype ephemeral_msg = CounterNotUtf8 | CounterNotNumeric | CounterBudgetExhausted | StoreUnavailable

type_synonym ephemeral_error = "ephemeral_msg domain_error"

record 's ephemeral_port =
  ep_get :: "timestamp \<Rightarrow> string \<Rightarrow> 's \<Rightarrow> (ephemeral_error + string option) \<times> 's"
  ep_put :: "timestamp \<Rightarrow> string \<Rightarrow> string \<Rightarrow> duration \<Rightarrow> 's \<Rightarrow> (ephemeral_error + unit) \<times> 's"
  ep_put_if_absent :: "timestamp \<Rightarrow> string \<Rightarrow> string \<Rightarrow> duration \<Rightarrow> 's \<Rightarrow> (ephemeral_error + bool) \<times> 's"
  ep_compare_and_swap :: "timestamp \<Rightarrow> string \<Rightarrow> u64 \<Rightarrow> string \<Rightarrow> duration \<Rightarrow> 's \<Rightarrow> (ephemeral_error + u64 option) \<times> 's"
  ep_delete :: "string \<Rightarrow> 's \<Rightarrow> (ephemeral_error + unit) \<times> 's"
  ep_extend_ttl :: "timestamp \<Rightarrow> string \<Rightarrow> duration \<Rightarrow> 's \<Rightarrow> (ephemeral_error + unit) \<times> 's"

text \<open>\<^verbatim>\<open>str::from_utf8\<close>: the well-formed byte sequences of UTF-8.\<close>

definition continuation :: "nat \<Rightarrow> bool" where "continuation b \<longleftrightarrow> 128 \<le> b \<and> b \<le> 191"

fun utf8_valid :: "nat list \<Rightarrow> bool" where
  "utf8_valid [] = True"
| "utf8_valid (b # bs) =
     (if b < 128 then utf8_valid bs
      else if 194 \<le> b \<and> b \<le> 223 then (case bs of c # rest \<Rightarrow> continuation c \<and> utf8_valid rest | _ \<Rightarrow> False)
      else if 224 \<le> b \<and> b \<le> 239 then
        (case bs of c # d # rest \<Rightarrow>
           (if b = 224 then 160 \<le> c \<and> c \<le> 191 else if b = 237 then 128 \<le> c \<and> c \<le> 159 else continuation c) \<and>
           continuation d \<and> utf8_valid rest | _ \<Rightarrow> False)
      else if 240 \<le> b \<and> b \<le> 244 then
        (case bs of c # d # e # rest \<Rightarrow>
           (if b = 240 then 144 \<le> c \<and> c \<le> 191 else if b = 244 then 128 \<le> c \<and> c \<le> 143 else continuation c) \<and>
           continuation d \<and> continuation e \<and> utf8_valid rest | _ \<Rightarrow> False)
      else False)"

definition parse_counter :: "string \<Rightarrow> ephemeral_error + u64" where
  "parse_counter value =
     (if \<not> utf8_valid (map of_char value) then Inl (Invariant CounterNotUtf8)
      else case parse_u64 value of None \<Rightarrow> Inl (Invariant CounterNotNumeric) | Some n \<Rightarrow> Inr n)"

text \<open>
  The default body of \<^verbatim>\<open>try_increment_counter\<close>: a bounded loop over the other operations. Another caller
  may act between the read and the conditional create; \<open>others n\<close> is what it does to the state in the
  iteration with \<open>n\<close> more to go.
\<close>

definition max_counter_attempts :: nat where "max_counter_attempts = 16"

fun counter_attempts ::
    "'s ephemeral_port \<Rightarrow> (nat \<Rightarrow> 's \<Rightarrow> 's) \<Rightarrow> timestamp \<Rightarrow> string \<Rightarrow> u64 \<Rightarrow> duration \<Rightarrow> nat \<Rightarrow> 's
     \<Rightarrow> (ephemeral_error + u64 option) \<times> 's" where
  "counter_attempts port others now key limit ttl 0 s = (Inl (Invariant CounterBudgetExhausted), s)"
| "counter_attempts port others now key limit ttl (Suc n) s =
     (case ep_get port now key s of
        (Inl e, s1) \<Rightarrow> (Inl e, s1)
      | (Inr None, s1) \<Rightarrow>
          if limit = 0 then (Inr None, s1)
          else (case ep_put_if_absent port now key ''1'' ttl (others n s1) of
                  (Inl e, s2) \<Rightarrow> (Inl e, s2)
                | (Inr True, s2) \<Rightarrow> (Inr (Some 1), s2)
                | (Inr False, s2) \<Rightarrow> counter_attempts port others now key limit ttl n s2)
      | (Inr (Some value), s1) \<Rightarrow>
          (case parse_counter value of
             Inl e \<Rightarrow> (Inl e, s1)
           | Inr current \<Rightarrow>
               if limit \<le> current then (Inr None, s1)
               else (case ep_put port now key (decimal (unat (current + 1))) ttl s1 of
                       (Inl e, s2) \<Rightarrow> (Inl e, s2)
                     | (Inr _, s2) \<Rightarrow> (Inr (Some (current + 1)), s2))))"

definition try_increment_counter_default ::
    "'s ephemeral_port \<Rightarrow> (nat \<Rightarrow> 's \<Rightarrow> 's) \<Rightarrow> timestamp \<Rightarrow> string \<Rightarrow> u64 \<Rightarrow> duration \<Rightarrow> 's
     \<Rightarrow> (ephemeral_error + u64 option) \<times> 's" where
  "try_increment_counter_default port others now key limit ttl s =
     counter_attempts port others now key limit ttl max_counter_attempts s"

section \<open>The in-memory adapter\<close>

record mem_entry =
  me_value :: string
  me_version :: u64
  me_expires_at :: timestamp

type_synonym mem_store = "string \<rightharpoonup> mem_entry"

definition is_expired :: "timestamp \<Rightarrow> mem_entry \<Rightarrow> bool" where
  "is_expired now e \<longleftrightarrow> me_expires_at e \<le> now"

definition saturating_inc :: "u64 \<Rightarrow> u64" where
  "saturating_inc v = (if v = - 1 then v else v + 1)"

text \<open>One sweep of the background evictor over the entries.\<close>

definition evictor_sweep :: "timestamp \<Rightarrow> mem_store \<Rightarrow> mem_store" where
  "evictor_sweep now st = (\<lambda>k. case st k of Some e \<Rightarrow> if is_expired now e then None else Some e | None \<Rightarrow> None)"

definition live_mem_entry :: "timestamp \<Rightarrow> string \<Rightarrow> mem_store \<Rightarrow> mem_entry option \<times> mem_store" where
  "live_mem_entry now key st =
     (case st key of
        None \<Rightarrow> (None, st)
      | Some e \<Rightarrow> if is_expired now e then (None, st(key := None)) else (Some e, st))"

definition mem_get :: "timestamp \<Rightarrow> string \<Rightarrow> mem_store \<Rightarrow> (ephemeral_error + string option) \<times> mem_store" where
  "mem_get now key st = (case live_mem_entry now key st of (e, st') \<Rightarrow> (Inr (map_option me_value e), st'))"

definition mem_put :: "timestamp \<Rightarrow> string \<Rightarrow> string \<Rightarrow> duration \<Rightarrow> mem_store \<Rightarrow> (ephemeral_error + unit) \<times> mem_store" where
  "mem_put now key value ttl st =
     (let expires_at = now + ttl;
          (existing, st') = live_mem_entry now key st;
          next_version = (case existing of Some e \<Rightarrow> saturating_inc (me_version e) | None \<Rightarrow> 1)
      in (Inr (), st'(key \<mapsto> \<lparr>me_value = value, me_version = next_version, me_expires_at = expires_at\<rparr>)))"

definition mem_put_if_absent ::
    "timestamp \<Rightarrow> string \<Rightarrow> string \<Rightarrow> duration \<Rightarrow> mem_store \<Rightarrow> (ephemeral_error + bool) \<times> mem_store" where
  "mem_put_if_absent now key value ttl st =
     (case st key of
        Some existing \<Rightarrow>
          if \<not> is_expired now existing then (Inr False, st)
          else (Inr True, st(key \<mapsto> \<lparr>me_value = value, me_version = 1, me_expires_at = now + ttl\<rparr>))
      | None \<Rightarrow> (Inr True, st(key \<mapsto> \<lparr>me_value = value, me_version = 1, me_expires_at = now + ttl\<rparr>)))"

text \<open>The two halves of a compare-and-swap: the comparison on a copy of the entry, and the write.\<close>

definition cas_compare :: "timestamp \<Rightarrow> string \<Rightarrow> u64 \<Rightarrow> mem_store \<Rightarrow> u64 option" where
  "cas_compare now key expected_version st =
     (case st key of
        None \<Rightarrow> None
      | Some current \<Rightarrow>
          if is_expired now current then None
          else if me_version current \<noteq> expected_version then None
          else Some (saturating_inc (me_version current)))"

definition cas_write :: "timestamp \<Rightarrow> string \<Rightarrow> string \<Rightarrow> duration \<Rightarrow> u64 \<Rightarrow> mem_store \<Rightarrow> mem_store" where
  "cas_write now key new_value ttl new_version st =
     st(key \<mapsto> \<lparr>me_value = new_value, me_version = new_version, me_expires_at = now + ttl\<rparr>)"

definition mem_compare_and_swap ::
    "timestamp \<Rightarrow> string \<Rightarrow> u64 \<Rightarrow> string \<Rightarrow> duration \<Rightarrow> mem_store \<Rightarrow> (ephemeral_error + u64 option) \<times> mem_store" where
  "mem_compare_and_swap now key expected_version new_value ttl st =
     (case cas_compare now key expected_version st of
        None \<Rightarrow> (Inr None, st)
      | Some new_version \<Rightarrow> (Inr (Some new_version), cas_write now key new_value ttl new_version st))"

definition mem_delete :: "string \<Rightarrow> mem_store \<Rightarrow> (ephemeral_error + unit) \<times> mem_store" where
  "mem_delete key st = (Inr (), st(key := None))"

definition mem_extend_ttl :: "timestamp \<Rightarrow> string \<Rightarrow> duration \<Rightarrow> mem_store \<Rightarrow> (ephemeral_error + unit) \<times> mem_store" where
  "mem_extend_ttl now key ttl st =
     (case st key of
        None \<Rightarrow> (Inr (), st)
      | Some e \<Rightarrow>
          if is_expired now e then (Inr (), st(key := None))
          else (Inr (), st(key \<mapsto> e\<lparr>me_expires_at := now + ttl\<rparr>)))"

definition mem_try_increment_counter ::
    "timestamp \<Rightarrow> string \<Rightarrow> u64 \<Rightarrow> duration \<Rightarrow> mem_store \<Rightarrow> (ephemeral_error + u64 option) \<times> mem_store" where
  "mem_try_increment_counter now key limit ttl st =
     (case (case st key of
              Some e \<Rightarrow> if \<not> is_expired now e then parse_counter (me_value e) else Inr 0
            | None \<Rightarrow> Inr 0) of
        Inl e \<Rightarrow> (Inl e, st)
      | Inr current \<Rightarrow>
          if limit \<le> current then (Inr None, st)
          else
            let new_value = current + 1;
                next_version = (case st key of
                    Some existing \<Rightarrow> if \<not> is_expired now existing then saturating_inc (me_version existing) else 1
                  | None \<Rightarrow> 1)
            in (Inr (Some new_value),
                st(key \<mapsto> \<lparr>me_value = decimal (unat new_value), me_version = next_version, me_expires_at = now + ttl\<rparr>)))"

definition memory_port :: "mem_store ephemeral_port" where
  "memory_port = \<lparr>ep_get = mem_get, ep_put = mem_put, ep_put_if_absent = mem_put_if_absent,
     ep_compare_and_swap = mem_compare_and_swap, ep_delete = mem_delete, ep_extend_ttl = mem_extend_ttl\<rparr>"

section \<open>The contract\<close>

text \<open>
  What a client relies on: \<open>shown t s k\<close> is the value a read of \<open>k\<close> at a time \<open>t\<close> would return. Reads
  return it and change no later read; a write decides the reads of its key for its lifetime and no
  others.
\<close>

locale ephemeral_store =
  fixes port :: "'s ephemeral_port" and shown :: "timestamp \<Rightarrow> 's \<Rightarrow> string \<Rightarrow> string option"
  assumes get_law: "ep_get port now k s = (got, s') \<Longrightarrow> got = Inr (shown now s k) \<and> (\<forall>t\<ge>now. shown t s' = shown t s)"
    and put_law: "ep_put port now k v ttl s = (written, s') \<Longrightarrow>
      written = Inr () \<and> (\<forall>t\<ge>now. shown t s' = (shown t s)(k := if t < now + ttl then Some v else None))"
    and put_if_absent_law: "ep_put_if_absent port now k v ttl s = (created, s') \<Longrightarrow>
      created = Inr (shown now s k = None) \<and>
      (\<forall>t\<ge>now. shown t s' = (if shown now s k = None then (shown t s)(k := if t < now + ttl then Some v else None) else shown t s))"
    and expiry_law: "shown now s k = None \<Longrightarrow> now \<le> t \<Longrightarrow> shown t s k = None"
    and delete_law: "ep_delete port k s = (deleted, s') \<Longrightarrow> deleted = Inr () \<and> shown t s' = (shown t s)(k := None)"
begin

text \<open>The default counter, when nobody else acts: one read and one write.\<close>

lemma counter_alone:
  assumes "counter_attempts port (\<lambda>_ s. s) now k limit ttl (Suc n) s = (r, s')"
  shows "r = (case shown now s k of
      None \<Rightarrow> Inr (if limit = 0 then None else Some 1)
    | Some v \<Rightarrow> (case parse_counter v of Inl e \<Rightarrow> Inl e | Inr c \<Rightarrow> Inr (if limit \<le> c then None else Some (c + 1)))) \<and>
   (\<forall>t\<ge>now. shown t s' =
      (case r of
         Inr (Some c) \<Rightarrow> (shown t s)(k := if t < now + ttl then Some (decimal (unat c)) else None)
       | _ \<Rightarrow> shown t s))"
proof -
  obtain got s1 where get: "ep_get port now k s = (got, s1)" by force
  have got: "got = Inr (shown now s k)" using get_law [OF get] by blast
  have same: "shown t s1 = shown t s" if "now \<le> t" for t using get_law [OF get] that by blast
  have one: "decimal (unat (1::u64)) = ''1''" by (simp add: decimal.simps, code_simp)
  show ?thesis
  proof (cases "shown now s k")
    case None
    obtain created s2 where create: "ep_put_if_absent port now k ''1'' ttl s1 = (created, s2)" by force
    have created: "created = Inr True" "\<forall>t\<ge>now. shown t s2 = (shown t s)(k := if t < now + ttl then Some ''1'' else None)"
      using put_if_absent_law [OF create] None same by simp_all
    have "(r, s') = (if limit = 0 then (Inr None, s1) else (Inr (Some 1), s2))"
      using assms by (cases "limit = 0") (simp_all add: get got None create created)
    then show ?thesis using None same created one by (simp split: if_splits)
  next
    case (Some v)
    show ?thesis
    proof (cases "parse_counter v")
      case (Inl e)
      then have "(r, s') = (Inl e, s1)" using assms by (simp add: get got Some)
      then show ?thesis using Some Inl same by simp
    next
      case (Inr c)
      obtain written s2 where wr: "ep_put port now k (decimal (unat (c + 1))) ttl s1 = (written, s2)" by force
      have written: "written = Inr ()"
        "\<forall>t\<ge>now. shown t s2 = (shown t s)(k := if t < now + ttl then Some (decimal (unat (c + 1))) else None)"
        using put_law [OF wr] same by simp_all
      have "(r, s') = (if limit \<le> c then (Inr None, s1) else (Inr (Some (c + 1)), s2))"
        using assms by (cases "limit \<le> c") (simp_all add: get got Some Inr wr written)
      then show ?thesis using Some Inr same written by (simp split: if_splits)
    qed
  qed
qed

end

section \<open>The adapter satisfies the contract\<close>

definition shown_by :: "timestamp \<Rightarrow> mem_store \<Rightarrow> string \<Rightarrow> string option" where
  "shown_by now st k = (case st k of Some e \<Rightarrow> if is_expired now e then None else Some (me_value e) | None \<Rightarrow> None)"

lemma shown_by_drop: "st k = Some e \<Longrightarrow> is_expired now e \<Longrightarrow> now \<le> t \<Longrightarrow> shown_by t (st(k := None)) = shown_by t st"
  by (rule ext) (simp add: shown_by_def is_expired_def)

lemma shown_by_put:
  "shown_by t (st(k \<mapsto> \<lparr>me_value = v, me_version = n, me_expires_at = e\<rparr>)) = (shown_by t st)(k := if t < e then Some v else None)"
  by (rule ext) (simp add: shown_by_def is_expired_def)

lemma shown_live_entry:
  assumes "live_mem_entry now k st = (e, st')"
  shows "map_option me_value e = shown_by now st k" and "now \<le> t \<Longrightarrow> shown_by t st' = shown_by t st"
proof -
  show "map_option me_value e = shown_by now st k"
  proof (cases "st k")
    case (Some x)
    then have "(e, st') = (if is_expired now x then (None, st(k := None)) else (Some x, st))" using assms by (simp add: live_mem_entry_def)
    then show ?thesis using Some by (simp add: shown_by_def split: if_splits)
  qed (use assms in \<open>simp add: live_mem_entry_def shown_by_def\<close>)
  show "shown_by t st' = shown_by t st" if "now \<le> t"
  proof (cases "st k")
    case None
    then show ?thesis using assms by (simp add: live_mem_entry_def)
  next
    case (Some x)
    then show ?thesis using assms that by (auto simp: live_mem_entry_def shown_by_drop split: if_splits)
  qed
qed

interpretation memory: ephemeral_store memory_port shown_by
proof
  fix now k st r st'
  assume "ep_get memory_port now k st = (r, st')"
  then show "r = Inr (shown_by now st k) \<and> (\<forall>t\<ge>now. shown_by t st' = shown_by t st)"
    using shown_live_entry [of now k st] by (auto simp: memory_port_def mem_get_def split: prod.splits)
next
  fix now k v ttl st r st'
  assume put: "ep_put memory_port now k v ttl st = (r, st')"
  obtain e st1 where live: "live_mem_entry now k st = (e, st1)" by force
  show "r = Inr () \<and> (\<forall>t\<ge>now. shown_by t st' = (shown_by t st)(k := if t < now + ttl then Some v else None))"
    using put live shown_live_entry(2) [OF live] by (auto simp: memory_port_def mem_put_def Let_def shown_by_put)
next
  fix now k v ttl st r st'
  assume op: "ep_put_if_absent memory_port now k v ttl st = (r, st')"
  have absent: "shown_by now st k = None \<longleftrightarrow> (\<forall>e. st k = Some e \<longrightarrow> is_expired now e)"
    by (simp add: shown_by_def split: option.split)
  show "r = Inr (shown_by now st k = None) \<and> (\<forall>t\<ge>now. shown_by t st' =
      (if shown_by now st k = None then (shown_by t st)(k := if t < now + ttl then Some v else None) else shown_by t st))"
    using op unfolding absent by (cases "st k") (auto simp: memory_port_def mem_put_if_absent_def shown_by_put split: if_splits)
next
  fix now st k t
  assume "shown_by now st k = None" "now \<le> t"
  then show "shown_by t st k = None" by (auto simp: shown_by_def is_expired_def split: option.splits if_splits)
next
  fix k st r st' t
  assume "ep_delete memory_port k st = (r, st')"
  then have "r = Inr ()" and st': "st' = st(k := None)" by (auto simp: memory_port_def mem_delete_def)
  moreover have "shown_by t (st(k := None)) = (shown_by t st)(k := None)" by (rule ext) (simp add: shown_by_def)
  ultimately show "r = Inr () \<and> shown_by t st' = (shown_by t st)(k := None)" by simp
qed

lemma sweep_is_invisible: "now \<le> t \<Longrightarrow> shown_by t (evictor_sweep now st) = shown_by t st"
  by (auto simp: shown_by_def evictor_sweep_def is_expired_def fun_eq_iff split: option.splits)

lemma cas_result:
  "mem_compare_and_swap now k expected v ttl st = (r, st') \<Longrightarrow>
     (if \<exists>e. st k = Some e \<and> \<not> is_expired now e \<and> me_version e = expected
      then r = Inr (Some (saturating_inc expected)) \<and>
        st' = st(k \<mapsto> \<lparr>me_value = v, me_version = saturating_inc expected, me_expires_at = now + ttl\<rparr>)
      else r = Inr None \<and> st' = st)"
  by (auto simp: mem_compare_and_swap_def cas_compare_def cas_write_def split: option.splits if_splits)

section \<open>The bounded counter\<close>

lemma utf8_valid_ascii: "list_all (\<lambda>b. b < 128) bs \<Longrightarrow> utf8_valid bs"
  by (induction bs) auto

lemma parse_counter_decimal [simp]:
  assumes "n < 2 ^ 64"
  shows "parse_counter (decimal n) = Inr (of_nat n)"
proof -
  have "utf8_valid (map of_char (decimal n))"
    by (rule utf8_valid_ascii) (auto simp: list_all_iff dest: decimal_digits)
  then show ?thesis using assms by (simp add: parse_counter_def)
qed

text \<open>The adapter's own counter does what the default does undisturbed, in one step.\<close>

lemma mem_counter_shown:
  assumes "mem_try_increment_counter now k limit ttl st = (r, st')"
  shows "r = (case shown_by now st k of
      None \<Rightarrow> Inr (if limit = 0 then None else Some 1)
    | Some v \<Rightarrow> (case parse_counter v of Inl e \<Rightarrow> Inl e | Inr c \<Rightarrow> Inr (if limit \<le> c then None else Some (c + 1)))) \<and>
   (\<forall>t\<ge>now. shown_by t st' =
      (case r of
         Inr (Some c) \<Rightarrow> (shown_by t st)(k := if t < now + ttl then Some (decimal (unat c)) else None)
       | _ \<Rightarrow> shown_by t st))"
proof (cases "shown_by now st k")
  case None
  then have "(case st k of Some e \<Rightarrow> if \<not> is_expired now e then parse_counter (me_value e) else Inr 0 | None \<Rightarrow> Inr 0) = Inr 0"
    by (auto simp: shown_by_def split: option.splits if_splits)
  then show ?thesis
    using assms None by (auto simp: mem_try_increment_counter_def Let_def shown_by_put split: if_splits)
next
  case (Some v)
  then have live: "(case st k of Some e \<Rightarrow> if \<not> is_expired now e then parse_counter (me_value e) else Inr 0 | None \<Rightarrow> Inr 0) =
      parse_counter v"
    by (auto simp: shown_by_def split: option.splits if_splits)
  show ?thesis
    using assms Some unfolding mem_try_increment_counter_def live
    by (cases "parse_counter v") (auto simp: Let_def shown_by_put split: if_splits)
qed

fun increments ::
    "string \<Rightarrow> u64 \<Rightarrow> duration \<Rightarrow> timestamp list \<Rightarrow> mem_store \<Rightarrow> (ephemeral_error + u64 option) list \<times> mem_store" where
  "increments k limit ttl [] st = ([], st)"
| "increments k limit ttl (t # ts) st =
     (case mem_try_increment_counter t k limit ttl st of
        (r, st') \<Rightarrow> (case increments k limit ttl ts st' of (rs, st'') \<Rightarrow> (r # rs, st'')))"

text \<open>
  Calls after an admission at the instant \<open>at\<close> with \<open>left\<close> more to come: the last admission among them, and whether each call
  comes within \<open>ttl\<close> of the admission before it.
\<close>

fun last_admission :: "nat \<Rightarrow> timestamp \<Rightarrow> timestamp list \<Rightarrow> timestamp" where
  "last_admission left at [] = at"
| "last_admission left at (t # ts) = last_admission (left - 1) (if 0 < left then t else at) ts"

fun kept_alive :: "nat \<Rightarrow> duration \<Rightarrow> timestamp \<Rightarrow> timestamp list \<Rightarrow> bool" where
  "kept_alive left ttl at [] \<longleftrightarrow> True"
| "kept_alive left ttl at (t # ts) \<longleftrightarrow> t < at + ttl \<and> kept_alive (left - 1) ttl (if 0 < left then t else at) ts"

lemma mem_counter_counts:
  assumes "mem_try_increment_counter now k limit ttl st = (r, st')" and "c \<le> unat limit"
    and "shown_by now st k = (if c = 0 then None else Some (decimal c))"
  shows "r = Inr (if c < unat limit then Some (of_nat (c + 1)) else None)"
    and "\<forall>t\<ge>now. shown_by t st' k =
      (if c < unat limit then if t < now + ttl then Some (decimal (c + 1)) else None else shown_by t st k)"
proof -
  have lim: "unat limit < 2 ^ 64" using unsigned_less [of limit] by simp
  then have small: "c < 2 ^ 64" using assms(2) by simp
  have le: "limit \<le> of_nat c \<longleftrightarrow> unat limit \<le> c" using small by (simp add: word_le_nat_alt unat_of_nat)
  have zero: "limit = 0 \<longleftrightarrow> unat limit = 0" by (simp add: unat_eq_0)
  show r: "r = Inr (if c < unat limit then Some (of_nat (c + 1)) else None)"
    using mem_counter_shown [OF assms(1)] assms(3) small le zero by (auto split: if_splits)
  have "unat (of_nat (c + 1) :: u64) = c + 1" if "c < unat limit"
    using that lim by (subst unat_of_nat) simp
  then show "\<forall>t\<ge>now. shown_by t st' k =
      (if c < unat limit then if t < now + ttl then Some (decimal (c + 1)) else None else shown_by t st k)"
    using mem_counter_shown [OF assms(1)] r by auto
qed

lemma increments_from:
  assumes "sorted (now # ts)" and "kept_alive (unat limit - c) ttl last_at ts" and "0 < c" and "c \<le> unat limit"
    and "\<forall>t\<ge>now. shown_by t st k = (if t < last_at + ttl then Some (decimal c) else None)"
    and "increments k limit ttl ts st = (rs, st')"
  shows "rs = map (\<lambda>i. Inr (if c + i < unat limit then Some (of_nat (c + i + 1)) else None)) [0..<length ts]"
    and "\<forall>t\<ge>last (now # ts). shown_by t st' k =
      (if t < last_admission (unat limit - c) last_at ts + ttl then Some (decimal (min (unat limit) (c + length ts))) else None)"
  using assms
proof (induction ts arbitrary: now c last_at st rs)
  case Nil
  {
    case 1
    then show ?case by simp
  next
    case 2
    then show ?case by (simp add: min_absorb2)
  }
next
  case (Cons t ts)
  have both: "rs = map (\<lambda>i. Inr (if c + i < unat limit then Some (of_nat (c + i + 1)) else None)) [0..<length (t # ts)] \<and>
    (\<forall>u\<ge>last (now # t # ts). shown_by u st' k =
      (if u < last_admission (unat limit - c) last_at (t # ts) + ttl then Some (decimal (min (unat limit) (c + length (t # ts)))) else None))"
    if prems: "sorted (now # t # ts)" "kept_alive (unat limit - c) ttl last_at (t # ts)" "0 < c" "c \<le> unat limit"
      "\<forall>u\<ge>now. shown_by u st k = (if u < last_at + ttl then Some (decimal c) else None)"
      "increments k limit ttl (t # ts) st = (rs, st')" for now c last_at st rs
  proof -
    obtain r st1 rs1 where step: "mem_try_increment_counter t k limit ttl st = (r, st1)"
      and rest: "increments k limit ttl ts st1 = (rs1, st')" and rs: "rs = r # rs1"
      using prems(6) by (auto split: prod.splits)
    note counts = mem_counter_counts [OF step prems(4)]
    have t: "now \<le> t" "t < last_at + ttl" using prems(1,2) by auto
    define c' where "c' = (if c < unat limit then c + 1 else c)"
    define at' where "at' = (if c < unat limit then t else last_at)"
    have c': "0 < c'" "c' \<le> unat limit" "unat limit - c' = unat limit - c - 1" using prems(3,4) by (auto simp: c'_def)
    have shown': "\<forall>u\<ge>t. shown_by u st1 k = (if u < at' + ttl then Some (decimal c') else None)"
      using counts(2) prems(3,5) t by (auto simp: c'_def at'_def)
    have alive: "kept_alive (unat limit - c') ttl at' ts" "sorted (t # ts)"
      using prems(1,2) c'(3) by (auto simp: at'_def)
    note IH = Cons.IH [OF alive(2,1) c'(1,2) shown' rest]
    have "r = Inr (if c < unat limit then Some (of_nat (c + 1)) else None)" using counts(1) prems(3,5) t by auto
    moreover have "rs1 = map (\<lambda>i. Inr (if c + Suc i < unat limit then Some (of_nat (c + Suc i + 1)) else None)) [0..<length ts]"
      using IH(1) prems(4) by (auto simp: c'_def)
    ultimately have "rs = map (\<lambda>i. Inr (if c + i < unat limit then Some (of_nat (c + i + 1)) else None)) [0..<length (t # ts)]"
      by (simp add: rs upt_conv_Cons map_Suc_upt [symmetric] del: upt_Suc)
    moreover have "last_admission (unat limit - c) last_at (t # ts) = last_admission (unat limit - c') at' ts"
      "min (unat limit) (c + length (t # ts)) = min (unat limit) (c' + length ts)" "last (now # t # ts) = last (t # ts)"
      using c'(3) prems(4) by (auto simp: at'_def c'_def)
    ultimately show ?thesis using IH(2) by (simp only:)
  qed
  {
    case 1
    then show ?case by (rule conjunct1 [OF both])
  next
    case 2
    then show ?case by (rule conjunct2 [OF both])
  }
qed

text \<open>
  C22. The bounded counter admits exactly as many callers as its bound. With a bound above zero, on a key that was free, take any
  number of calls of \<open>try_increment_counter\<close> in the order in which they take the key's lock, each within the
  lifetime of the last call admitted before it: the first \<open>limit\<close> of them succeed and are numbered from
  one, every later one is turned away, and none fails. An admission renews the lifetime and a
  refusal does not: afterwards the count stands until the lifetime after the last admission is over, and then the
  key is free again. So 33 racing requests against a bound of 32 are 32 admissions and one refusal.
\<close>

theorem counter_admits_exactly_its_bound:
  assumes "sorted (t0 # ts)" and "kept_alive (unat limit - 1) ttl t0 ts" and "shown_by t0 st k = None" and "limit \<noteq> 0"
    and "increments k limit ttl (t0 # ts) st = (rs, st')"
  shows "rs = map (\<lambda>i. Inr (if i < unat limit then Some (of_nat (i + 1)) else None)) [0..<Suc (length ts)] \<and>
    (\<forall>t\<ge>last (t0 # ts). shown_by t st' k =
       (if t < last_admission (unat limit - 1) t0 ts + ttl then Some (decimal (min (unat limit) (Suc (length ts)))) else None))"
proof -
  obtain r st1 rs1 where step: "mem_try_increment_counter t0 k limit ttl st = (r, st1)"
    and rest: "increments k limit ttl ts st1 = (rs1, st')" and rs: "rs = r # rs1"
    using assms(5) by (auto split: prod.splits)
  have lim: "0 < unat limit" using assms(4) by (simp add: unat_gt_0)
  note counts = mem_counter_counts [OF step, of 0] and from_one = increments_from [OF assms(1,2) _ _ _ rest]
  have "\<forall>t\<ge>t0. shown_by t st1 k = (if t < t0 + ttl then Some (decimal 1) else None)" and r: "r = Inr (Some 1)"
    using counts assms(3) lim by auto
  then have "rs1 = map (\<lambda>i. Inr (if 1 + i < unat limit then Some (of_nat (1 + i + 1)) else None)) [0..<length ts]"
    "\<forall>t\<ge>last (t0 # ts). shown_by t st' k =
      (if t < last_admission (unat limit - 1) t0 ts + ttl then Some (decimal (min (unat limit) (1 + length ts))) else None)"
    using from_one lim by auto
  then show ?thesis
    using lim by (simp add: rs r upt_conv_Cons map_Suc_upt [symmetric] del: upt_Suc)
qed

theorem counter_admits_exactly_its_bound_witness:
  "fst (increments ''sessions:r1'' 2 60 [5, 50, 100, 105] Map.empty) = [Inr (Some 1), Inr (Some 2), Inr None, Inr None] \<and>
   shown_by 110 (snd (increments ''sessions:r1'' 2 60 [5, 50, 100, 105] Map.empty)) ''sessions:r1'' = None"
proof -
  obtain rs st' where run: "increments ''sessions:r1'' 2 60 (5 # [50, 100, 105]) Map.empty = (rs, st')" by force
  have two: "unat (2 :: u64) = 2" by simp
  show ?thesis
    using counter_admits_exactly_its_bound [OF _ _ _ _ run] run
    by (simp add: shown_by_def two upt_rec numeral_2_eq_2 [symmetric])
qed

text \<open>
  The default body of the port and the adapter's override give the same result and the same later
  reads, when nobody else acts between the default's read and its write.
\<close>

lemma default_counter_agrees:
  "fst (try_increment_counter_default memory_port (\<lambda>_ s. s) now k limit ttl st) = fst (mem_try_increment_counter now k limit ttl st) \<and>
   (\<forall>t\<ge>now. shown_by t (snd (try_increment_counter_default memory_port (\<lambda>_ s. s) now k limit ttl st)) =
     shown_by t (snd (mem_try_increment_counter now k limit ttl st)))"
proof -
  obtain r s' where d: "counter_attempts memory_port (\<lambda>_ s. s) now k limit ttl (Suc 15) st = (r, s')" by force
  obtain r' s'' where m: "mem_try_increment_counter now k limit ttl st = (r', s'')" by force
  have "try_increment_counter_default memory_port (\<lambda>_ s. s) now k limit ttl st = (r, s')"
    using d unfolding try_increment_counter_default_def max_counter_attempts_def eval_nat_numeral by simp
  then show ?thesis using memory.counter_alone [OF d] mem_counter_shown [OF m] m by simp
qed

text \<open>
  A write that does not take the key's lock is lost. If another thread's \<^verbatim>\<open>put\<close> falls between the
  comparison and the write of a compare-and-swap, the swap reports success and overwrites it,
  although after that \<^verbatim>\<open>put\<close> the comparison would have failed.
\<close>

lemma unlocked_put_is_lost:
  assumes "cas_compare now k version st = Some version'" and "version \<noteq> - 1" and "0 < ttl" and "0 < ttl'"
  shows "shown_by now (cas_write now k new_value ttl version' (snd (mem_put now k value ttl' st))) k = Some new_value \<and>
    mem_compare_and_swap now k version new_value ttl (snd (mem_put now k value ttl' st)) =
      (Inr None, snd (mem_put now k value ttl' st))"
proof -
  obtain e where e: "st k = Some e" "\<not> is_expired now e" "me_version e = version"
    using assms(1) by (auto simp: cas_compare_def split: option.splits if_splits)
  then have "version + 1 \<noteq> version" and put: "snd (mem_put now k value ttl' st) =
      st(k \<mapsto> \<lparr>me_value = value, me_version = version + 1, me_expires_at = now + ttl'\<rparr>)"
    using assms(2) by (auto simp: mem_put_def live_mem_entry_def saturating_inc_def)
  then show ?thesis
    using assms(3) unfolding put by (auto simp: cas_write_def shown_by_put mem_compare_and_swap_def cas_compare_def is_expired_def)
qed

end
