(* ===== verification/Token_Validation.thy ===== *)
theory Token_Validation
  imports Api_Tokens Ephemeral_Store "HOL-Library.AList"
begin

text \<open>
  Presenting a token: the validation cache of \<^verbatim>\<open>hort-app/src/use_cases/pat_cache.rs\<close>, the validator with
  its brute-force lockout of \<^verbatim>\<open>pat_validation_use_case.rs\<close>, and the principal \<^verbatim>\<open>authenticate_use_case.rs\<close>
  builds from a validation. A call is a function of the ports' outcomes and of the validator's state:
  the cache, the ephemeral store, the number of Argon2 verifications made, and the usage events
  appended. The LRU container is third-party and an argument; \<open>lru_laws\<close> says what its documentation
  promises. Every reading of a clock is its own value: the cache reads it in \<open>cache_get\<close> and in \<open>cache_insert\<close>, the
  validator for the expiry check, the usage record and the principal for their stamps, and the
  ephemeral store in each of its operations. A presentation is composed of \<open>begin_validation\<close> and
  \<open>finish_validation\<close>, so that other tasks can run in between. Mutex poisoning is not modelled.
\<close>

section \<open>The cache\<close>

record api_token_validation =
  av_token_id :: uuid
  av_user_id :: uuid
  av_kind :: token_kind
  av_token_cap :: token_cap
  av_expires_at :: "timestamp option"
  av_revoked_at :: "timestamp option"

record cached_entry =
  ce_validation :: api_token_validation
  ce_inserted_at :: timestamp

record 'l lru =
  lru_peek :: "'l \<Rightarrow> string \<Rightarrow> cached_entry option"
  lru_get :: "'l \<Rightarrow> string \<Rightarrow> cached_entry option \<times> 'l"
  lru_pop :: "'l \<Rightarrow> string \<Rightarrow> cached_entry option \<times> 'l"
  lru_push :: "'l \<Rightarrow> string \<Rightarrow> cached_entry \<Rightarrow> (string \<times> cached_entry) option \<times> 'l"
  lru_iter :: "'l \<Rightarrow> (string \<times> cached_entry) list"
  lru_clear :: "'l \<Rightarrow> 'l"

text \<open>
  The container's documentation: \<^verbatim>\<open>get\<close> returns what \<^verbatim>\<open>peek\<close> does; \<^verbatim>\<open>pop\<close> removes; \<^verbatim>\<open>push\<close> inserts and
  returns the value it replaced under the same key or the pair it evicted; \<^verbatim>\<open>iter\<close> visits the content.
\<close>

definition lru_laws :: "'l lru \<Rightarrow> bool" where
  "lru_laws lru \<longleftrightarrow>
     (\<forall>l k. fst (lru_get lru l k) = lru_peek lru l k \<and> lru_peek lru (snd (lru_get lru l k)) = lru_peek lru l) \<and>
     (\<forall>l k. fst (lru_pop lru l k) = lru_peek lru l k \<and> lru_peek lru (snd (lru_pop lru l k)) = (lru_peek lru l)(k := None)) \<and>
     (\<forall>l k e. case lru_push lru l k e of
        (None, l') \<Rightarrow> lru_peek lru l k = None \<and> lru_peek lru l' = (lru_peek lru l)(k \<mapsto> e)
      | (Some (k', e'), l') \<Rightarrow> lru_peek lru l k' = Some e' \<and> (k' = k \<or> lru_peek lru l k = None) \<and>
          lru_peek lru l' = ((lru_peek lru l)(k' := None))(k \<mapsto> e)) \<and>
     (\<forall>l. set (lru_iter lru l) = {(k, e). lru_peek lru l k = Some e}) \<and>
     (\<forall>l. lru_peek lru (lru_clear lru l) = Map.empty)"

record 'l pat_cache =
  pc_primary :: 'l
  pc_reverse :: "uuid \<rightharpoonup> string"
  pc_ttl :: duration

definition cache_get :: "'l lru \<Rightarrow> timestamp \<Rightarrow> string \<Rightarrow> 'l pat_cache \<Rightarrow> api_token_validation option \<times> 'l pat_cache" where
  "cache_get lru now cache_key c =
     (case lru_peek lru (pc_primary c) cache_key of
        None \<Rightarrow> (None, c)
      | Some entry \<Rightarrow>
          let age = now - ce_inserted_at entry;
              expired = (if 0 \<le> age then pc_ttl c < age else False)
          in if expired then
               (case lru_pop lru (pc_primary c) cache_key of
                  (Some e, l) \<Rightarrow> (None, c\<lparr>pc_primary := l, pc_reverse := (pc_reverse c)(av_token_id (ce_validation e) := None)\<rparr>)
                | (None, l) \<Rightarrow> (None, c\<lparr>pc_primary := l\<rparr>))
             else (case lru_get lru (pc_primary c) cache_key of
                     (e, l) \<Rightarrow> (map_option ce_validation e, c\<lparr>pc_primary := l\<rparr>)))"

definition cache_insert :: "'l lru \<Rightarrow> timestamp \<Rightarrow> string \<Rightarrow> api_token_validation \<Rightarrow> 'l pat_cache \<Rightarrow> 'l pat_cache" where
  "cache_insert lru now cache_key validation c =
     (let token_id = av_token_id validation;
          primary = (case pc_reverse c token_id of
              Some old_key \<Rightarrow> if old_key \<noteq> cache_key then snd (lru_pop lru (pc_primary c) old_key) else pc_primary c
            | None \<Rightarrow> pc_primary c);
          (evicted, primary') = lru_push lru primary cache_key \<lparr>ce_validation = validation, ce_inserted_at = now\<rparr>;
          reverse = (pc_reverse c)(token_id \<mapsto> cache_key)
      in c\<lparr>pc_primary := primary',
           pc_reverse := (case evicted of
             Some (evicted_key, evicted_entry) \<Rightarrow>
               if evicted_key \<noteq> cache_key \<and> av_token_id (ce_validation evicted_entry) \<noteq> token_id
               then reverse(av_token_id (ce_validation evicted_entry) := None) else reverse
           | None \<Rightarrow> reverse)\<rparr>)"

definition invalidate_token :: "'l lru \<Rightarrow> uuid \<Rightarrow> 'l pat_cache \<Rightarrow> 'l pat_cache" where
  "invalidate_token lru token_id c =
     (case pc_reverse c token_id of
        None \<Rightarrow> c
      | Some cache_key \<Rightarrow> c\<lparr>pc_reverse := (pc_reverse c)(token_id := None), pc_primary := snd (lru_pop lru (pc_primary c) cache_key)\<rparr>)"

text \<open>The body of the removal loop of \<^verbatim>\<open>invalidate_user\<close>.\<close>

definition drop_entry :: "'l lru \<Rightarrow> 'l pat_cache \<Rightarrow> string \<times> cached_entry \<Rightarrow> 'l pat_cache" where
  "drop_entry lru c x =
     (case x of (cache_key, entry) \<Rightarrow>
        c\<lparr>pc_primary := snd (lru_pop lru (pc_primary c) cache_key),
          pc_reverse := (pc_reverse c)(av_token_id (ce_validation entry) := None)\<rparr>)"

definition invalidate_user :: "'l lru \<Rightarrow> uuid \<Rightarrow> 'l pat_cache \<Rightarrow> 'l pat_cache" where
  "invalidate_user lru user_id c =
     foldl (drop_entry lru) c
       (filter (\<lambda>(_, entry). av_user_id (ce_validation entry) = user_id) (lru_iter lru (pc_primary c)))"

definition drop_all :: "'l lru \<Rightarrow> 'l pat_cache \<Rightarrow> 'l pat_cache" where
  "drop_all lru c = c\<lparr>pc_primary := lru_clear lru (pc_primary c), pc_reverse := Map.empty\<rparr>"

section \<open>Lockout keys\<close>

datatype ip_addr = IpV4 u8 u8 u8 u8 | IpV6 "16 word list"

text \<open>\<^verbatim>\<open>IpAddr::to_canonical\<close>: an IPv4-mapped IPv6 address is the IPv4 address.\<close>

definition to_canonical :: "ip_addr \<Rightarrow> ip_addr" where
  "to_canonical ip =
     (case ip of
        IpV6 segments \<Rightarrow>
          if length segments = 8 \<and> take 6 segments = [0, 0, 0, 0, 0, 0xFFFF]
          then IpV4 (ucast (drop_bit 8 (segments ! 6))) (ucast (segments ! 6)) (ucast (drop_bit 8 (segments ! 7))) (ucast (segments ! 7))
          else ip
      | IpV4 _ _ _ _ \<Rightarrow> ip)"

fun hex_lower :: "nat \<Rightarrow> string" where
  "hex_lower n = (let d = (\<lambda>k. char_of ((if k < 10 then 48 else 87) + k)) in
     if n < 16 then [d n] else hex_lower (n div 16) @ [d (n mod 16)])"

definition client_ip_bucket :: "ip_addr \<Rightarrow> string" where
  "client_ip_bucket ip =
     (case to_canonical ip of
        IpV4 a b c _ \<Rightarrow> decimal (unat a) @ ''.'' @ decimal (unat b) @ ''.'' @ decimal (unat c) @ ''.0/24''
      | IpV6 segments \<Rightarrow> hex_lower (unat (segments ! 0)) @ '':'' @ hex_lower (unat (segments ! 1)) @ '':'' @
          hex_lower (unat (segments ! 2)) @ ''::/48'')"

record lockout_keys =
  lk_counter_key :: string
  lk_flag_key :: string

definition new_lockout_keys :: "ip_addr \<Rightarrow> lockout_keys" where
  "new_lockout_keys client_ip =
     (let bucket = client_ip_bucket client_ip
      in \<lparr>lk_counter_key = ''pat-attempt-counter:'' @ bucket, lk_flag_key = ''pat-attempt:'' @ bucket\<rparr>)"

definition encode_count :: "u64 \<Rightarrow> string" where
  "encode_count n = be_bytes 8 (unat n)"

definition decode_count :: "string \<Rightarrow> u64 option" where
  "decode_count b = (if length b \<noteq> 8 then None else Some (of_nat (foldl (\<lambda>acc c. acc * 256 + of_char c) 0 b)))"

section \<open>The validator\<close>

record pat_lockout_config =
  lc_threshold :: u32
  lc_window :: duration
  lc_duration :: duration

definition default_lockout_config :: pat_lockout_config where
  "default_lockout_config = \<lparr>lc_threshold = 30, lc_window = secs 300, lc_duration = secs 900\<rparr>"

datatype pat_fault = FromRepository "token_msg domain_error" | FromEphemeral ephemeral_error

datatype pat_validation_error =
    RateLimited | PrefixNotFound | HashMismatch | TokenExpired | TokenRevoked | UserDeactivated |
    PatInfrastructure pat_fault

datatype token_format_error = BadLength | UnknownKind | NonBase32Body

definition is_base32_char :: "char \<Rightarrow> bool" where
  "is_base32_char c \<longleftrightarrow> (let b = (of_char c :: nat) in 97 \<le> b \<and> b \<le> 122 \<or> 50 \<le> b \<and> b \<le> 55)"

definition parse_pat_token_format :: "string \<Rightarrow> token_format_error + token_kind \<times> string" where
  "parse_pat_token_format s =
     (if length s \<noteq> 41 then Inl BadLength
      else if take 5 s \<noteq> ''hort_'' \<or> s ! 8 \<noteq> CHR ''_'' then Inl UnknownKind
      else
        let code = take 3 (drop 5 s);
            body = drop 9 s;
            check = (\<lambda>kind. if \<not> list_all is_base32_char body then Inl NonBase32Body else Inr (kind, take 8 body))
        in if code = ''pat'' then check Pat
           else if code = ''svc'' then check ServiceAccount
           else Inl UnknownKind)"

text \<open>
  \<open>ve_tick\<close> gives the readings of the ephemeral store's clock, in the order of the operations of a call: the lockout
  flag, the counter's read and its write, the raising of the flag, and the throttle of the usage record.
\<close>

record validation_env =
  ve_find_by_prefix :: "string \<Rightarrow> token_msg domain_error + api_token option"
  ve_find_user :: "uuid \<Rightarrow> token_msg domain_error + user"
  ve_verify :: "string \<Rightarrow> string \<Rightarrow> bool"
  ve_sentinel_hash :: string
  ve_digest :: "string \<Rightarrow> string"
  ve_uuid_str :: "uuid \<Rightarrow> string"
  ve_get_now :: timestamp
  ve_now :: timestamp
  ve_insert_now :: timestamp
  ve_used_now :: timestamp
  ve_issued_now :: timestamp
  ve_tick :: "nat \<Rightarrow> timestamp"
  ve_config :: pat_lockout_config
  ve_audit :: "(token_msg domain_error + unit) option"

record api_token_used =
  tu_token_id :: uuid
  tu_user_id :: uuid
  tu_kind :: token_kind
  tu_occurred_at :: timestamp

record ('l, 's) validator =
  vl_cache :: "'l pat_cache"
  vl_ephemeral :: 's
  vl_verifications :: nat
  vl_used :: "api_token_used list"

type_synonym ('l, 's, 'a) validation_result = "(pat_validation_error + 'a) \<times> ('l, 's) validator"

definition bookkeep_failure ::
    "'s ephemeral_port \<Rightarrow> validation_env \<Rightarrow> lockout_keys option \<Rightarrow> 's \<Rightarrow> (ephemeral_error + unit) \<times> 's" where
  "bookkeep_failure port env keys s =
     (case keys of
        None \<Rightarrow> (Inr (), s)
      | Some keys \<Rightarrow>
          and_then_st (ep_get port (ve_tick env 1) (lk_counter_key keys) s) (\<lambda>value s1.
            and_then_st
              (case value of
                 Some v \<Rightarrow>
                   let n = saturating_inc (case decode_count v of Some m \<Rightarrow> m | None \<Rightarrow> 0)
                   in and_then_st (ep_put port (ve_tick env 2) (lk_counter_key keys) (encode_count n) (lc_window (ve_config env)) s1)
                        (\<lambda>_ s2. (Inr n, s2))
               | None \<Rightarrow>
                   and_then_st (ep_put_if_absent port (ve_tick env 2) (lk_counter_key keys) (encode_count 1) (lc_window (ve_config env)) s1)
                     (\<lambda>_ s2. (Inr 1, s2)))
              (\<lambda>new_count s3.
                if (ucast (lc_threshold (ve_config env)) :: u64) \<le> new_count
                then ep_put port (ve_tick env 3) (lk_flag_key keys) ''1'' (lc_duration (ve_config env)) s3
                else (Inr (), s3))))"

text \<open>A failed validation is booked first; if the booking fails, that is the error.\<close>

definition fail_with ::
    "'s ephemeral_port \<Rightarrow> validation_env \<Rightarrow> lockout_keys option \<Rightarrow> pat_validation_error \<Rightarrow> ('l, 's) validator
     \<Rightarrow> ('l, 's, 'a) validation_result" where
  "fail_with port env keys err st =
     (case bookkeep_failure port env keys (vl_ephemeral st) of
        (Inl e, s) \<Rightarrow> (Inl (PatInfrastructure (FromEphemeral e)), st\<lparr>vl_ephemeral := s\<rparr>)
      | (Inr _, s) \<Rightarrow> (Inl err, st\<lparr>vl_ephemeral := s\<rparr>))"

text \<open>The checks made on a warm entry and on a verified row alike: expiry, revocation, the live user.\<close>

definition recheck ::
    "'s ephemeral_port \<Rightarrow> validation_env \<Rightarrow> lockout_keys option \<Rightarrow> timestamp option \<Rightarrow> timestamp option \<Rightarrow> uuid
     \<Rightarrow> ('l, 's) validator \<Rightarrow> ('l, 's, unit) validation_result" where
  "recheck port env keys expires_at revoked_at user_id st =
     (if (case expires_at of Some exp \<Rightarrow> exp \<le> ve_now env | None \<Rightarrow> False) then fail_with port env keys TokenExpired st
      else if revoked_at \<noteq> None then fail_with port env keys TokenRevoked st
      else case ve_find_user env user_id of
        Inl e \<Rightarrow> (Inl (PatInfrastructure (FromRepository e)), st)
      | Inr user \<Rightarrow> if \<not> us_is_active user then fail_with port env keys UserDeactivated st else (Inr (), st))"

definition consult_lockout ::
    "'s ephemeral_port \<Rightarrow> validation_env \<Rightarrow> lockout_keys option \<Rightarrow> ('l, 's) validator \<Rightarrow> ('l, 's, unit) validation_result" where
  "consult_lockout port env keys st =
     (case keys of
        None \<Rightarrow> (Inr (), st)
      | Some keys \<Rightarrow>
          (case ep_get port (ve_tick env 0) (lk_flag_key keys) (vl_ephemeral st) of
             (Inl e, s) \<Rightarrow> (Inl (PatInfrastructure (FromEphemeral e)), st\<lparr>vl_ephemeral := s\<rparr>)
           | (Inr (Some _), s) \<Rightarrow> (Inl RateLimited, st\<lparr>vl_ephemeral := s\<rparr>)
           | (Inr None, s) \<Rightarrow> (Inr (), st\<lparr>vl_ephemeral := s\<rparr>)))"

definition validation_of :: "api_token \<Rightarrow> api_token_validation" where
  "validation_of token =
     \<lparr>av_token_id = tk_id token, av_user_id = tk_user_id token, av_kind = tk_kind token,
      av_token_cap = \<lparr>cap_permissions = tk_declared_permissions token, cap_repository_ids = tk_repository_ids token,
        cap_per_repository_permissions = None\<rparr>,
      av_expires_at = tk_expires_at token, av_revoked_at = tk_revoked_at token\<rparr>"

text \<open>The cache miss: exactly one verification, against the sentinel when no row was found, then the checks.\<close>

definition verify_lookup ::
    "'s ephemeral_port \<Rightarrow> 'l lru \<Rightarrow> validation_env \<Rightarrow> lockout_keys option \<Rightarrow> string \<Rightarrow> api_token option \<Rightarrow> ('l, 's) validator
     \<Rightarrow> ('l, 's, api_token_validation) validation_result" where
  "verify_lookup port lru env keys token_plaintext lookup st =
     (let st1 = st\<lparr>vl_verifications := vl_verifications st + 1\<rparr> in
      case lookup of
        None \<Rightarrow>
          let _ = ve_verify env token_plaintext (ve_sentinel_hash env)
          in fail_with port env keys PrefixNotFound st1
      | Some token \<Rightarrow>
          if \<not> ve_verify env token_plaintext (tk_token_hash token) then fail_with port env keys HashMismatch st1
          else and_then_st
            (recheck port env keys (tk_expires_at token) (tk_revoked_at token) (tk_user_id token) st1)
            (\<lambda>_ st2. (Inr (validation_of token),
               st2\<lparr>vl_cache := cache_insert lru (ve_insert_now env) (ve_digest env token_plaintext) (validation_of token) (vl_cache st2)\<rparr>)))"

definition lookup_row :: "validation_env \<Rightarrow> string \<Rightarrow> token_msg domain_error + api_token option" where
  "lookup_row env token_plaintext =
     (case parse_pat_token_format token_plaintext of
        Inr (_, body_prefix) \<Rightarrow> ve_find_by_prefix env body_prefix
      | Inl _ \<Rightarrow> Inr None)"

text \<open>
  The lockout and the cache, up to the first answer of the cache; then what follows a hit or a row. Between
  the two, and before the lookup of the row, other tasks may run: \<open>Got\<close> is a presentation that has asked
  the cache, \<open>Looked\<close> one that has asked the table as well.
\<close>

definition begin_validation ::
    "'s ephemeral_port \<Rightarrow> 'l lru \<Rightarrow> validation_env \<Rightarrow> lockout_keys option \<Rightarrow> string \<Rightarrow> ('l, 's) validator
     \<Rightarrow> ('l, 's, api_token_validation option) validation_result" where
  "begin_validation port lru env keys token_plaintext st =
     and_then_st (consult_lockout port env keys st) (\<lambda>_ st1.
       case cache_get lru (ve_get_now env) (ve_digest env token_plaintext) (vl_cache st1) of
         (got, c) \<Rightarrow> (Inr got, st1\<lparr>vl_cache := c\<rparr>))"

datatype stage = Got "api_token_validation option" | Looked "api_token option"

definition finish_validation ::
    "'s ephemeral_port \<Rightarrow> 'l lru \<Rightarrow> validation_env \<Rightarrow> lockout_keys option \<Rightarrow> string \<Rightarrow> stage \<Rightarrow> ('l, 's) validator
     \<Rightarrow> ('l, 's, api_token_validation) validation_result" where
  "finish_validation port lru env keys token_plaintext stage st =
     (case stage of
        Got (Some cached) \<Rightarrow>
          and_then_st (recheck port env keys (av_expires_at cached) (av_revoked_at cached) (av_user_id cached) st)
            (\<lambda>_ st2. (Inr cached, st2))
      | Got None \<Rightarrow>
          (case lookup_row env token_plaintext of
             Inl e \<Rightarrow> (Inl (PatInfrastructure (FromRepository e)), st)
           | Inr lookup \<Rightarrow> verify_lookup port lru env keys token_plaintext lookup st)
      | Looked lookup \<Rightarrow> verify_lookup port lru env keys token_plaintext lookup st)"

definition validate_pat_inner ::
    "'s ephemeral_port \<Rightarrow> 'l lru \<Rightarrow> validation_env \<Rightarrow> string \<Rightarrow> ip_addr option \<Rightarrow> ('l, 's) validator
     \<Rightarrow> ('l, 's, api_token_validation) validation_result" where
  "validate_pat_inner port lru env token_plaintext client_ip st =
     (let keys = map_option new_lockout_keys client_ip in
      and_then_st (begin_validation port lru env keys token_plaintext st) (\<lambda>got st1.
        finish_validation port lru env keys token_plaintext (Got got) st1))"

definition token_use_throttle_ttl :: duration where "token_use_throttle_ttl = secs 3600"

definition maybe_emit_token_use ::
    "'s ephemeral_port \<Rightarrow> validation_env \<Rightarrow> api_token_validation \<Rightarrow> ('l, 's) validator \<Rightarrow> ('l, 's) validator" where
  "maybe_emit_token_use port env v st =
     (case ve_audit env of
        None \<Rightarrow> st
      | Some appended \<Rightarrow>
          (case ep_put_if_absent port (ve_tick env 4) (''token_use:audit:throttle:'' @ ve_uuid_str env (av_token_id v)) ''1''
              token_use_throttle_ttl (vl_ephemeral st) of
             (won, s) \<Rightarrow>
               let st1 = st\<lparr>vl_ephemeral := s\<rparr>;
                   was_first = (case won of Inr b \<Rightarrow> b | Inl _ \<Rightarrow> True)
               in if \<not> was_first then st1
                  else case appended of
                    Inl _ \<Rightarrow> st1
                  | Inr _ \<Rightarrow> st1\<lparr>vl_used := vl_used st1 @ [\<lparr>tu_token_id = av_token_id v, tu_user_id = av_user_id v,
                      tu_kind = av_kind v, tu_occurred_at = ve_used_now env\<rparr>]\<rparr>))"

definition validate_pat ::
    "'s ephemeral_port \<Rightarrow> 'l lru \<Rightarrow> validation_env \<Rightarrow> string \<Rightarrow> ip_addr option \<Rightarrow> ('l, 's) validator
     \<Rightarrow> ('l, 's, api_token_validation) validation_result" where
  "validate_pat port lru env token_plaintext client_ip st =
     (case validate_pat_inner port lru env token_plaintext client_ip st of
        (Inr v, st') \<Rightarrow> (Inr v, maybe_emit_token_use port env v st')
      | (Inl e, st') \<Rightarrow> (Inl e, st'))"

section \<open>The principal\<close>

datatype auth_error = Unauthorized string | AuthDomain pat_fault

fun map_pat_error :: "pat_validation_error \<Rightarrow> auth_error" where
  "map_pat_error (PatInfrastructure d) = AuthDomain d"
| "map_pat_error RateLimited = Unauthorized ''rate limited''"
| "map_pat_error PrefixNotFound = Unauthorized ''prefix not found''"
| "map_pat_error HashMismatch = Unauthorized ''hash mismatch''"
| "map_pat_error TokenExpired = Unauthorized ''token expired''"
| "map_pat_error TokenRevoked = Unauthorized ''token revoked''"
| "map_pat_error UserDeactivated = Unauthorized ''user deactivated''"

definition token_principal :: "validation_env \<Rightarrow> user \<Rightarrow> api_token_validation \<Rightarrow> caller_principal" where
  "token_principal env user validation =
     \<lparr>pr_user_id = us_id user,
      pr_external_id = (case us_external_id user of Some x \<Rightarrow> x | None \<Rightarrow> ve_uuid_str env (us_id user)),
      pr_username = us_username user, pr_email = us_email user,
      pr_claims = add_admin_claim_if_admin [] (us_is_admin user),
      pr_token_kind = Some (av_kind validation), pr_issued_at = ve_issued_now env,
      pr_token_cap = Some (av_token_cap validation)\<rparr>"

text \<open>\<open>live_user\<close> is the second, live read of the user row.\<close>

definition authenticate_pat ::
    "'s ephemeral_port \<Rightarrow> 'l lru \<Rightarrow> validation_env \<Rightarrow> (uuid \<Rightarrow> token_msg domain_error + user) \<Rightarrow> string \<Rightarrow> ip_addr option
     \<Rightarrow> ('l, 's) validator \<Rightarrow> (auth_error + caller_principal) \<times> ('l, 's) validator" where
  "authenticate_pat port lru env live_user token client_ip st =
     (case validate_pat port lru env token client_ip st of
        (Inl e, st') \<Rightarrow> (Inl (map_pat_error e), st')
      | (Inr validation, st') \<Rightarrow>
          (case live_user (av_user_id validation) of
             Inl e \<Rightarrow> (Inl (AuthDomain (FromRepository e)), st')
           | Inr user \<Rightarrow> (Inr (token_principal env user validation), st')))"

end
