(* ===== verification/Token_Cache.thy ===== *)
theory Token_Cache
  imports Token_Validation
begin

text \<open>
  What the validation cache guarantees, whatever the container evicts: the reverse index finds every
  cached validation of a token, so the invalidations are complete, and a hit is a validation that was
  inserted under that very key within the cache's lifetime.
\<close>

section \<open>The two indices\<close>

abbreviation cached :: "'l lru \<Rightarrow> 'l pat_cache \<Rightarrow> string \<Rightarrow> cached_entry option" where
  "cached lru c \<equiv> lru_peek lru (pc_primary c)"

definition indexed :: "'l lru \<Rightarrow> 'l pat_cache \<Rightarrow> bool" where
  "indexed lru c \<longleftrightarrow> (\<forall>k e. cached lru c k = Some e \<longrightarrow> pc_reverse c (av_token_id (ce_validation e)) = Some k)"

lemma lru_lawsD:
  assumes "lru_laws lru"
  shows "fst (lru_get lru l k) = lru_peek lru l k" and "lru_peek lru (snd (lru_get lru l k)) = lru_peek lru l"
    and "fst (lru_pop lru l k) = lru_peek lru l k" and "lru_peek lru (snd (lru_pop lru l k)) = (lru_peek lru l)(k := None)"
    and "set (lru_iter lru l) = {(k, e). lru_peek lru l k = Some e}" and "lru_peek lru (lru_clear lru l) = Map.empty"
  using assms by (simp_all add: lru_laws_def)

lemma lru_push_cases:
  assumes "lru_laws lru" and "lru_push lru l k e = (evicted, l')"
  obtains "evicted = None" and "lru_peek lru l k = None" and "lru_peek lru l' = (lru_peek lru l)(k \<mapsto> e)"
  | k' e' where "evicted = Some (k', e')" and "lru_peek lru l k' = Some e'" and "k' = k \<or> lru_peek lru l k = None"
    and "lru_peek lru l' = ((lru_peek lru l)(k' := None))(k \<mapsto> e)"
proof -
  have "case lru_push lru l k e of
        (None, l') \<Rightarrow> lru_peek lru l k = None \<and> lru_peek lru l' = (lru_peek lru l)(k \<mapsto> e)
      | (Some (k', e'), l') \<Rightarrow> lru_peek lru l k' = Some e' \<and> (k' = k \<or> lru_peek lru l k = None) \<and>
          lru_peek lru l' = ((lru_peek lru l)(k' := None))(k \<mapsto> e)"
    using assms(1) by (simp add: lru_laws_def)
  then show ?thesis using assms(2) that by (cases evicted) auto
qed

lemma indexedD: "indexed lru c \<Longrightarrow> cached lru c k = Some e \<Longrightarrow> pc_reverse c (av_token_id (ce_validation e)) = Some k"
  by (simp add: indexed_def)

lemma indexed_drop:
  assumes "indexed lru c" and "cached lru c key = Some e" and "lru_peek lru l = (cached lru c)(key := None)"
  shows "indexed lru (c\<lparr>pc_primary := l, pc_reverse := (pc_reverse c)(av_token_id (ce_validation e) := None)\<rparr>)"
  unfolding indexed_def
proof (intro allI impI)
  fix k e'
  assume "lru_peek lru (pc_primary (c\<lparr>pc_primary := l, pc_reverse := (pc_reverse c)(av_token_id (ce_validation e) := None)\<rparr>)) k = Some e'"
  then have "k \<noteq> key" "cached lru c k = Some e'" using assms(3) by (auto split: if_splits)
  then show "pc_reverse (c\<lparr>pc_primary := l, pc_reverse := (pc_reverse c)(av_token_id (ce_validation e) := None)\<rparr>)
      (av_token_id (ce_validation e')) = Some k"
    using indexedD [OF assms(1), of k e'] indexedD [OF assms(1,2)] by auto
qed

text \<open>What a lookup returns and leaves.\<close>

lemma cache_get_result:
  assumes "lru_laws lru" and "cache_get lru now key c = (r, c')"
  shows "pc_ttl c' = pc_ttl c"
    and "cached lru c' k = Some e \<Longrightarrow> cached lru c k = Some e"
    and "r = Some v \<Longrightarrow> \<exists>e. cached lru c key = Some e \<and> v = ce_validation e \<and> now - ce_inserted_at e \<le> max 0 (pc_ttl c)"
    and "r = None \<Longrightarrow> cached lru c' key = None"
    and "indexed lru c \<Longrightarrow> indexed lru c'"
proof -
  have "pc_ttl c' = pc_ttl c \<and> (\<forall>k e. cached lru c' k = Some e \<longrightarrow> cached lru c k = Some e) \<and>
    (\<forall>v. r = Some v \<longrightarrow> (\<exists>e. cached lru c key = Some e \<and> v = ce_validation e \<and> now - ce_inserted_at e \<le> max 0 (pc_ttl c))) \<and>
    (r = None \<longrightarrow> cached lru c' key = None) \<and> (indexed lru c \<longrightarrow> indexed lru c')"
  proof (cases "cached lru c key")
    case None
    then show ?thesis using assms(2) by (simp add: cache_get_def)
  next
    case (Some e)
    let ?expired = "0 \<le> now - ce_inserted_at e \<and> pc_ttl c < now - ce_inserted_at e"
    obtain l where pop: "lru_pop lru (pc_primary c) key = (Some e, l)" and l: "lru_peek lru l = (cached lru c)(key := None)"
      using lru_lawsD(3,4) [OF assms(1), of "pc_primary c" key] Some by (metis prod.collapse)
    obtain l' where get: "lru_get lru (pc_primary c) key = (Some e, l')" and l': "lru_peek lru l' = cached lru c"
      using lru_lawsD(1,2) [OF assms(1), of "pc_primary c" key] Some by (metis prod.collapse)
    have "(r, c') = (if ?expired then (None, c\<lparr>pc_primary := l, pc_reverse := (pc_reverse c)(av_token_id (ce_validation e) := None)\<rparr>)
        else (Some (ce_validation e), c\<lparr>pc_primary := l'\<rparr>))"
      using assms(2) by (simp add: cache_get_def Some pop get Let_def split: if_splits)
    then show ?thesis
      using Some indexed_drop [OF _ Some l] by (auto simp: l l' indexed_def [of lru "c\<lparr>pc_primary := l'\<rparr>"] dest: indexedD split: if_splits)
  qed
  then show "pc_ttl c' = pc_ttl c" "cached lru c' k = Some e \<Longrightarrow> cached lru c k = Some e"
    "r = Some v \<Longrightarrow> \<exists>e. cached lru c key = Some e \<and> v = ce_validation e \<and> now - ce_inserted_at e \<le> max 0 (pc_ttl c)"
    "r = None \<Longrightarrow> cached lru c' key = None" "indexed lru c \<Longrightarrow> indexed lru c'"
    by blast+
qed

lemma cache_insert_result:
  assumes "lru_laws lru" and "indexed lru c"
  shows "pc_ttl (cache_insert lru now key v c) = pc_ttl c"
    and "cached lru (cache_insert lru now key v c) k = Some e \<Longrightarrow>
      k = key \<and> e = \<lparr>ce_validation = v, ce_inserted_at = now\<rparr> \<or> k \<noteq> key \<and> cached lru c k = Some e"
    and "cached lru (cache_insert lru now key v c) key = Some \<lparr>ce_validation = v, ce_inserted_at = now\<rparr>"
    and "indexed lru (cache_insert lru now key v c)"
proof -
  let ?entry = "\<lparr>ce_validation = v, ce_inserted_at = now\<rparr>"
  define primary where "primary = (case pc_reverse c (av_token_id v) of
      Some old_key \<Rightarrow> if old_key \<noteq> key then snd (lru_pop lru (pc_primary c) old_key) else pc_primary c | None \<Rightarrow> pc_primary c)"
  obtain evicted l where push: "lru_push lru primary key ?entry = (evicted, l)" by force
  have pri: "lru_peek lru primary k = Some e \<Longrightarrow> cached lru c k = Some e" for k e
    using lru_lawsD(4) [OF assms(1)] by (auto simp: primary_def split: option.splits if_splits)
  have own: "k = key" if "lru_peek lru primary k = Some e" "av_token_id (ce_validation e) = av_token_id v" for k e
  proof (rule ccontr)
    assume "k \<noteq> key"
    have "pc_reverse c (av_token_id v) = Some k" using indexedD [OF assms(2) pri [OF that(1)]] that(2) by simp
    then have "primary = snd (lru_pop lru (pc_primary c) k)" using \<open>k \<noteq> key\<close> by (simp add: primary_def)
    then show False using lru_lawsD(4) [OF assms(1)] that(1) by simp
  qed
  let ?c = "cache_insert lru now key v c"
  have c': "?c = c\<lparr>pc_primary := l, pc_reverse := (case evicted of
      Some (k', e') \<Rightarrow> if k' \<noteq> key \<and> av_token_id (ce_validation e') \<noteq> av_token_id v
        then ((pc_reverse c)(av_token_id v \<mapsto> key))(av_token_id (ce_validation e') := None) else (pc_reverse c)(av_token_id v \<mapsto> key)
    | None \<Rightarrow> (pc_reverse c)(av_token_id v \<mapsto> key))\<rparr>"
    by (simp add: cache_insert_def Let_def primary_def [symmetric] push)
  show "pc_ttl ?c = pc_ttl c" unfolding c' by simp
  have l: "lru_peek lru l key = Some ?entry \<and> (\<forall>k e. lru_peek lru l k = Some e \<longrightarrow> k = key \<and> e = ?entry \<or> k \<noteq> key \<and> lru_peek lru primary k = Some e)"
    using assms(1) push by (rule lru_push_cases) auto
  then show "cached lru ?c k = Some e \<Longrightarrow> k = key \<and> e = ?entry \<or> k \<noteq> key \<and> cached lru c k = Some e"
    and "cached lru ?c key = Some ?entry"
    using pri unfolding c' by auto
  show "indexed lru ?c"
    unfolding indexed_def
  proof (intro allI impI)
    fix k e assume e: "cached lru ?c k = Some e"
    show "pc_reverse ?c (av_token_id (ce_validation e)) = Some k"
    proof (cases "k = key")
      case True
      then have "e = ?entry" using e l unfolding c' by auto
      then show ?thesis using True unfolding c' by (auto split: option.splits)
    next
      case False
      then have pk: "lru_peek lru primary k = Some e" using e l unfolding c' by auto
      then have "av_token_id (ce_validation e) \<noteq> av_token_id v" using own False by blast
      moreover have rev: "pc_reverse c (av_token_id (ce_validation e)) = Some k" using indexedD [OF assms(2) pri [OF pk]] .
      moreover have "av_token_id (ce_validation e') \<noteq> av_token_id (ce_validation e)" if ev: "evicted = Some (k', e')" "k' \<noteq> key" for k' e'
      proof -
        from assms(1) push have "lru_peek lru primary k' = Some e' \<and> k \<noteq> k'"
          by (rule lru_push_cases) (use ev e False in \<open>auto simp: c' split: if_splits\<close>)
        then show ?thesis using indexedD [OF assms(2) pri] rev by fastforce
      qed
      ultimately show ?thesis unfolding c' by (auto split: option.splits)
    qed
  qed
qed

section \<open>Invalidation\<close>

lemma invalidate_token_result:
  assumes "lru_laws lru" and "indexed lru c"
  shows "pc_ttl (invalidate_token lru i c) = pc_ttl c" and "indexed lru (invalidate_token lru i c)"
    and "cached lru (invalidate_token lru i c) k = Some e \<Longrightarrow> cached lru c k = Some e \<and> av_token_id (ce_validation e) \<noteq> i"
proof -
  have "pc_ttl (invalidate_token lru i c) = pc_ttl c \<and> indexed lru (invalidate_token lru i c) \<and>
    (\<forall>k e. cached lru (invalidate_token lru i c) k = Some e \<longrightarrow> cached lru c k = Some e \<and> av_token_id (ce_validation e) \<noteq> i)"
  proof (cases "pc_reverse c i")
    case None
    then show ?thesis using assms(2) indexedD [OF assms(2)] by (auto simp: invalidate_token_def)
  next
    case (Some key)
    have peek: "lru_peek lru (snd (lru_pop lru (pc_primary c) key)) = (cached lru c)(key := None)"
      by (rule lru_lawsD(4) [OF assms(1)])
    have "av_token_id (ce_validation e) \<noteq> i" if "k \<noteq> key" "cached lru c k = Some e" for k e
      using indexedD [OF assms(2) that(2)] Some that(1) by auto
    then show ?thesis
      using Some indexedD [OF assms(2)] by (auto simp: invalidate_token_def peek indexed_def split: if_splits)
  qed
  then show "pc_ttl (invalidate_token lru i c) = pc_ttl c" "indexed lru (invalidate_token lru i c)"
    "cached lru (invalidate_token lru i c) k = Some e \<Longrightarrow> cached lru c k = Some e \<and> av_token_id (ce_validation e) \<noteq> i"
    by blast+
qed

text \<open>The walk of \<open>invalidate_user\<close> over the entries it collected.\<close>

lemma drop_entry_fields:
  assumes "lru_laws lru"
  shows "cached lru (drop_entry lru c (k, e)) = (cached lru c)(k := None)"
    and "pc_reverse (drop_entry lru c (k, e)) = (pc_reverse c)(av_token_id (ce_validation e) := None)"
    and "pc_ttl (drop_entry lru c (k, e)) = pc_ttl c"
  using lru_lawsD(4) [OF assms] by (simp_all add: drop_entry_def)

lemma drop_entries:
  assumes "lru_laws lru" and "indexed lru c"
    and "\<forall>(k, e)\<in>set xs. \<forall>k' e'. cached lru c k' = Some e' \<longrightarrow> av_token_id (ce_validation e') = av_token_id (ce_validation e) \<longrightarrow> k' = k"
  shows "indexed lru (foldl (drop_entry lru) c xs) \<and> pc_ttl (foldl (drop_entry lru) c xs) = pc_ttl c \<and>
    cached lru (foldl (drop_entry lru) c xs) = (\<lambda>k. if k \<in> fst ` set xs then None else cached lru c k)"
  using assms(2-)
proof (induction xs arbitrary: c)
  case (Cons x xs)
  obtain k e where x: "x = (k, e)" by force
  note fields = drop_entry_fields [OF assms(1), of c k e]
  have "indexed lru (drop_entry lru c (k, e))"
    unfolding indexed_def fields
  proof (intro allI impI)
    fix k' e' assume "((cached lru c)(k := None)) k' = Some e'"
    then have k': "k' \<noteq> k" "cached lru c k' = Some e'" by (auto split: if_splits)
    then have "av_token_id (ce_validation e') \<noteq> av_token_id (ce_validation e)" using Cons.prems(2) x by auto
    then show "((pc_reverse c)(av_token_id (ce_validation e) := None)) (av_token_id (ce_validation e')) = Some k'"
      using indexedD [OF Cons.prems(1) k'(2)] by simp
  qed
  moreover have "\<forall>(k'', e'')\<in>set xs. \<forall>k' e'. cached lru (drop_entry lru c (k, e)) k' = Some e' \<longrightarrow>
      av_token_id (ce_validation e') = av_token_id (ce_validation e'') \<longrightarrow> k' = k''"
    unfolding fields using Cons.prems(2) by (auto split: if_splits)
  ultimately show ?case using Cons.IH [of "drop_entry lru c (k, e)"] by (auto simp: x fields)
qed simp

lemma invalidate_user_result:
  assumes "lru_laws lru" and "indexed lru c"
  shows "pc_ttl (invalidate_user lru u c) = pc_ttl c" and "indexed lru (invalidate_user lru u c)"
    and "cached lru (invalidate_user lru u c) k = Some e \<Longrightarrow> cached lru c k = Some e \<and> av_user_id (ce_validation e) \<noteq> u"
proof -
  let ?xs = "filter (\<lambda>(_, entry). av_user_id (ce_validation entry) = u) (lru_iter lru (pc_primary c))"
  have xs: "set ?xs = {(k, e). cached lru c k = Some e \<and> av_user_id (ce_validation e) = u}"
    using lru_lawsD(5) [OF assms(1)] by auto
  have "k' = k" if "cached lru c k = Some e" "cached lru c k' = Some e'" "av_token_id (ce_validation e') = av_token_id (ce_validation e)"
    for k e k' e' using indexedD [OF assms(2) that(1)] indexedD [OF assms(2) that(2)] that(3) by simp
  then have "indexed lru (invalidate_user lru u c) \<and> pc_ttl (invalidate_user lru u c) = pc_ttl c \<and>
      cached lru (invalidate_user lru u c) = (\<lambda>k. if k \<in> fst ` set ?xs then None else cached lru c k)"
    unfolding invalidate_user_def by (intro drop_entries [OF assms]) (auto simp: xs simp del: set_filter)
  then show "pc_ttl (invalidate_user lru u c) = pc_ttl c" "indexed lru (invalidate_user lru u c)"
    "cached lru (invalidate_user lru u c) k = Some e \<Longrightarrow> cached lru c k = Some e \<and> av_user_id (ce_validation e) \<noteq> u"
    unfolding xs by (auto simp: image_iff split: if_splits)
qed

lemma drop_all_result:
  assumes "lru_laws lru"
  shows "pc_ttl (drop_all lru c) = pc_ttl c" and "indexed lru (drop_all lru c)" and "cached lru (drop_all lru c) = Map.empty"
  using lru_lawsD(6) [OF assms] by (simp_all add: drop_all_def indexed_def)

section \<open>Runs of the cache\<close>

datatype cache_op =
    CacheGet timestamp string
  | CacheInsert timestamp string api_token_validation
  | CacheInvalidateToken uuid
  | CacheInvalidateUser uuid
  | CacheDropAll

fun apply_cache_op :: "'l lru \<Rightarrow> cache_op \<Rightarrow> 'l pat_cache \<Rightarrow> 'l pat_cache" where
  "apply_cache_op lru (CacheGet now k) c = snd (cache_get lru now k c)"
| "apply_cache_op lru (CacheInsert now k v) c = cache_insert lru now k v c"
| "apply_cache_op lru (CacheInvalidateToken i) c = invalidate_token lru i c"
| "apply_cache_op lru (CacheInvalidateUser u) c = invalidate_user lru u c"
| "apply_cache_op lru CacheDropAll c = drop_all lru c"

definition run_cache :: "'l lru \<Rightarrow> cache_op list \<Rightarrow> 'l pat_cache \<Rightarrow> 'l pat_cache" where
  "run_cache lru ops c = foldl (\<lambda>c op. apply_cache_op lru op c) c ops"

definition new_cache :: "'l \<Rightarrow> duration \<Rightarrow> 'l pat_cache" where
  "new_cache l ttl = \<lparr>pc_primary = l, pc_reverse = Map.empty, pc_ttl = ttl\<rparr>"

lemma apply_cache_op_result:
  assumes "lru_laws lru" and "indexed lru c"
  shows "pc_ttl (apply_cache_op lru op c) = pc_ttl c" and "indexed lru (apply_cache_op lru op c)"
    and "cached lru (apply_cache_op lru op c) k = Some e \<Longrightarrow>
      cached lru c k = Some e \<or> op = CacheInsert (ce_inserted_at e) k (ce_validation e)"
proof -
  have "pc_ttl (apply_cache_op lru op c) = pc_ttl c \<and> indexed lru (apply_cache_op lru op c) \<and>
    (\<forall>k e. cached lru (apply_cache_op lru op c) k = Some e \<longrightarrow>
       cached lru c k = Some e \<or> op = CacheInsert (ce_inserted_at e) k (ce_validation e))"
  proof (cases op)
    case (CacheGet now k)
    obtain r c' where get: "cache_get lru now k c = (r, c')" by force
    then show ?thesis using cache_get_result(1,2,5) [OF assms(1) get] assms(2) CacheGet by simp
  next
    case (CacheInsert now k v)
    then show ?thesis using cache_insert_result [OF assms] by fastforce
  next
    case (CacheInvalidateToken i)
    then show ?thesis using invalidate_token_result [OF assms] by simp
  next
    case (CacheInvalidateUser u)
    then show ?thesis using invalidate_user_result [OF assms] by simp
  next
    case CacheDropAll
    then show ?thesis using drop_all_result [OF assms(1)] by simp
  qed
  then show "pc_ttl (apply_cache_op lru op c) = pc_ttl c" "indexed lru (apply_cache_op lru op c)"
    "cached lru (apply_cache_op lru op c) k = Some e \<Longrightarrow>
      cached lru c k = Some e \<or> op = CacheInsert (ce_inserted_at e) k (ce_validation e)"
    by blast+
qed

lemma run_cache_result:
  assumes "lru_laws lru" and "lru_peek lru l = Map.empty"
  shows "pc_ttl (run_cache lru ops (new_cache l ttl)) = ttl \<and> indexed lru (run_cache lru ops (new_cache l ttl)) \<and>
    (\<forall>k e. cached lru (run_cache lru ops (new_cache l ttl)) k = Some e \<longrightarrow>
       CacheInsert (ce_inserted_at e) k (ce_validation e) \<in> set ops)"
proof (induction ops rule: rev_induct)
  case Nil
  then show ?case using assms(2) by (simp add: run_cache_def new_cache_def indexed_def)
next
  case (snoc op ops)
  then have step: "run_cache lru (ops @ [op]) (new_cache l ttl) = apply_cache_op lru op (run_cache lru ops (new_cache l ttl))"
    by (simp add: run_cache_def)
  note result = apply_cache_op_result [OF assms(1), of "run_cache lru ops (new_cache l ttl)" op]
  have "CacheInsert (ce_inserted_at e) k (ce_validation e) \<in> set (ops @ [op])"
    if "cached lru (apply_cache_op lru op (run_cache lru ops (new_cache l ttl))) k = Some e" for k e
    using result(3) [OF _ that] snoc by auto
  then show ?case unfolding step using snoc result(1,2) by simp
qed

text \<open>
  C21. Invalidation is complete and hits are fresh. After any sequence of lookups, insertions,
  invalidations and evictions of the container, invalidating a token leaves no key under which a
  validation of that token is found, invalidating a user none of that user's, dropping all none at all,
  and a lookup that hits returns a validation that was inserted under that very key no longer ago
  than the cache's lifetime. The container is any that keeps the documented promises.
\<close>

theorem cache_invalidation_is_complete:
  assumes "lru_laws lru" and "lru_peek lru l = Map.empty" and "0 \<le> ttl" and "c = run_cache lru ops (new_cache l ttl)"
  shows "(fst (cache_get lru now k (invalidate_token lru i c)) = Some v \<longrightarrow> av_token_id v \<noteq> i) \<and>
    (fst (cache_get lru now k (invalidate_user lru u c)) = Some v \<longrightarrow> av_user_id v \<noteq> u) \<and>
    fst (cache_get lru now k (drop_all lru c)) = None \<and>
    (fst (cache_get lru now k c) = Some v \<longrightarrow> (\<exists>inserted. CacheInsert inserted k v \<in> set ops \<and> now - inserted \<le> ttl))"
proof -
  have ok: "indexed lru c" "pc_ttl c = ttl"
    and from_insert: "\<And>k e. cached lru c k = Some e \<Longrightarrow> CacheInsert (ce_inserted_at e) k (ce_validation e) \<in> set ops"
    using run_cache_result [OF assms(1,2), of ops ttl] assms(4) by auto
  have hit: "\<exists>e. cached lru c' k = Some e \<and> v = ce_validation e \<and> now - ce_inserted_at e \<le> max 0 (pc_ttl c')"
    if "fst (cache_get lru now k c') = Some v" for c'
    using cache_get_result(3) [OF assms(1), of now k c'] that by (metis prod.collapse)
  have "fst (cache_get lru now k (drop_all lru c)) = None"
    using drop_all_result(3) [OF assms(1), of c] by (simp add: cache_get_def)
  moreover have "\<exists>inserted. CacheInsert inserted k v \<in> set ops \<and> now - inserted \<le> ttl" if "fst (cache_get lru now k c) = Some v"
    using hit [OF that] from_insert ok(2) assms(3) by fastforce
  ultimately show ?thesis
    using hit [of "invalidate_token lru i c"] hit [of "invalidate_user lru u c"]
    by (auto dest!: invalidate_token_result(3) [OF assms(1) ok(1)] invalidate_user_result(3) [OF assms(1) ok(1)])
qed

section \<open>A container\<close>

text \<open>A bounded list, most recent first, with the promised behaviour; it shows that the laws can be met.\<close>

definition list_lru :: "nat \<Rightarrow> (string \<times> cached_entry) list lru" where
  "list_lru capacity =
     \<lparr>lru_peek = map_of,
      lru_get = (\<lambda>l k. (map_of l k, case map_of l k of Some e \<Rightarrow> (k, e) # filter (\<lambda>(k', _). k' \<noteq> k) l | None \<Rightarrow> l)),
      lru_pop = (\<lambda>l k. (map_of l k, filter (\<lambda>(k', _). k' \<noteq> k) l)),
      lru_push = (\<lambda>l k e. case map_of l k of
          Some old \<Rightarrow> (Some (k, old), (k, e) # filter (\<lambda>(k', _). k' \<noteq> k) l)
        | None \<Rightarrow>
            if length (AList.clearjunk l) < capacity \<or> l = [] then (None, (k, e) # l)
            else let (k', e') = last (AList.clearjunk l) in (Some (k', e'), (k, e) # filter (\<lambda>(k'', _). k'' \<noteq> k') l)),
      lru_iter = AList.clearjunk,
      lru_clear = (\<lambda>_. [])\<rparr>"

lemma map_of_remove: "map_of (filter (\<lambda>(k', _). k' \<noteq> k) l) = (map_of l)(k := None)"
  by (induction l) (auto simp: fun_eq_iff)

lemma list_lru_laws: "lru_laws (list_lru capacity)"
proof -
  have content: "set (AList.clearjunk l) = {(k, e). map_of l k = Some e}" for l :: "(string \<times> cached_entry) list"
    using map_of_eq_Some_iff [OF distinct_clearjunk [of l]] by (auto simp: map_of_clearjunk)
  have last: "map_of l k' = Some e'" if "last (AList.clearjunk l) = (k', e')" "l \<noteq> []" for k' e' and l :: "(string \<times> cached_entry) list"
  proof -
    have "AList.clearjunk l \<noteq> []" using that(2) by (cases l) auto
    then have "(k', e') \<in> set (AList.clearjunk l)" using last_in_set that(1) by metis
    then show ?thesis unfolding content by simp
  qed
  have push: "case lru_push (list_lru capacity) l k e of
        (None, l') \<Rightarrow> map_of l k = None \<and> map_of l' = (map_of l)(k \<mapsto> e)
      | (Some (k', e'), l') \<Rightarrow> map_of l k' = Some e' \<and> (k' = k \<or> map_of l k = None) \<and> map_of l' = ((map_of l)(k' := None))(k \<mapsto> e)"
    for l k e
  proof (cases "map_of l k")
    case (Some old)
    then show ?thesis by (simp add: list_lru_def map_of_remove)
  next
    case None
    obtain k' e' where l: "last (AList.clearjunk l) = (k', e')" by force
    show ?thesis using None last [OF l] by (simp add: list_lru_def map_of_remove l Let_def)
  qed
  have peek: "lru_peek (list_lru capacity) = map_of" by (simp add: list_lru_def)
  have get: "fst (lru_get (list_lru capacity) l k) = map_of l k \<and> map_of (snd (lru_get (list_lru capacity) l k)) = map_of l" for l k
    by (cases "map_of l k") (simp_all add: list_lru_def map_of_remove map_upd_triv)
  have pop: "fst (lru_pop (list_lru capacity) l k) = map_of l k \<and> map_of (snd (lru_pop (list_lru capacity) l k)) = (map_of l)(k := None)" for l k
    by (simp add: list_lru_def map_of_remove)
  have iter: "set (lru_iter (list_lru capacity) l) = {(k, e). map_of l k = Some e}" for l
    by (simp add: list_lru_def content)
  have "map_of (lru_clear (list_lru capacity) l) = Map.empty" for l by (simp add: list_lru_def)
  then show ?thesis unfolding lru_laws_def peek using get pop push iter by blast
qed

definition sample_validation :: api_token_validation where
  "sample_validation = \<lparr>av_token_id = 1, av_user_id = 7, av_kind = Pat, av_token_cap = global_cap [PermRead],
     av_expires_at = None, av_revoked_at = None\<rparr>"

theorem cache_invalidation_is_complete_witness:
  "let c = run_cache (list_lru 2) [CacheInsert 5 ''k'' sample_validation, CacheGet 7 ''k''] (new_cache [] 60) in
   fst (cache_get (list_lru 2) 9 ''k'' c) = Some sample_validation \<and>
   fst (cache_get (list_lru 2) 9 ''k'' (invalidate_token (list_lru 2) 1 c)) \<noteq> Some sample_validation"
proof -
  define c where "c = run_cache (list_lru 2) [CacheInsert 5 ''k'' sample_validation, CacheGet 7 ''k''] (new_cache [] 60)"
  have "fst (cache_get (list_lru 2) 9 ''k'' c) = Some sample_validation"
    by (simp add: c_def run_cache_def new_cache_def cache_insert_def cache_get_def list_lru_def sample_validation_def Let_def)
  moreover have "fst (cache_get (list_lru 2) 9 ''k'' (invalidate_token (list_lru 2) 1 c)) \<noteq> Some sample_validation"
    using cache_invalidation_is_complete [OF list_lru_laws _ _ c_def, of 9 "''k''" 1 sample_validation]
    by (auto simp: list_lru_def sample_validation_def)
  ultimately show ?thesis by (simp add: c_def Let_def)
qed

end
