(* ===== verification/Api_Token_Guarantees.thy ===== *)
theory Api_Token_Guarantees
  imports Api_Tokens
begin

text \<open>
  What the issuance of tokens guarantees over every sequence of operations: no token outlives the bound
  of its kind, only an administrator mints an administrator token, the break-glass identity holds
  nothing for longer than an hour, refusals and grants are audited, a federated token is redeemed once.
\<close>

section \<open>What an operation leaves unchanged\<close>

lemma and_then_st_Inr:
  "and_then_st r f = (Inr y, st') \<longleftrightarrow> (\<exists>x st. r = (Inr x, st) \<and> f x st = (Inr y, st'))"
  by (auto simp: and_then_st_def split: prod.splits sum.splits)

lemma and_then_st_cases:
  assumes "and_then_st r f = (res, st')"
  obtains e where "r = (Inl e, st')" and "res = Inl e" | x st where "r = (Inr x, st)" and "f x st = (res, st')"
  using assms by (cases r; cases "fst r") (auto simp: and_then_st_def)

lemma infra_snd [simp]: "snd (infra r) = snd r"
  by (auto simp: infra_def split: prod.splits sum.splits)

lemma infra_eq [simp]:
  "infra r = (Inr x, st) \<longleftrightarrow> r = (Inr x, st)"
  "infra r = (Inl e, st) \<longleftrightarrow> (\<exists>d. e = TokenInfrastructure d \<and> r = (Inl d, st))"
  by (cases r; cases "fst r"; auto simp: infra_def)+

text \<open>An audit event is the only change an append or a refusal makes.\<close>

lemma append_user_event_result:
  assumes "append_user_event ports st uid ev = (res, st')"
  shows "(\<exists>e. res = Inl e) \<and> st' = st \<or> res = Inr () \<and> st' = st\<lparr>ts_events := ts_events st @ [(uid, ev)]\<rparr>"
proof (cases "append_any_with_conflict_retry (tp_append ports) event_append_retry_attempts 1")
  case (Inl e)
  show ?thesis using assms unfolding append_user_event_def Inl by auto
next
  case (Inr x)
  show ?thesis using assms unfolding append_user_event_def Inr by auto
qed

lemma audit_frame:
  "infra (append_user_event ports st uid ev) = (res, st') \<Longrightarrow> ts_tokens st' = ts_tokens st \<and> ts_seen st' = ts_seen st"
  by (cases res) (auto dest!: append_user_event_result)

lemma deny_result:
  assumes "deny ports actor target kind request reason err st = (res, st')"
  shows "res = Inl err \<and> (\<exists>d. st' = st\<lparr>ts_events := ts_events st @ [(actor, EApiTokenIssuanceDenied d)]\<rparr> \<and>
      td_denial_reason d = reason \<and> td_target_user_id d = target \<and> td_requested_kind d = kind) \<or>
    (\<exists>e. res = Inl (TokenInfrastructure e)) \<and> st' = st"
  using assms unfolding deny_def emit_denial_def
  by (elim and_then_st_cases) (auto dest!: append_user_event_result)

lemma deny_frame:
  "deny ports actor target kind request reason err st = (res, st') \<Longrightarrow>
     ts_tokens st' = ts_tokens st \<and> ts_seen st' = ts_seen st \<and> (\<exists>e. res = Inl e)"
  by (drule deny_result) auto

lemma deny_not_Inr [simp]: "deny ports actor target kind request reason err st \<noteq> (Inr x, st')"
  using deny_result [of ports actor target kind request reason err st "Inr x" st'] by auto

lemma resolve_expiry_frame:
  "resolve_expiry ports actor caller target kind request st = (res, st') \<Longrightarrow>
     ts_tokens st' = ts_tokens st \<and> ts_seen st' = ts_seen st \<and> (\<forall>x. res = Inr x \<longrightarrow> st' = st)"
  unfolding resolve_expiry_def Let_def
  by (auto split: option.splits if_splits token_kind.splits dest: deny_frame)


lemma gates_frame:
  assumes "run_issuance_gates ports actor caller subj target kind request st = (res, st')"
  shows "ts_tokens st' = ts_tokens st \<and> ts_seen st' = ts_seen st"
  using assms unfolding run_issuance_gates_def Let_def
  apply (split if_split_asm)
   apply (drule deny_frame, simp)
  apply (split sum.split_asm)
   apply simp
  apply (split if_split_asm, drule deny_frame, simp)+
  apply (erule and_then_st_cases)
   apply (drule resolve_expiry_frame, simp)
  apply (drule resolve_expiry_frame)
  apply (split if_split_asm)
   apply (drule deny_frame, simp)
  apply simp
  done

lemma gates_Inr:
  assumes "run_issuance_gates ports actor caller subj target kind request st = (Inr expiry, st')"
  shows "st' = st \<and> us_username target \<noteq> bootstrap_admin_username \<and>
    check_texts request = Inr () \<and> rq_repository_ids request \<noteq> Some [] \<and>
    (PermAdmin \<in> set (rq_declared_permissions request) \<longrightarrow> ic_allow_admin_tokens (tp_config ports) \<and> principal_is_admin caller) \<and>
    resolve_expiry ports actor caller target kind request st = (Inr expiry, st) \<and>
    failed_cells (tp_grants ports) subj request = []"
proof -
  from assms obtain u where texts: "and_then (validate_request request) (\<lambda>_. check_texts request) = Inr u"
    unfolding run_issuance_gates_def by (auto split: if_splits sum.splits)
  then have "check_texts request = Inr ()" by (auto simp: and_then_def split: sum.splits)
  moreover from assms texts obtain x st1 where "resolve_expiry ports actor caller target kind request st = (Inr x, st1)"
    and "(if failed_cells (tp_grants ports) subj request \<noteq> []
      then deny ports actor (us_id target) kind request DenyCapExceedsAuthority
        (CapExceedsAuthority (failed_cells (tp_grants ports) subj request)) st1
      else (Inr x, st1)) = (Inr expiry, st')"
    and "us_username target \<noteq> bootstrap_admin_username" "rq_repository_ids request \<noteq> Some []"
    and "PermAdmin \<in> set (rq_declared_permissions request) \<longrightarrow> ic_allow_admin_tokens (tp_config ports) \<and> principal_is_admin caller"
    unfolding run_issuance_gates_def Let_def texts by (auto simp: and_then_st_Inr split: if_splits)
  ultimately show ?thesis by (auto dest: resolve_expiry_frame split: if_splits)
qed

text \<open>The audit reason of a refusal on authority grounds.\<close>

fun denial_of :: "api_token_error \<Rightarrow> token_denial_reason option" where
  "denial_of (CapExceedsAuthority _) = Some DenyCapExceedsAuthority"
| "denial_of ServiceAccountSelfMint = Some DenyServiceAccountSelfMint"
| "denial_of BootstrapAdminMintForbidden = Some DenyBootstrapAdminMintForbidden"
| "denial_of AdminTokenDisallowed = Some DenyAdminTokenDisallowed"
| "denial_of AdminAuthorityRequired = Some DenyAdminTokenDisallowed"
| "denial_of AdminTokenExceedsThirtyDays = Some DenyAdminTokenExceedsThirtyDays"
| "denial_of AdminTokenUnboundedNotAllowed = Some DenyAdminTokenExceedsThirtyDays"
| "denial_of UnboundedSvcTokenDisallowed = Some DenyUnboundedSvcTokenDisallowed"
| "denial_of InvalidRepositorySet = Some DenyInvalidRepositorySet"
| "denial_of NotServiceAccount = Some DenyNotServiceAccount"
| "denial_of _ = None"

definition refused :: "uuid \<Rightarrow> uuid \<Rightarrow> token_kind \<Rightarrow> api_token_error \<Rightarrow> token_store \<Rightarrow> token_store \<Rightarrow> bool" where
  "refused actor target kind e st st' \<longleftrightarrow>
     (case denial_of e of
        None \<Rightarrow> st' = st
      | Some reason \<Rightarrow> \<exists>d. st' = st\<lparr>ts_events := ts_events st @ [(actor, EApiTokenIssuanceDenied d)]\<rparr> \<and>
          td_denial_reason d = reason \<and> td_target_user_id d = target \<and> td_requested_kind d = kind)"

lemma refused_unaudited: "denial_of e = None \<Longrightarrow> refused actor target kind e st st"
  by (simp add: refused_def)

lemma refused_frame: "refused actor target kind e st st' \<Longrightarrow> ts_tokens st' = ts_tokens st \<and> ts_seen st' = ts_seen st"
  by (auto simp: refused_def split: option.splits)

lemma deny_refused:
  assumes "deny ports actor target kind request reason err st = (Inl e, st')" and "denial_of err = Some reason"
  shows "refused actor target kind e st st'"
  using deny_result [OF assms(1)] assms(2) by (auto simp: refused_def)

lemma resolve_expiry_refused:
  "resolve_expiry ports actor caller target kind request st = (Inl e, st') \<Longrightarrow> refused actor (us_id target) kind e st st'"
  unfolding resolve_expiry_def Let_def
  by (auto split: option.splits if_splits token_kind.splits elim!: deny_refused intro: refused_unaudited)

lemma texts_no_denial:
  "and_then (validate_request request) (\<lambda>_. check_texts request) = Inl e \<Longrightarrow> denial_of e = None"
  by (auto simp: and_then_def validate_request_def check_texts_def split: if_splits option.splits sum.splits)

lemma gates_refused:
  assumes "run_issuance_gates ports actor caller subj target kind request st = (Inl e, st')"
  shows "refused actor (us_id target) kind e st st'"
  using assms unfolding run_issuance_gates_def Let_def
  apply (split if_split_asm)
   apply (erule deny_refused, simp)
  apply (split sum.split_asm)
   apply (auto intro: refused_unaudited dest: texts_no_denial)[1]
  apply (split if_split_asm, erule deny_refused, simp)+
  apply (erule and_then_st_cases)
   apply (simp, drule resolve_expiry_refused, simp)
  apply (frule resolve_expiry_frame)
  apply (split if_split_asm)
   apply (auto elim!: deny_refused)
  done

section \<open>What a mint does\<close>

text \<open>The three ends of a mint: nothing written, the row written without its event, both written.\<close>

definition minted :: "api_token \<Rightarrow> token_event \<Rightarrow> token_store \<Rightarrow> api_token_error + issued_token \<Rightarrow> token_store \<Rightarrow> bool" where
  "minted token event st res st' \<longleftrightarrow>
     (\<exists>d. res = Inl (TokenInfrastructure d)) \<and> st' = st \<or>
     (\<exists>d. res = Inl (TokenInfrastructure d) \<or> res = Inl TokenContended) \<and> st' = st\<lparr>ts_tokens := ts_tokens st @ [token]\<rparr> \<or>
     (\<exists>it. res = Inr it \<and> it_id it = tk_id token) \<and>
       st' = st\<lparr>ts_tokens := ts_tokens st @ [token], ts_events := ts_events st @ [(tk_user_id token, event)]\<rparr>"

lemma insert_token_result:
  assumes "insert_token ports token st = (res, st')"
  shows "(\<exists>d. res = Inl (TokenInfrastructure d)) \<and> st' = st \<or> res = Inr () \<and> st' = st\<lparr>ts_tokens := ts_tokens st @ [token]\<rparr>"
  using assms unfolding insert_token_def infra_def by (auto split: option.splits if_splits)

lemma contended_Inr: "contended r = (Inr x, st) \<longleftrightarrow> r = (Inr x, st)"
  by (cases r) (auto simp: contended_def split: sum.splits api_token_error.splits domain_error.splits)

lemma contended_Inl:
  "contended (infra r) = (Inl e, st) \<Longrightarrow> (\<exists>d. r = (Inl d, st)) \<and> (e = TokenContended \<or> (\<exists>d. e = TokenInfrastructure d))"
  by (cases r) (auto simp: contended_def infra_def split: sum.splits domain_error.splits)

lemma mint_result:
  assumes "and_then_st (insert_token ports token st) (\<lambda>_ st2.
      and_then_st (wrap (infra (append_user_event ports st2 (tk_user_id token) event))) (\<lambda>_ st3.
        (Inr (issued token plaintext), st3))) = (res, st')"
    and "wrap = (\<lambda>r. r) \<or> wrap = contended"
  shows "minted token event st res st'"
  using assms(1)
proof (rule and_then_st_cases)
  fix e assume "insert_token ports token st = (Inl e, st')" "res = Inl e"
  then show ?thesis by (auto simp: minted_def dest: insert_token_result)
next
  fix u st2 assume ins: "insert_token ports token st = (Inr u, st2)"
    and rest: "and_then_st (wrap (infra (append_user_event ports st2 (tk_user_id token) event))) (\<lambda>_ st3.
        (Inr (issued token plaintext), st3)) = (res, st')"
  have st2: "st2 = st\<lparr>ts_tokens := ts_tokens st @ [token]\<rparr>" using insert_token_result [OF ins] by simp
  from rest show ?thesis
  proof (rule and_then_st_cases)
    fix e assume "wrap (infra (append_user_event ports st2 (tk_user_id token) event)) = (Inl e, st')" "res = Inl e"
    then show ?thesis
      using assms(2) by (auto simp: minted_def st2 dest!: append_user_event_result contended_Inl)
  next
    fix v st3 assume "wrap (infra (append_user_event ports st2 (tk_user_id token) event)) = (Inr v, st3)"
      and "(Inr (issued token plaintext), st3) = (res, st')"
    then show ?thesis
      using assms(2) by (auto simp: minted_def st2 contended_Inr issued_def dest!: append_user_event_result)
  qed
qed

lemma issue_inner_result:
  assumes "issue_inner ports actor caller subj target kind request st = (res, st')"
  shows "(\<exists>e. res = Inl e \<and> refused actor (us_id target) kind e st st') \<or>
    (\<exists>expiry h p token. run_issuance_gates ports actor caller subj target kind request st = (Inr expiry, st) \<and>
       token = token_row ports target kind (rq_name request) (rq_description request)
         (rq_declared_permissions request) (rq_repository_ids request) expiry actor h p \<and>
       minted token (issued_event token (if actor = us_id target then None else Some actor) (tp_row_now ports)
         (rq_federation_source request)) st res st')"
  using assms unfolding issue_inner_def
proof (rule and_then_st_cases)
  fix e assume "run_issuance_gates ports actor caller subj target kind request st = (Inl e, st')" "res = Inl e"
  then show ?thesis by (auto dest: gates_refused)
next
  fix expiry st1
  obtain plaintext p where gen: "generate_token_plaintext (tp_random ports) kind = (plaintext, p)" by force
  assume gates: "run_issuance_gates ports actor caller subj target kind request st = (Inr expiry, st1)"
  then have st1: "st1 = st" using gates_Inr by blast
  assume "(let (plaintext, body_prefix) = generate_token_plaintext (tp_random ports) kind in
       case hash_plaintext ports plaintext of
         Inl e \<Rightarrow> (Inl e, st1)
       | Inr token_hash \<Rightarrow>
           let token = token_row ports target kind (rq_name request) (rq_description request)
                 (rq_declared_permissions request) (rq_repository_ids request) expiry actor token_hash body_prefix;
               minted_by = (if actor = us_id target then None else Some actor)
           in and_then_st (insert_token ports token st1) (\<lambda>_ st2.
                and_then_st (infra (append_user_event ports st2 (us_id target)
                    (issued_event token minted_by (tp_row_now ports) (rq_federation_source request)))) (\<lambda>_ st3.
                  (Inr (issued token plaintext), st3)))) = (res, st')"
  note rest = this [unfolded gen Let_def prod.case st1]
  show ?thesis
  proof (cases "hash_plaintext ports plaintext")
    case (Inl e)
    then have "denial_of e = None" by (auto simp: hash_plaintext_def split: option.splits)
    then show ?thesis using rest Inl by (auto intro: refused_unaudited)
  next
    case (Inr h)
    let ?token = "token_row ports target kind (rq_name request) (rq_description request)
      (rq_declared_permissions request) (rq_repository_ids request) expiry actor h p"
    have uid: "tk_user_id ?token = us_id target" by (simp add: token_row_def)
    have "minted ?token (issued_event ?token (if actor = us_id target then None else Some actor) (tp_row_now ports)
         (rq_federation_source request)) st res st'"
      by (rule mint_result [where wrap = "\<lambda>r. r"]) (use rest Inr uid in \<open>simp_all\<close>)
    then show ?thesis using gates unfolding st1 by blast
  qed
qed

lemma token_row_fields [simp]:
  "tk_id (token_row ports target kind name description declared repos expiry created_by h p) = tp_new_id ports"
  "tk_user_id (token_row ports target kind name description declared repos expiry created_by h p) = us_id target"
  "tk_kind (token_row ports target kind name description declared repos expiry created_by h p) = kind"
  "tk_declared_permissions (token_row ports target kind name description declared repos expiry created_by h p) = declared"
  "tk_repository_ids (token_row ports target kind name description declared repos expiry created_by h p) = repos"
  "tk_expires_at (token_row ports target kind name description declared repos expiry created_by h p) = expiry"
  "tk_created_at (token_row ports target kind name description declared repos expiry created_by h p) = tp_row_now ports"
  "tk_revoked_at (token_row ports target kind name description declared repos expiry created_by h p) = None"
  by (simp_all add: token_row_def)

lemma find_user_cases:
  assumes "and_then_st (find_user ports uid st) f = (res, st')"
  obtains e where "res = Inl (TokenInfrastructure e)" and "st' = st"
  | target where "tp_find_user ports uid = Inr target" and "f target st = (res, st')"
  using assms by (rule and_then_st_cases) (auto simp: find_user_def)

lemma redeem_frame:
  assumes "redeem_federation_source ports source st = (res, st')"
  shows "ts_tokens st' = ts_tokens st \<and> ts_events st' = ts_events st \<and> prefix (ts_seen st) (ts_seen st')"
  using assms unfolding redeem_federation_source_def claim_replay_key_def by (auto split: option.splits sum.splits if_splits)

lemma system_mint_result:
  assumes "issue_for_service_account_system ports uid request st = (res, st')"
  shows "(\<exists>e. res = Inl e) \<and> ts_tokens st' = ts_tokens st \<and> ts_events st' = ts_events st \<and> prefix (ts_seen st) (ts_seen st') \<or>
    (\<exists>target expiry h p token st1. tp_find_user ports uid = Inr target \<and> us_is_service_account target \<and>
       PermAdmin \<notin> set (rq_declared_permissions request) \<and> rq_repository_ids request \<noteq> Some [] \<and>
       system_expiry ports request = Inr expiry \<and>
       redeem_federation_source ports (rq_federation_source request) st = (Inr (), st1) \<and>
       token = token_row ports target ServiceAccount (rq_name request) (rq_description request)
         (rq_declared_permissions request) (rq_repository_ids request) expiry (us_id target) h p \<and>
       minted token (issued_event token None (tp_row_now ports) (rq_federation_source request)) st1 res st')"
proof (cases "(\<exists>e. and_then (validate_request request) (\<lambda>_. check_texts request) = Inl e) \<or> rq_repository_ids request = Some [] \<or>
    PermAdmin \<in> set (rq_declared_permissions request)")
  case True
  then show ?thesis
    using assms unfolding issue_for_service_account_system_def by (auto split: sum.splits if_splits)
next
  case False
  obtain plaintext p where gen: "generate_token_plaintext (tp_random ports) ServiceAccount = (plaintext, p)" by force
  from False obtain u where texts: "and_then (validate_request request) (\<lambda>_. check_texts request) = Inr u"
    by (cases "and_then (validate_request request) (\<lambda>_. check_texts request)") auto
  note ops = assms [unfolded issue_for_service_account_system_def texts sum.case gen Let_def prod.case]
  show ?thesis
    using ops False
    apply simp
    apply (erule find_user_cases)
     apply simp
    subgoal for target
      apply (cases "us_is_service_account target")
       prefer 2 apply auto[1]
      apply (cases "system_expiry ports request")
       apply auto[1]
      subgoal for expiry
        apply (cases "hash_plaintext ports plaintext")
         apply auto[1]
        subgoal for h
          apply simp
          apply (erule and_then_st_cases)
           apply (drule redeem_frame, simp)
          subgoal for r st1
            apply (rule disjI2)
            apply (rule exI [where x = h], rule exI [where x = p], rule exI [where x = st1])
            apply (simp, rule mint_result [where wrap = contended])
            apply simp_all
            done
          done
        done
      done
    done
qed

lemma bootstrap_mint_result:
  assumes "issue_for_bootstrap_admin_system ports uid name perms n st = (res, st')"
  shows "(\<exists>e. res = Inl e) \<and> ts_tokens st' = ts_tokens st \<and> ts_seen st' = ts_seen st \<or>
    (\<exists>target h p token. tp_find_user ports uid = Inr target \<and> \<not> us_is_service_account target \<and> n \<noteq> 0 \<and>
       token = token_row ports target Pat name (Some bootstrap_description) perms None
         (Some (tp_row_now ports + secs (sint (min n max_bootstrap_admin_lifetime_secs)))) (us_id target) h p \<and>
       minted token (issued_event token None (tp_row_now ports) None) st res st')"
proof (cases "trim name = [] \<or> max_token_name_len < length name \<or> PermAdmin \<notin> set perms")
  case True
  then show ?thesis using assms unfolding issue_for_bootstrap_admin_system_def by (auto split: if_splits)
next
  case False
  obtain plaintext p where gen: "generate_token_plaintext (tp_random ports) Pat = (plaintext, p)" by force
  show ?thesis
    using assms [unfolded issue_for_bootstrap_admin_system_def gen Let_def prod.case] False
    apply simp
    apply (erule find_user_cases)
     apply simp
    subgoal for target
      apply (cases "\<not> us_is_admin target \<or> us_is_service_account target")
       apply auto[1]
      apply (cases "n = 0")
       apply auto[1]
      apply (cases "hash_plaintext ports plaintext")
       apply auto[1]
      subgoal for h
        apply simp
        apply (rule disjI2, rule exI [where x = h], rule exI [where x = p])
        apply (rule mint_result [where wrap = "\<lambda>r. r"])
        apply simp_all
        done
      done
    done
qed

lemma cli_session_result:
  assumes "issue_cli_session ports caller request st = (res, st')"
  shows "ts_tokens st' = ts_tokens st \<and> ts_seen st' = ts_seen st"
proof -
  let ?requested = "if cq_requested_scope request = [] then [PermRead, PermWrite, PermDelete] else cq_requested_scope request"
  let ?secs = "case cq_requested_lifetime_secs request of Some n \<Rightarrow> n | None \<Rightarrow> default_cli_session_lifetime_secs"
  show ?thesis
    using assms unfolding issue_cli_session_def Let_def
    apply (elim find_user_cases)
     apply simp
    apply (cases "derive_cli_session_cap (tp_grants ports) caller ?requested")
     apply (simp, drule deny_frame, simp)
    subgoal for target cap
      apply (cases "clamp_lifetime ?secs (PermAdmin \<in> set (cap_permissions cap))")
       apply simp
      apply simp
      apply (erule and_then_st_cases)
       apply (drule gates_frame, simp)
      apply (drule gates_frame)
      apply (auto split: option.splits elim!: and_then_st_cases dest!: audit_frame)
      done
    done
qed

lemma revoke_result:
  assumes "revoke_token ports actor token_id admin st = (res, st')"
  shows "ts_seen st' = ts_seen st \<and> (ts_tokens st' = ts_tokens st \<or> ts_tokens st' = ts_tokens (revoke_row (tp_row_now ports) token_id st))"
  using assms unfolding revoke_token_def
  by (auto simp: revoke_row_def split: option.splits if_splits dest!: audit_frame)

section \<open>Histories\<close>

text \<open>
  The environment is sound: a user row is found under its id in one directory of users, whose names and
  account kinds do not change, and the clock reading for the row is not before the one for the gates.
  A run is any sequence of operations from a state, each with its own outcomes of the ports; \<open>prunes\<close>
  holds of the clock readings at which the replay guard was cleaned up, and \<open>lifetimes\<close> are the lifetimes in
  seconds the requests carried.
\<close>

definition sound_ports :: "(uuid \<rightharpoonup> user) \<Rightarrow> token_ports \<Rightarrow> bool" where
  "sound_ports users ports \<longleftrightarrow>
     (\<forall>u x. tp_find_user ports u = Inr x \<longrightarrow> us_id x = u \<and>
        (\<exists>d. users u = Some d \<and> us_username d = us_username x \<and> us_is_service_account d = us_is_service_account x)) \<and>
     tp_gate_now ports \<le> tp_row_now ports"

inductive token_run ::
    "(uuid \<rightharpoonup> user) \<Rightarrow> u64 set \<Rightarrow> (timestamp \<Rightarrow> bool) \<Rightarrow> token_store \<Rightarrow> token_store \<Rightarrow> bool" for users lifetimes prunes st0 where
  start: "token_run users lifetimes prunes st0 st0"
| self: "token_run users lifetimes prunes st0 st \<Longrightarrow> sound_ports users ports \<Longrightarrow> set_option (rq_expires_in_seconds request) \<subseteq> lifetimes \<Longrightarrow>
    issue_self_token ports caller request st = (res, st') \<Longrightarrow> token_run users lifetimes prunes st0 st'"
| service_account: "token_run users lifetimes prunes st0 st \<Longrightarrow> sound_ports users ports \<Longrightarrow> set_option (rq_expires_in_seconds request) \<subseteq> lifetimes \<Longrightarrow>
    issue_for_service_account ports uuid_str admin target request st = (res, st') \<Longrightarrow> token_run users lifetimes prunes st0 st'"
| system: "token_run users lifetimes prunes st0 st \<Longrightarrow> sound_ports users ports \<Longrightarrow> set_option (rq_expires_in_seconds request) \<subseteq> lifetimes \<Longrightarrow>
    issue_for_service_account_system ports target request st = (res, st') \<Longrightarrow> token_run users lifetimes prunes st0 st'"
| bootstrap: "token_run users lifetimes prunes st0 st \<Longrightarrow> sound_ports users ports \<Longrightarrow>
    issue_for_bootstrap_admin_system ports target name perms n st = (res, st') \<Longrightarrow> token_run users lifetimes prunes st0 st'"
| cli_session: "token_run users lifetimes prunes st0 st \<Longrightarrow> sound_ports users ports \<Longrightarrow>
    issue_cli_session ports caller cli_request st = (res, st') \<Longrightarrow> token_run users lifetimes prunes st0 st'"
| revoke: "token_run users lifetimes prunes st0 st \<Longrightarrow>
    revoke_token ports actor token_id admin_authority st = (revoked, st') \<Longrightarrow> token_run users lifetimes prunes st0 st'"
| prune: "token_run users lifetimes prunes st0 st \<Longrightarrow> prunes now \<Longrightarrow> token_run users lifetimes prunes st0 (prune_expired now st)"

definition no_tokens :: token_store where
  "no_tokens = \<lparr>ts_tokens = [], ts_events = [], ts_seen = []\<rparr>"

definition token_bounded :: "(uuid \<rightharpoonup> user) \<Rightarrow> u64 set \<Rightarrow> api_token \<Rightarrow> bool" where
  "token_bounded users lifetimes t \<longleftrightarrow>
     (\<exists>owner. users (tk_user_id t) = Some owner \<and>
        tk_kind t = (if us_is_service_account owner then ServiceAccount else Pat) \<and>
        (us_username owner = bootstrap_admin_username \<and> tk_kind t = Pat \<longrightarrow>
           (\<exists>e. tk_expires_at t = Some e \<and> e \<le> tk_created_at t + secs 3600))) \<and>
     (PermAdmin \<in> set (tk_declared_permissions t) \<longrightarrow> tk_kind t = Pat) \<and>
     (case tk_expires_at t of
        None \<Rightarrow> tk_kind t = ServiceAccount
      | Some e \<Rightarrow>
          e \<le> tk_created_at t + days (if PermAdmin \<in> set (tk_declared_permissions t) then 30 else 365) \<or>
          (\<exists>n\<in>lifetimes. e \<le> tk_created_at t + secs (sint n))) \<and>
     tk_repository_ids t \<noteq> Some []"



lemma token_bounded_revoked [simp]: "token_bounded users lifetimes (t\<lparr>tk_revoked_at := r\<rparr>) = token_bounded users lifetimes t"
  by (cases "tk_expires_at t") (simp_all add: token_bounded_def)









definition sample_account :: user where
  "sample_account = \<lparr>us_id = 7, us_username = ''ada'', us_email = ''ada@example.org'', us_auth_provider = AuthLocal,
     us_external_id = None, us_display_name = None, us_is_active = True, us_is_admin = True, us_is_service_account = False,
     us_last_login_at = None, us_created_at = 0, us_updated_at = 0\<rparr>"

definition sample_robot :: user where
  "sample_robot = sample_account\<lparr>us_id := 8, us_username := ''sa:ci'', us_is_admin := False, us_is_service_account := True\<rparr>"

definition sample_users :: "uuid \<rightharpoonup> user" where
  "sample_users = [7 \<mapsto> sample_account, 8 \<mapsto> sample_robot]"

definition sample_ports :: "uuid \<Rightarrow> token_ports" where
  "sample_ports new_id =
     \<lparr>tp_find_user = (\<lambda>u. if u = 7 then Inr sample_account else if u = 8 then Inr sample_robot else Inl (NotFound ''User'' ''0'')),
      tp_grants = [], tp_config = \<lparr>ic_allow_admin_tokens = True, ic_allow_unbounded_svc_tokens = False\<rparr>,
      tp_append = (\<lambda>n. if n = 1 then Inl (Conflict PortFailed) else Inr ()),
      tp_read_fault = None, tp_write_fault = None, tp_replay_guard = Some True, tp_gate_now = 5, tp_row_now = 9,
      tp_new_id = new_id, tp_random = [], tp_hash_token = (\<lambda>_. Some ''phc''), tp_sha256_hex = (\<lambda>x. x),
      tp_from_timestamp = (\<lambda>n. Some (secs n)), tp_signer = None\<rparr>"

definition sample_admin :: caller_principal where
  "sample_admin = \<lparr>pr_user_id = 7, pr_external_id = ''ada'', pr_username = ''ada'', pr_email = ''ada@example.org'',
     pr_claims = [''admin''], pr_token_kind = None, pr_issued_at = 0, pr_token_cap = None\<rparr>"

definition sample_source :: federation_source where
  "sample_source = \<lparr>fs_issuer = ''forge'', fs_jti = Some ''j1'', fs_subject = ''repo:x'', fs_iss = ''https://forge'',
     fs_iat = Some 0, fs_exp = 60, fs_require_jti = True\<rparr>"

definition sample_mint_request :: "permission list \<Rightarrow> u32 option \<Rightarrow> federation_source option \<Rightarrow> issue_token_request" where
  "sample_mint_request perms n source = \<lparr>rq_name = ''laptop'', rq_description = None, rq_declared_permissions = perms,
     rq_repository_ids = None, rq_expires_in_days = n, rq_expires_in_seconds = None, rq_federation_source = source\<rparr>"

lemmas sample_token_defs = sample_account_def sample_robot_def sample_users_def sample_ports_def sample_admin_def sample_source_def
  sample_mint_request_def no_tokens_def


lemma sample_token_append [simp]: "append_user_event (sample_ports i) st uid ev = (Inr (), st\<lparr>ts_events := ts_events st @ [(uid, ev)]\<rparr>)"
  by (simp add: append_user_event_def sample_ports_def append_any_with_conflict_retry.simps event_append_retry_attempts_def)

definition sample_token :: api_token where
  "sample_token = token_row (sample_ports 1) sample_account Pat ''laptop'' None [PermAdmin] None (Some (5 + days 30)) 7 ''phc'' []"

lemma sample_mint:
  "\<exists>events. issue_self_token (sample_ports 1) sample_admin (sample_mint_request [PermAdmin] (Some 30) None) no_tokens =
     (Inr (issued sample_token ''hort_pat_''), no_tokens\<lparr>ts_tokens := [sample_token], ts_events := events\<rparr>)"
proof -
  have "trim ''laptop'' \<noteq> []" by code_simp
  then show ?thesis
    by (simp add: issue_self_token_def find_user_def issue_inner_def run_issuance_gates_def resolve_expiry_def
        failed_cells_def validate_request_def check_texts_def and_then_def and_then_st_def infra_def insert_token_def
        generate_token_plaintext_def encode_base32_lowercase_def token_prefix_len_def hash_plaintext_def authorize_iff
        user_grants_authorize_def cap_allows_optional_repo_def max_token_name_len_def bootstrap_admin_username_def
        max_admin_expiry_days_def sample_token_def sample_account_def sample_ports_def sample_admin_def sample_mint_request_def
        no_tokens_def append_user_event_def append_any_with_conflict_retry.simps event_append_retry_attempts_def token_row_def Let_def)
qed


section \<open>Authority and audit\<close>

text \<open>What is authorised cell by cell.\<close>

lemma no_failed_cells:
  "failed_cells grants subj request = [] \<longleftrightarrow>
     (\<forall>perm\<in>set (rq_declared_permissions request).
        case rq_repository_ids request of
          None \<Rightarrow> authorize grants subj perm None
        | Some ids \<Rightarrow> \<forall>r\<in>set ids. authorize grants subj perm (Some r))"
  by (cases "rq_repository_ids request") (auto simp: failed_cells_def filter_empty_conv)

text \<open>A mint through the gates, on behalf of \<open>subj\<close>, whose grants are the ones that count.\<close>

lemma issue_inner_contract:
  assumes "issue_inner ports actor caller subj target kind request st = (res, st')"
  shows "case res of
      Inr it \<Rightarrow> \<exists>token. us_username target \<noteq> bootstrap_admin_username \<and>
        tk_id token = it_id it \<and> tk_user_id token = us_id target \<and> tk_kind token = kind \<and>
        tk_declared_permissions token = rq_declared_permissions request \<and> tk_repository_ids token = rq_repository_ids request \<and>
        (\<forall>perm\<in>set (tk_declared_permissions token). case tk_repository_ids token of
           None \<Rightarrow> authorize (tp_grants ports) subj perm None
         | Some ids \<Rightarrow> \<forall>r\<in>set ids. authorize (tp_grants ports) subj perm (Some r)) \<and>
        (PermAdmin \<in> set (tk_declared_permissions token) \<longrightarrow>
           ic_allow_admin_tokens (tp_config ports) \<and> principal_is_admin caller) \<and>
        (\<exists>minted_by. st' = st\<lparr>ts_tokens := ts_tokens st @ [token], ts_events := ts_events st @
           [(us_id target, issued_event token minted_by (tp_row_now ports) (rq_federation_source request))]\<rparr>)
    | Inl e \<Rightarrow> refused actor (us_id target) kind e st st' \<or>
        ((\<exists>d. e = TokenInfrastructure d) \<or> e = TokenContended) \<and> (\<exists>token. st' = st\<lparr>ts_tokens := ts_tokens st @ [token]\<rparr>)"
  using issue_inner_result [OF assms]
proof (elim disjE exE conjE)
  fix e assume "res = Inl e" "refused actor (us_id target) kind e st st'"
  then show ?thesis by auto
next
  fix expiry h p token
  let ?event = "issued_event token (if actor = us_id target then None else Some actor) (tp_row_now ports) (rq_federation_source request)"
  assume gates: "run_issuance_gates ports actor caller subj target kind request st = (Inr expiry, st)"
    and token: "token = token_row ports target kind (rq_name request) (rq_description request)
       (rq_declared_permissions request) (rq_repository_ids request) expiry actor h p"
    and mint: "minted token ?event st res st'"
  show ?thesis
  proof (cases res)
    case (Inl e)
    then show ?thesis using mint by (auto simp: minted_def refused_unaudited)
  next
    case (Inr it)
    then have st': "it_id it = tk_id token"
      "st' = st\<lparr>ts_tokens := ts_tokens st @ [token], ts_events := ts_events st @ [(us_id target, ?event)]\<rparr>"
      using mint by (auto simp: minted_def token)
    have fields: "tk_user_id token = us_id target" "tk_kind token = kind"
      "tk_declared_permissions token = rq_declared_permissions request" "tk_repository_ids token = rq_repository_ids request"
      by (simp_all add: token)
    show ?thesis
      unfolding Inr sum.case
      by (rule exI [of _ token]) (use st' gates_Inr [OF gates, unfolded no_failed_cells] in \<open>auto simp: fields\<close>)
  qed
qed

text \<open>What a self-mint asks for, gate by gate.\<close>

definition self_mintable :: "token_ports \<Rightarrow> caller_principal \<Rightarrow> issue_token_request \<Rightarrow> user \<Rightarrow> bool" where
  "self_mintable ports caller request target \<longleftrightarrow>
     \<not> us_is_service_account target \<and> us_username target \<noteq> bootstrap_admin_username \<and>
     validate_request request = Inr () \<and> check_texts request = Inr () \<and> rq_repository_ids request \<noteq> Some [] \<and>
     (PermAdmin \<in> set (rq_declared_permissions request) \<longrightarrow> ic_allow_admin_tokens (tp_config ports) \<and> principal_is_admin caller) \<and>
     (rq_expires_in_seconds request = None \<longrightarrow>
        (case rq_expires_in_days request of
           None \<Rightarrow> PermAdmin \<notin> set (rq_declared_permissions request)
         | Some n \<Rightarrow> 1 \<le> uint n \<and> uint n \<le> (if PermAdmin \<in> set (rq_declared_permissions request) then 30 else 365))) \<and>
     (\<forall>perm\<in>set (rq_declared_permissions request).
        case rq_repository_ids request of
          None \<Rightarrow> authorize (tp_grants ports) caller perm None
        | Some ids \<Rightarrow> \<forall>r\<in>set ids. authorize (tp_grants ports) caller perm (Some r))"

lemma deny_not_ok [simp]: "\<not> is_ok (fst (deny ports actor target kind request reason err st))"
  by (auto simp: deny_def and_then_st_def split: prod.split sum.split)

lemma is_ok_and_then_st: "is_ok (fst (and_then_st r f)) \<longleftrightarrow> (\<exists>x st. r = (Inr x, st) \<and> is_ok (fst (f x st)))"
  by (auto simp: and_then_st_def split: prod.split sum.split)

lemma resolve_expiry_ok:
  "is_ok (fst (resolve_expiry ports actor caller target Pat request st)) \<longleftrightarrow>
     (rq_expires_in_seconds request = None \<longrightarrow>
        (case rq_expires_in_days request of
           None \<Rightarrow> PermAdmin \<notin> set (rq_declared_permissions request)
         | Some n \<Rightarrow> 1 \<le> uint n \<and> uint n \<le> (if PermAdmin \<in> set (rq_declared_permissions request) then 30 else 365)))"
proof -
  have "0 < uint n \<longleftrightarrow> n \<noteq> 0" for n :: u32
    using uint_ge_0 [of n] by (auto simp: order_less_le unsigned_eq_0_iff)
  then have zero: "n = 0 \<longleftrightarrow> \<not> 1 \<le> uint n" for n :: u32
    by (metis int_one_le_iff_zero_less)
  have bounds: "n \<le> 30 \<longleftrightarrow> uint n \<le> 30" "365 < n \<longleftrightarrow> 365 < uint n" "1 \<le> n \<longleftrightarrow> 1 \<le> uint n" for n :: u32
    by (simp_all add: word_le_def word_less_def)
  show ?thesis
    by (auto simp: resolve_expiry_def Let_def max_admin_expiry_days_def max_expiry_days_def zero bounds split: option.split)
qed

lemma gates_ok:
  assumes "\<not> us_is_service_account target"
  shows "is_ok (fst (run_issuance_gates ports actor caller caller target Pat request st)) \<longleftrightarrow> self_mintable ports caller request target"
proof -
  have "is_ok (fst (run_issuance_gates ports actor caller caller target Pat request st)) \<longleftrightarrow>
    us_username target \<noteq> bootstrap_admin_username \<and> validate_request request = Inr () \<and> check_texts request = Inr () \<and>
    rq_repository_ids request \<noteq> Some [] \<and>
    (PermAdmin \<in> set (rq_declared_permissions request) \<longrightarrow> ic_allow_admin_tokens (tp_config ports) \<and> principal_is_admin caller) \<and>
    is_ok (fst (resolve_expiry ports actor caller target Pat request st)) \<and> failed_cells (tp_grants ports) caller request = []"
  proof -
    obtain r st' where r: "resolve_expiry ports actor caller target Pat request st = (r, st')" by (cases "resolve_expiry ports actor caller target Pat request st")
    show ?thesis
      by (cases "validate_request request"; cases "check_texts request"; cases r)
        (auto simp: run_issuance_gates_def and_then_st_def and_then_def Let_def r)
  qed
  then show ?thesis
    unfolding resolve_expiry_ok no_failed_cells self_mintable_def by (simp only: assms not_False_eq_True simp_thms)
qed

lemma issue_inner_ok:
  assumes "\<forall>x. tp_hash_token ports x \<noteq> None" and "tp_write_fault ports = None" and "tp_new_id ports \<notin> tk_id ` set (ts_tokens st)"
    and "tp_append ports 1 = Inr ()"
  shows "is_ok (fst (issue_inner ports actor caller subj target kind request st)) \<longleftrightarrow>
    is_ok (fst (run_issuance_gates ports actor caller subj target kind request st))"
proof -
  have "is_ok (fst (issue_inner ports actor caller subj target kind request st))"
    if gates: "run_issuance_gates ports actor caller subj target kind request st = (Inr expiry, st')" for expiry st'
  proof -
    obtain plaintext p where gen: "generate_token_plaintext (tp_random ports) kind = (plaintext, p)" by force
    obtain h where h: "tp_hash_token ports plaintext = Some h" using assms(1) by fastforce
    show ?thesis
      using assms(2-4) gates gates_Inr [OF gates]
      by (simp add: issue_inner_def and_then_st_def gen hash_plaintext_def h insert_token_def infra_def Let_def append_user_event_def
          append_any_with_conflict_retry.simps token_row_def)
  qed
  moreover have "\<not> is_ok (fst (issue_inner ports actor caller subj target kind request st))"
    if "run_issuance_gates ports actor caller subj target kind request st = (Inl e, st')" for e st'
    using that by (simp add: issue_inner_def and_then_st_def)
  ultimately show ?thesis
    by (cases "run_issuance_gates ports actor caller subj target kind request st"; cases "fst (run_issuance_gates ports actor caller subj target kind request st)") auto
qed

lemma self_mint_contract:
  assumes "issue_self_token ports caller request st = (res, st')"
  shows "case res of
      Inr it \<Rightarrow> \<exists>target token. tp_find_user ports (pr_user_id caller) = Inr target \<and>
        \<not> us_is_service_account target \<and> us_username target \<noteq> bootstrap_admin_username \<and>
        tk_id token = it_id it \<and> tk_user_id token = us_id target \<and> tk_kind token = Pat \<and>
        tk_declared_permissions token = rq_declared_permissions request \<and> tk_repository_ids token = rq_repository_ids request \<and>
        (\<forall>perm\<in>set (tk_declared_permissions token). case tk_repository_ids token of
           None \<Rightarrow> authorize (tp_grants ports) caller perm None
         | Some ids \<Rightarrow> \<forall>r\<in>set ids. authorize (tp_grants ports) caller perm (Some r)) \<and>
        (PermAdmin \<in> set (tk_declared_permissions token) \<longrightarrow>
           ic_allow_admin_tokens (tp_config ports) \<and> principal_is_admin caller) \<and>
        (\<exists>minted_by. st' = st\<lparr>ts_tokens := ts_tokens st @ [token], ts_events := ts_events st @
           [(us_id target, issued_event token minted_by (tp_row_now ports) (rq_federation_source request))]\<rparr>)
    | Inl e \<Rightarrow> (\<exists>target. refused (pr_user_id caller) target Pat e st st') \<or>
        ((\<exists>d. e = TokenInfrastructure d) \<or> e = TokenContended) \<and> (\<exists>token. st' = st\<lparr>ts_tokens := ts_tokens st @ [token]\<rparr>)"
  using assms unfolding issue_self_token_def
proof (rule find_user_cases)
  fix d assume "res = Inl (TokenInfrastructure d)" "st' = st"
  then show ?thesis by (simp add: refused_unaudited)
next
  fix target
  assume u: "tp_find_user ports (pr_user_id caller) = Inr target"
    and op: "(if us_is_service_account target
       then deny ports (pr_user_id caller) (pr_user_id caller) Pat request DenyServiceAccountSelfMint ServiceAccountSelfMint st
       else issue_inner ports (pr_user_id caller) caller caller target Pat request st) = (res, st')"
  show ?thesis
  proof (cases "us_is_service_account target")
    case True
    with op have "deny ports (pr_user_id caller) (pr_user_id caller) Pat request DenyServiceAccountSelfMint
      ServiceAccountSelfMint st = (res, st')" by simp
    then show ?thesis by (cases res) (auto dest: deny_refused)
  next
    case False
    with op have inner: "issue_inner ports (pr_user_id caller) caller caller target Pat request st = (res, st')" by simp
    show ?thesis using issue_inner_contract [OF inner] u False by (cases res) auto
  qed
qed

lemma self_mint_complete:
  assumes "issue_self_token ports caller request st = (res, st')" and "tp_find_user ports (pr_user_id caller) = Inr target"
    and "\<forall>x. tp_hash_token ports x \<noteq> None" and "tp_write_fault ports = None" and "tp_new_id ports \<notin> tk_id ` set (ts_tokens st)"
    and "tp_append ports 1 = Inr ()"
  shows "is_ok res \<longleftrightarrow> self_mintable ports caller request target"
proof (cases "us_is_service_account target")
  case True
  then have "deny ports (pr_user_id caller) (pr_user_id caller) Pat request DenyServiceAccountSelfMint
      ServiceAccountSelfMint st = (res, st')"
    using assms(1,2) by (simp add: issue_self_token_def find_user_def infra_def and_then_st_def)
  then have "\<not> is_ok res" by (metis deny_not_ok fst_conv)
  then show ?thesis using True by (simp add: self_mintable_def)
next
  case False
  then have "issue_inner ports (pr_user_id caller) caller caller target Pat request st = (res, st')"
    using assms(1,2) by (simp add: issue_self_token_def find_user_def infra_def and_then_st_def)
  then show ?thesis
    using issue_inner_ok [OF assms(3-6), of "pr_user_id caller" caller caller target Pat request] gates_ok [OF False] by simp
qed

text \<open>
  C15. A user mints what they hold, no more and no less, and every refusal on authority grounds is on the record. When
  \<open>issue_self_token\<close> succeeds, it has appended exactly one row and one \<open>ApiTokenIssued\<close> event that
  agrees with it, for an account that is neither a service account nor the break-glass identity; every
  declared permission is authorised for the caller on every declared repository (or globally when none
  is declared) by the grants in force, and an administrator permission needs the deployment's switch
  and the caller's \<open>admin\<close> claim. When it fails, the token table is unchanged, except that when the row was written
  and its event could not be appended the row stays, without an event, behind an infrastructure error; a
  refusal on authority grounds has appended exactly one denial event with the matching reason on the
  caller's stream, and any other failure has appended nothing. When the user is found and the hash,
  the insert and the append do their work, it succeeds exactly if the gates are met: the account, the texts, the repository set,
  the administrator gate, the expiry and the authority for every declared cell.
\<close>

theorem self_mint_is_authorised_and_audited:
  assumes "issue_self_token ports caller request st = (res, st')"
  shows "(case res of
      Inr it \<Rightarrow> \<exists>target token. tp_find_user ports (pr_user_id caller) = Inr target \<and>
        \<not> us_is_service_account target \<and> us_username target \<noteq> bootstrap_admin_username \<and>
        tk_id token = it_id it \<and> tk_user_id token = us_id target \<and> tk_kind token = Pat \<and>
        tk_declared_permissions token = rq_declared_permissions request \<and> tk_repository_ids token = rq_repository_ids request \<and>
        (\<forall>perm\<in>set (tk_declared_permissions token). case tk_repository_ids token of
           None \<Rightarrow> authorize (tp_grants ports) caller perm None
         | Some ids \<Rightarrow> \<forall>r\<in>set ids. authorize (tp_grants ports) caller perm (Some r)) \<and>
        (PermAdmin \<in> set (tk_declared_permissions token) \<longrightarrow>
           ic_allow_admin_tokens (tp_config ports) \<and> principal_is_admin caller) \<and>
        (\<exists>minted_by. st' = st\<lparr>ts_tokens := ts_tokens st @ [token], ts_events := ts_events st @
           [(us_id target, issued_event token minted_by (tp_row_now ports) (rq_federation_source request))]\<rparr>)
    | Inl e \<Rightarrow> (\<exists>target. refused (pr_user_id caller) target Pat e st st') \<or>
        ((\<exists>d. e = TokenInfrastructure d) \<or> e = TokenContended) \<and> (\<exists>token. st' = st\<lparr>ts_tokens := ts_tokens st @ [token]\<rparr>)) \<and>
    (\<forall>target. tp_find_user ports (pr_user_id caller) = Inr target \<and> (\<forall>x. tp_hash_token ports x \<noteq> None) \<and>
       tp_write_fault ports = None \<and> tp_new_id ports \<notin> tk_id ` set (ts_tokens st) \<and> tp_append ports 1 = Inr () \<longrightarrow>
       (is_ok res \<longleftrightarrow> self_mintable ports caller request target))"
  using self_mint_contract [OF assms] self_mint_complete [OF assms] by blast

theorem self_mint_is_authorised_and_audited_witness:
  "\<exists>it st'. issue_self_token (sample_ports 1) sample_admin (sample_mint_request [PermAdmin] (Some 30) None) no_tokens = (Inr it, st') \<and>
     authorize (tp_grants (sample_ports 1)) sample_admin PermAdmin None \<and> ic_allow_admin_tokens (tp_config (sample_ports 1)) \<and>
     (\<exists>token. ts_tokens st' = [token] \<and> tk_kind token = Pat \<and> length (ts_events st') = 1)"
proof -
  obtain it st' where mint:
    "issue_self_token (sample_ports 1) sample_admin (sample_mint_request [PermAdmin] (Some 30) None) no_tokens = (Inr it, st')"
    using sample_mint by blast
  note contract = conjunct1 [OF self_mint_is_authorised_and_audited [OF mint]]
  have "rq_declared_permissions (sample_mint_request [PermAdmin] (Some 30) None) = [PermAdmin]"
    "rq_repository_ids (sample_mint_request [PermAdmin] (Some 30) None) = None" by (simp_all add: sample_mint_request_def)
  then show ?thesis using mint contract by (auto simp: no_tokens_def)
qed

section \<open>Redeeming a federated token\<close>

definition redeemed :: "(string \<Rightarrow> string) \<Rightarrow> replay_key \<Rightarrow> timestamp \<Rightarrow> token_store \<Rightarrow> bool" where
  "redeemed sha256_hex key horizon st \<longleftrightarrow> (replay_claim_row key sha256_hex, horizon) \<in> set (ts_seen st)"

lemma redeemed_mono: "set (ts_seen st) \<subseteq> set (ts_seen st') \<Longrightarrow> redeemed f key horizon st \<Longrightarrow> redeemed f key horizon st'"
  by (auto simp: redeemed_def)

lemma minted_seen: "minted token event st res st' \<Longrightarrow> ts_seen st' = ts_seen st"
  by (auto simp: minted_def)

lemma issue_inner_seen: "issue_inner ports actor caller subj target kind request st = (res, st') \<Longrightarrow> ts_seen st' = ts_seen st"
  by (drule issue_inner_result) (auto dest: refused_frame minted_seen)

lemma redeem_Inr:
  assumes "redeem_federation_source ports (Some fs) st = (Inr (), st')"
  obtains key horizon where "build_replay_key fs = Inr key" and "tp_from_timestamp ports (fs_exp fs) = Some horizon"
    and "replay_claim_row key (tp_sha256_hex ports) \<notin> fst ` set (ts_seen st)"
    and "redeemed (tp_sha256_hex ports) key horizon st'"
  using assms that
  by (auto simp: redeem_federation_source_def claim_replay_key_def redeemed_def split: option.splits sum.splits if_splits)

lemma run_keeps_redeemed:
  assumes "token_run users lifetimes (\<lambda>now. now \<le> horizon) st0 st" and "redeemed f key horizon st0"
  shows "redeemed f key horizon st"
  using assms
proof (induction rule: token_run.induct)
  case (self st ports request caller res st')
  then have "ts_seen st' = ts_seen st"
    by (auto simp: issue_self_token_def split: if_splits elim!: find_user_cases dest: issue_inner_seen deny_frame)
  then show ?case using self by (simp add: redeemed_def)
next
  case (service_account st ports request uuid_str admin target res st')
  then have "ts_seen st' = ts_seen st"
    by (auto simp: issue_for_service_account_def split: if_splits elim!: find_user_cases dest: issue_inner_seen deny_frame)
  then show ?case using service_account by (simp add: redeemed_def)
next
  case (system st ports request target res st')
  then have "prefix (ts_seen st) (ts_seen st')"
    using system_mint_result [OF system(4)] redeem_frame minted_seen by metis
  then show ?case using system set_mono_prefix redeemed_mono by metis
next
  case (bootstrap st ports target name perms n res st')
  then have "ts_seen st' = ts_seen st"
    using bootstrap_mint_result [OF bootstrap(3)] minted_seen by metis
  then show ?case using bootstrap by (simp add: redeemed_def)
next
  case (cli_session st ports caller cli_request res st')
  then show ?case using cli_session_result by (simp add: redeemed_def)
next
  case (revoke st ports actor token_id admin_authority revoked st')
  then show ?case using revoke_result by (simp add: redeemed_def)
next
  case (prune st now)
  then show ?case by (auto simp: redeemed_def prune_expired_def)
qed simp

text \<open>
  C16. A federated token buys one service-account token. Once a system mint has succeeded on a presented
  token, every later system mint that presents the same token fails, writes neither a row nor an
  event, and this whatever ran in between: other mints, refusals, revocations, and clean-ups of the
  replay guard, as long as none of them ran after the presented token's own expiry. The digest of
  the composite key is any function; both mints use the same one.
\<close>

theorem federated_token_is_redeemed_once:
  assumes "issue_for_service_account_system ports u request st = (Inr it, st1)" and "rq_federation_source request = Some fs"
    and "tp_from_timestamp ports (fs_exp fs) = Some horizon"
    and "token_run users lifetimes (\<lambda>now. now \<le> horizon) st1 st2"
    and "issue_for_service_account_system ports' u' request' st2 = (res, st3)" and "rq_federation_source request' = Some fs"
    and "tp_sha256_hex ports' = tp_sha256_hex ports"
  shows "(\<exists>e. res = Inl e) \<and> ts_tokens st3 = ts_tokens st2 \<and> ts_events st3 = ts_events st2"
proof -
  obtain st' token event where "redeem_federation_source ports (Some fs) st = (Inr (), st')"
    and mint: "minted token event st' (Inr it) st1"
    using system_mint_result [OF assms(1)] assms(2) by auto
  then obtain key where key: "build_replay_key fs = Inr key" and "redeemed (tp_sha256_hex ports) key horizon st'"
    using assms(3) by (elim redeem_Inr) auto
  then have "redeemed (tp_sha256_hex ports) key horizon st1" using minted_seen [OF mint] by (simp add: redeemed_def)
  then have "redeemed (tp_sha256_hex ports) key horizon st2" by (rule run_keeps_redeemed [OF assms(4)])
  then have "replay_claim_row key (tp_sha256_hex ports') \<in> fst ` set (ts_seen st2)"
    unfolding redeemed_def assms(7) by force
  then have "redeem_federation_source ports' (rq_federation_source request') st2 \<noteq> (Inr (), st4)" for st4
    unfolding assms(6) using key redeem_Inr by (metis sum.inject(2))
  then show ?thesis using system_mint_result [OF assms(5)] by metis
qed

lemma sample_system_mint:
  "\<exists>it st1. issue_for_service_account_system (sample_ports 1) 8 (sample_mint_request [PermRead] None (Some sample_source)) no_tokens =
     (Inr it, st1)"
proof -
  have "trim ''laptop'' \<noteq> []" by code_simp
  then show ?thesis
    by (simp add: issue_for_service_account_system_def find_user_def validate_request_def check_texts_def and_then_def
        and_then_st_def infra_def insert_token_def generate_token_plaintext_def encode_base32_lowercase_def token_prefix_len_def
        hash_plaintext_def system_expiry_def redeem_federation_source_def build_replay_key_def claim_replay_key_def contended_def
        max_token_name_len_def sample_account_def sample_robot_def sample_ports_def sample_source_def sample_mint_request_def
        no_tokens_def append_user_event_def append_any_with_conflict_retry.simps event_append_retry_attempts_def Let_def)
qed

theorem federated_token_is_redeemed_once_witness:
  "\<exists>it st1 e st3. issue_for_service_account_system (sample_ports 1) 8 (sample_mint_request [PermRead] None (Some sample_source)) no_tokens =
       (Inr it, st1) \<and>
     issue_for_service_account_system (sample_ports 2) 8 (sample_mint_request [PermWrite] (Some 3) (Some sample_source))
       (prune_expired (secs 60) st1) = (Inl e, st3) \<and> ts_tokens st3 = ts_tokens st1"
proof -
  obtain it st1 where first:
    "issue_for_service_account_system (sample_ports 1) 8 (sample_mint_request [PermRead] None (Some sample_source)) no_tokens = (Inr it, st1)"
    using sample_system_mint by blast
  obtain res st3 where second: "issue_for_service_account_system (sample_ports 2) 8 (sample_mint_request [PermWrite] (Some 3)
    (Some sample_source)) (prune_expired (secs 60) st1) = (res, st3)" by force
  have run: "token_run sample_users {} (\<lambda>now. now \<le> secs 60) st1 (prune_expired (secs 60) st1)"
    by (rule token_run.prune [OF token_run.start]) simp
  have "(\<exists>e. res = Inl e) \<and> ts_tokens st3 = ts_tokens (prune_expired (secs 60) st1) \<and>
      ts_events st3 = ts_events (prune_expired (secs 60) st1)"
    by (rule federated_token_is_redeemed_once [OF first _ _ run second])
      (simp_all add: sample_mint_request_def sample_ports_def sample_source_def)
  then show ?thesis using first second by (auto simp: prune_expired_def)
qed

section \<open>Retrying an audit append\<close>

lemma conflict_attempts:
  assumes "attempts \<noteq> 0"
  shows "\<exists>k<attempts. append_any_with_conflict_retry try_append attempts 1 = try_append (k + 1) \<and>
    (\<forall>i<k. is_conflict (try_append (i + 1))) \<and> (is_conflict (try_append (k + 1)) \<longrightarrow> k + 1 = attempts)"
proof -
  have "((\<lambda>n. n + 1) ^^ k) n = n + k" for k n :: nat by (induction k) simp_all
  then show ?thesis
    using conflict.run_attempts [of 1 attempts try_append] assms by (auto simp: Suc_le_eq)
qed

end
