(* ===== verification/Token_Validation_Guarantees.thy ===== *)
theory Token_Validation_Guarantees
  imports Token_Cache Api_Token_Guarantees
begin

text \<open>
  What the brute-force lockout guarantees: it engages after enough failures, and then costs no
  verification.
\<close>

section \<open>The lockout\<close>

lemma foldl_bytes_append:
  "foldl (\<lambda>acc c. acc * 256 + of_char c) (0::nat) (xs @ [char_of (m :: nat)]) =
     foldl (\<lambda>acc c. acc * 256 + of_char c) 0 xs * 256 + m mod 256"
  by (simp add: of_char_of)

lemma foldl_be_bytes: "foldl (\<lambda>acc c. acc * 256 + of_char c) (0::nat) (be_bytes k n) = n mod 256 ^ k"
proof (induction k arbitrary: n)
  case (Suc k)
  have "n mod 256 ^ Suc k = (n div 256 mod 256 ^ k) * 256 + n mod 256"
    by (simp add: mod_mult2_eq)
  then show ?case using Suc by (simp add: of_char_of)
qed simp

lemma decode_encode_count [simp]: "decode_count (encode_count n) = Some n"
proof -
  have "unat n < 256 ^ 8" using unsigned_less [of n] by simp
  then show ?thesis by (simp add: decode_count_def encode_count_def foldl_be_bytes)
qed

text \<open>The counter and the flag of a bucket live under different keys.\<close>

lemma lockout_keys_differ: "lk_counter_key (new_lockout_keys ip) \<noteq> lk_flag_key (new_lockout_keys ip')"
  by (simp add: new_lockout_keys_def Let_def)

text \<open>The errors that are booked as a failed attempt.\<close>

definition booked :: "pat_validation_error \<Rightarrow> bool" where
  "booked e \<longleftrightarrow> e \<in> {PrefixNotFound, HashMismatch, TokenExpired, TokenRevoked, UserDeactivated}"

lemma fail_with_booked:
  assumes "fail_with port env keys err st = (Inl e, st')" and "booked e"
  shows "bookkeep_failure port env keys (vl_ephemeral st) = (Inr (), vl_ephemeral st')"
  using assms by (auto simp: fail_with_def booked_def split: prod.splits sum.splits)

lemma recheck_booked:
  assumes "recheck port env keys exp revoked u st = (Inl e, st')" and "booked e"
  shows "bookkeep_failure port env keys (vl_ephemeral st) = (Inr (), vl_ephemeral st')"
  using assms unfolding recheck_def
  by (auto split: if_splits sum.splits option.splits elim: fail_with_booked simp: booked_def)

lemma verify_lookup_booked:
  assumes "verify_lookup port lru env keys plaintext lookup st = (Inl e, st')" and "booked e"
  shows "bookkeep_failure port env keys (vl_ephemeral st) = (Inr (), vl_ephemeral st')"
  using assms unfolding verify_lookup_def Let_def
  by (auto split: option.splits if_splits elim!: and_then_st_cases dest!: recheck_booked fail_with_booked)

context ephemeral_store
begin

lemma consult_result:
  assumes "consult_lockout port env (Some keys) st = (res, st')"
  shows "st' = st\<lparr>vl_ephemeral := vl_ephemeral st'\<rparr>"
    and "\<forall>t\<ge>ve_tick env 0. shown t (vl_ephemeral st') = shown t (vl_ephemeral st)"
    and "res = (if shown (ve_tick env 0) (vl_ephemeral st) (lk_flag_key keys) = None then Inr () else Inl RateLimited)"
proof -
  obtain got s where get: "ep_get port (ve_tick env 0) (lk_flag_key keys) (vl_ephemeral st) = (got, s)" by force
  have got: "got = Inr (shown (ve_tick env 0) (vl_ephemeral st) (lk_flag_key keys))" using get_law [OF get] by blast
  have "(res, st') = (if shown (ve_tick env 0) (vl_ephemeral st) (lk_flag_key keys) = None then Inr () else Inl RateLimited, st\<lparr>vl_ephemeral := s\<rparr>)"
    using assms by (cases "shown (ve_tick env 0) (vl_ephemeral st) (lk_flag_key keys)") (simp_all add: consult_lockout_def get got)
  then show "st' = st\<lparr>vl_ephemeral := vl_ephemeral st'\<rparr>"
    "\<forall>t\<ge>ve_tick env 0. shown t (vl_ephemeral st') = shown t (vl_ephemeral st)"
    "res = (if shown (ve_tick env 0) (vl_ephemeral st) (lk_flag_key keys) = None then Inr () else Inl RateLimited)"
    using get_law [OF get] by auto
qed

text \<open>A locked bucket is turned away before the cache and without a verification.\<close>

lemma locked_out:
  assumes "shown (ve_tick env 0) (vl_ephemeral st) (lk_flag_key (new_lockout_keys ip)) \<noteq> None"
  shows "\<exists>s. validate_pat port lru env plaintext (Some ip) st = (Inl RateLimited, st\<lparr>vl_ephemeral := s\<rparr>)"
proof -
  obtain res st1 where consult: "consult_lockout port env (Some (new_lockout_keys ip)) st = (res, st1)" by force
  have res: "res = Inl RateLimited" and st1: "st1 = st\<lparr>vl_ephemeral := vl_ephemeral st1\<rparr>"
    using consult_result [OF consult] assms by simp_all
  have "validate_pat port lru env plaintext (Some ip) st = (Inl RateLimited, st1)"
    by (simp add: validate_pat_def validate_pat_inner_def begin_validation_def and_then_st_def consult res)
  then show ?thesis using st1 by metis
qed

text \<open>A booked failure leaves the ephemeral store as the bookkeeping does.\<close>

lemma failure_is_booked:
  assumes "validate_pat port lru env plaintext (Some ip) st = (Inl e, st')" and "booked e"
  obtains s where "\<forall>t\<ge>ve_tick env 0. shown t s = shown t (vl_ephemeral st)"
    and "bookkeep_failure port env (Some (new_lockout_keys ip)) s = (Inr (), vl_ephemeral st')"
proof -
  let ?keys = "Some (new_lockout_keys ip)"
  obtain res st1 where consult: "consult_lockout port env ?keys st = (res, st1)" by force
  obtain r c where get: "cache_get lru (ve_get_now env) (ve_digest env plaintext) (vl_cache st1) = (r, c)" by force
  have inner: "validate_pat_inner port lru env plaintext (Some ip) st = (Inl e, st')"
    using assms(1) by (auto simp: validate_pat_def split: prod.splits sum.splits)
  have res: "res = Inr ()"
    using inner consult_result(3) [OF consult] assms(2)
    by (auto simp: validate_pat_inner_def begin_validation_def consult and_then_st_def booked_def split: if_splits)
  then have fin: "finish_validation port lru env ?keys plaintext (Got r) (st1\<lparr>vl_cache := c\<rparr>) = (Inl e, st')"
    using inner get by (simp add: validate_pat_inner_def begin_validation_def consult and_then_st_def)
  have "bookkeep_failure port env ?keys (vl_ephemeral st1) = (Inr (), vl_ephemeral st')"
  proof (cases r)
    case (Some cached)
    then show ?thesis
      using fin assms(2) by (auto simp: finish_validation_def elim!: and_then_st_cases dest: recheck_booked)
  next
    case None
    then show ?thesis
      using fin assms(2) by (auto simp: finish_validation_def booked_def split: sum.splits dest!: verify_lookup_booked)
  qed
  then show ?thesis using that consult_result(2) [OF consult] by blast
qed

text \<open>The bookkeeping counts, renews the window with every failure, and raises the flag at the threshold.\<close>

lemma bookkeep_counts:
  assumes "bookkeep_failure port env (Some (new_lockout_keys ip)) s = (r, s')"
    and "shown (ve_tick env 1) s (lk_counter_key (new_lockout_keys ip)) = (if n = 0 then None else Some (encode_count (of_nat n)))"
    and "n + 1 < 2 ^ 64" and "mono (ve_tick env)"
  shows "\<forall>t\<ge>ve_tick env 3. t < ve_tick env 2 + lc_window (ve_config env) \<longrightarrow>
      shown t s' (lk_counter_key (new_lockout_keys ip)) = Some (encode_count (of_nat (n + 1)))"
    and "unat (lc_threshold (ve_config env)) \<le> n + 1 \<Longrightarrow> \<forall>t\<ge>ve_tick env 3. t < ve_tick env 3 + lc_duration (ve_config env) \<longrightarrow>
      shown t s' (lk_flag_key (new_lockout_keys ip)) = Some ''1''"
proof -
  let ?ck = "lk_counter_key (new_lockout_keys ip)" and ?fk = "lk_flag_key (new_lockout_keys ip)"
  let ?cfg = "ve_config env" and ?count = "of_nat (n + 1) :: u64"
  have ticks: "ve_tick env 1 \<le> ve_tick env 2" "ve_tick env 2 \<le> ve_tick env 3" using assms(4) by (auto intro: monoD)
  have count: "unat ?count = n + 1" using assms(3) by (subst unat_of_nat) simp
  have inc: "saturating_inc (of_nat n) = ?count"
  proof -
    have "(of_nat n :: u64) \<noteq> - 1"
    proof
      assume "(of_nat n :: u64) = - 1"
      then have "?count = 0" by simp
      then show False using count by simp
    qed
    then show ?thesis by (simp add: saturating_inc_def)
  qed
  obtain got s1 where get: "ep_get port (ve_tick env 1) ?ck s = (got, s1)" by force
  have got: "got = Inr (shown (ve_tick env 1) s ?ck)" and same: "\<forall>t\<ge>ve_tick env 1. shown t s1 = shown t s" using get_law [OF get] by blast+
  obtain s3 where counted: "bookkeep_failure port env (Some (new_lockout_keys ip)) s =
        (if (ucast (lc_threshold ?cfg) :: u64) \<le> ?count then ep_put port (ve_tick env 3) ?fk ''1'' (lc_duration ?cfg) s3 else (Inr (), s3))"
      and s3: "\<forall>t\<ge>ve_tick env 2. t < ve_tick env 2 + lc_window ?cfg \<longrightarrow> shown t s3 ?ck = Some (encode_count ?count)"
  proof (cases "n = 0")
    case True
    obtain created s3 where create: "ep_put_if_absent port (ve_tick env 2) ?ck (encode_count 1) (lc_window ?cfg) s1 = (created, s3)" by force
    note law = put_if_absent_law [OF create]
    have absent: "shown (ve_tick env 2) s1 ?ck = None"
      using expiry_law [OF _ ticks(1), of s ?ck] assms(2) True same ticks(1) by simp
    then have "created = Inr True" using law by simp
    moreover have "\<forall>t\<ge>ve_tick env 2. t < ve_tick env 2 + lc_window ?cfg \<longrightarrow> shown t s3 ?ck = Some (encode_count 1)"
      using law absent by simp
    ultimately show ?thesis
      using that [of s3] True assms(2) by (simp add: bookkeep_failure_def and_then_st_def get got create del: One_nat_def)
  next
    case False
    obtain written s3 where wr: "ep_put port (ve_tick env 2) ?ck (encode_count ?count) (lc_window ?cfg) s1 = (written, s3)" by force
    note law = put_law [OF wr]
    have "written = Inr ()" using law by simp
    moreover have "\<forall>t\<ge>ve_tick env 2. t < ve_tick env 2 + lc_window ?cfg \<longrightarrow> shown t s3 ?ck = Some (encode_count ?count)" using law by simp
    ultimately show ?thesis
      using that [of s3] False assms(2) inc wr by (simp add: bookkeep_failure_def and_then_st_def get got Let_def del: One_nat_def)
  qed
  have reached: "(ucast (lc_threshold ?cfg) :: u64) \<le> ?count \<longleftrightarrow> unat (lc_threshold ?cfg) \<le> n + 1"
  proof -
    have "unat (lc_threshold ?cfg) < 2 ^ 32" using unsigned_less [of "lc_threshold ?cfg"] by simp
    then have "unat (ucast (lc_threshold ?cfg) :: u64) = unat (lc_threshold ?cfg)" by (simp add: unsigned_ucast_eq take_bit_eq_mod)
    then show ?thesis using count by (simp add: word_le_nat_alt)
  qed
  obtain put s4 where raise_flag: "ep_put port (ve_tick env 3) ?fk ''1'' (lc_duration ?cfg) s3 = (put, s4)" by force
  note law = put_law [OF raise_flag]
  have s': "s' = (if unat (lc_threshold ?cfg) \<le> n + 1 then s4 else s3)"
    using assms(1) counted raise_flag reached by (simp split: if_splits)
  show "\<forall>t\<ge>ve_tick env 3. t < ve_tick env 2 + lc_window ?cfg \<longrightarrow> shown t s' ?ck = Some (encode_count ?count)"
    using s3 law ticks lockout_keys_differ [of ip ip] unfolding s' by (auto split: if_splits)
  show "\<forall>t\<ge>ve_tick env 3. t < ve_tick env 3 + lc_duration ?cfg \<longrightarrow> shown t s' ?fk = Some ''1''" if "unat (lc_threshold ?cfg) \<le> n + 1"
    using law that unfolding s' by auto
qed

end

text \<open>A sequence of presentations from one address.\<close>

fun attempts_from ::
    "'s ephemeral_port \<Rightarrow> 'l lru \<Rightarrow> ip_addr \<Rightarrow> (validation_env \<times> string) list \<Rightarrow> ('l, 's) validator
     \<Rightarrow> (pat_validation_error + api_token_validation) list \<times> ('l, 's) validator" where
  "attempts_from port lru ip [] st = ([], st)"
| "attempts_from port lru ip ((env, plaintext) # xs) st =
     (case validate_pat port lru env plaintext (Some ip) st of
        (r, st1) \<Rightarrow> (case attempts_from port lru ip xs st1 of (rs, st') \<Rightarrow> (r # rs, st')))"

text \<open>Each presentation after the one before, its read of the counter within \<open>w\<close> of the write before.\<close>

fun spaced :: "duration \<Rightarrow> validation_env list \<Rightarrow> bool" where
  "spaced w (a # b # envs) \<longleftrightarrow> ve_tick a 3 \<le> ve_tick b 0 \<and> ve_tick b 1 < ve_tick a 2 + w \<and> spaced w (b # envs)"
| "spaced w envs \<longleftrightarrow> True"

lemma lockout_after_failures:
  assumes "ephemeral_store port shown"
    and "attempts_from port lru ip xs st = (rs, st')" and "xs \<noteq> []" and "\<forall>r\<in>set rs. \<exists>e. r = Inl e \<and> booked e"
    and "\<forall>(env, _)\<in>set xs. ve_config env = cfg \<and> mono (ve_tick env)" and "spaced (lc_window cfg) (map fst xs)"
    and "shown (ve_tick (fst (hd xs)) 1) (vl_ephemeral st) (lk_counter_key (new_lockout_keys ip)) =
      (if n = 0 then None else Some (encode_count (of_nat n)))"
    and "n + length xs < 2 ^ 64" and "unat (lc_threshold cfg) \<le> n + length xs"
    and "ve_tick (fst (last xs)) 3 \<le> t" and "t < ve_tick (fst (last xs)) 3 + lc_duration cfg"
  shows "shown t (vl_ephemeral st') (lk_flag_key (new_lockout_keys ip)) = Some ''1''"
  using assms(2-)
proof (induction xs arbitrary: st rs n)
  case (Cons x xs)
  note prems = Cons.prems and IH = Cons.IH
  obtain env plaintext where x: "x = (env, plaintext)" by force
  obtain r st1 rs1 where first: "validate_pat port lru env plaintext (Some ip) st = (r, st1)"
    and rest: "attempts_from port lru ip xs st1 = (rs1, st')" and rs: "rs = r # rs1"
    using prems(1) by (auto simp: x split: prod.splits)
  obtain e where e: "r = Inl e" "booked e" using prems(3) rs by auto
  have cfg: "ve_config env = cfg" and ticks: "mono (ve_tick env)" using prems(4) x by auto
  have early: "ve_tick e 0 \<le> ve_tick e 1" if "mono (ve_tick e)" for e using that by (auto intro: monoD)
  obtain s where s: "\<forall>t\<ge>ve_tick env 0. shown t s = shown t (vl_ephemeral st)"
    and book: "bookkeep_failure port env (Some (new_lockout_keys ip)) s = (Inr (), vl_ephemeral st1)"
    using ephemeral_store.failure_is_booked [OF assms(1) first [unfolded e(1)] e(2)] by blast
  have n: "shown (ve_tick env 1) s (lk_counter_key (new_lockout_keys ip)) = (if n = 0 then None else Some (encode_count (of_nat n)))"
    using prems(6) s x early [OF ticks] by simp
  have small: "n + 1 < 2 ^ 64" using prems(7) by simp
  note counts = ephemeral_store.bookkeep_counts [OF assms(1) book n small ticks, unfolded cfg]
  show ?case
  proof (cases xs)
    case Nil
    then show ?thesis using counts(2) prems(8-10) rest x by simp
  next
    case (Cons y ys)
    have "mono (ve_tick (fst y))" using prems(4) Cons by (cases y) auto
    then have "shown (ve_tick (fst (hd xs)) 1) (vl_ephemeral st1) (lk_counter_key (new_lockout_keys ip)) =
        (if n + 1 = 0 then None else Some (encode_count (of_nat (n + 1))))"
      using counts(1) prems(5) x Cons early [of "fst y"] by simp
    then show ?thesis
      using IH [of st1 rs1 "n + 1"] rest prems(3-10) rs Cons by (simp add: x)
  qed
qed simp

text \<open>
  C20. The lockout engages and then costs nothing. When as many presentations from an address as the
  threshold have failed one after the other, each reading the counter within the window of the last
  write of it, every further presentation from its bucket of addresses is refused as rate limited
  until the lockout's duration is over, whatever token it carries: no verification is made and neither the
  cache nor the usage record changes. The window is renewed by each failure, so a slow sequence locks out
  as well, however long it takes in total, where the configuration's comment says that it is
  anchored at the first failure. Presentations of the same bucket that overlap may lose a count, as the code
  says; the statement is about sequential ones, over the in-memory store.
\<close>

theorem lockout_engages:
  assumes "attempts_from memory_port lru ip xs st = (results, st')" and "\<forall>r\<in>set results. \<exists>e. r = Inl e \<and> booked e"
    and "\<forall>(env, _)\<in>set xs. ve_config env = cfg \<and> mono (ve_tick env)" and "length xs = unat (lc_threshold cfg)" and "lc_threshold cfg \<noteq> 0"
    and "spaced (lc_window cfg) (map fst xs)"
    and "shown_by (ve_tick (fst (hd xs)) 1) (vl_ephemeral st) (lk_counter_key (new_lockout_keys ip)) = None"
    and "ve_tick (fst (last xs)) 3 \<le> ve_tick env 0" and "ve_tick env 0 < ve_tick (fst (last xs)) 3 + lc_duration cfg"
    and "client_ip_bucket ip' = client_ip_bucket ip"
  shows "\<exists>s. validate_pat memory_port lru env plaintext (Some ip') st' = (Inl RateLimited, st'\<lparr>vl_ephemeral := s\<rparr>)"
proof -
  have "xs \<noteq> []" using assms(4,5) by (auto simp: unat_eq_0)
  moreover have "unat (lc_threshold cfg) < 2 ^ 32" using unsigned_less [of "lc_threshold cfg"] by simp
  ultimately have "shown_by (ve_tick env 0) (vl_ephemeral st') (lk_flag_key (new_lockout_keys ip)) = Some ''1''"
    using assms by (intro lockout_after_failures [OF memory.ephemeral_store_axioms assms(1), where cfg = cfg and n = 0]) auto
  moreover have "new_lockout_keys ip' = new_lockout_keys ip" using assms(10) by (simp add: new_lockout_keys_def)
  ultimately show ?thesis by (intro memory.locked_out) simp
qed

definition sample_lookup_env :: "timestamp \<Rightarrow> validation_env" where
  "sample_lookup_env tick =
     \<lparr>ve_find_by_prefix = (\<lambda>_. Inr None), ve_find_user = (\<lambda>_. Inr sample_account), ve_verify = (\<lambda>_ _. False),
      ve_sentinel_hash = ''phc'', ve_digest = (\<lambda>x. x), ve_uuid_str = (\<lambda>_. ''id''), ve_get_now = tick,
      ve_now = tick, ve_insert_now = tick, ve_used_now = tick, ve_issued_now = tick, ve_tick = (\<lambda>_. tick),
      ve_config = \<lparr>lc_threshold = 3, lc_window = 300, lc_duration = 900\<rparr>, ve_audit = None\<rparr>"

definition sample_validator :: "((string \<times> cached_entry) list, mem_store) validator" where
  "sample_validator = \<lparr>vl_cache = new_cache [] 300, vl_ephemeral = Map.empty, vl_verifications = 0, vl_used = []\<rparr>"

lemma sample_failures:
  "fst (attempts_from memory_port (list_lru 2) (IpV4 203 0 113 42)
     [(sample_lookup_env 0, ''x''), (sample_lookup_env 200, ''y''), (sample_lookup_env 400, ''z'')] sample_validator) =
     [Inl PrefixNotFound, Inl PrefixNotFound, Inl PrefixNotFound]"
  by code_simp

theorem lockout_engages_witness:
  "\<exists>s. validate_pat memory_port (list_lru 2) (sample_lookup_env 1200) ''w'' (Some (IpV4 203 0 113 7))
      (snd (attempts_from memory_port (list_lru 2) (IpV4 203 0 113 42)
        [(sample_lookup_env 0, ''x''), (sample_lookup_env 200, ''y''), (sample_lookup_env 400, ''z'')] sample_validator)) =
     (Inl RateLimited, (snd (attempts_from memory_port (list_lru 2) (IpV4 203 0 113 42)
        [(sample_lookup_env 0, ''x''), (sample_lookup_env 200, ''y''), (sample_lookup_env 400, ''z'')] sample_validator))\<lparr>vl_ephemeral := s\<rparr>)"
proof -
  let ?xs = "[(sample_lookup_env 0, ''x''), (sample_lookup_env 200, ''y''), (sample_lookup_env 400, ''z'')]"
  obtain results st' where run: "attempts_from memory_port (list_lru 2) (IpV4 203 0 113 42) ?xs sample_validator = (results, st')" by force
  have "results = [Inl PrefixNotFound, Inl PrefixNotFound, Inl PrefixNotFound]" using sample_failures run by simp
  then have "\<exists>s. validate_pat memory_port (list_lru 2) (sample_lookup_env 1200) ''w'' (Some (IpV4 203 0 113 7)) st' =
      (Inl RateLimited, st'\<lparr>vl_ephemeral := s\<rparr>)"
    by (intro lockout_engages [OF run, where cfg = "\<lparr>lc_threshold = 3, lc_window = 300, lc_duration = 900\<rparr>"])
      (auto simp: mono_def booked_def sample_lookup_env_def sample_validator_def shown_by_def client_ip_bucket_def to_canonical_def)
  then show ?thesis using run by simp
qed

end
