(* ===== verification/Token_Authority.thy ===== *)
theory Token_Authority
  imports Token_Validation_Guarantees
begin

text \<open>
  The token table and the validator together: over every interleaving of mints, revocations, cache
  notifications and presentations, an accepted token is backed by its row, and what its principal
  may do is bounded by the row and by the owner's live grants.
\<close>

section \<open>The table over time\<close>

text \<open>One operation on the table; a revocation is stamped with \<open>now\<close> or later.\<close>

inductive table_step :: "timestamp \<Rightarrow> token_store \<Rightarrow> token_store \<Rightarrow> bool" for now where
  self: "issue_self_token ports caller request st = (res, st') \<Longrightarrow> table_step now st st'"
| service_account: "issue_for_service_account ports uuid_str admin target request st = (res, st') \<Longrightarrow> table_step now st st'"
| system: "issue_for_service_account_system ports target request st = (res, st') \<Longrightarrow> table_step now st st'"
| bootstrap: "issue_for_bootstrap_admin_system ports target name perms n st = (res, st') \<Longrightarrow> table_step now st st'"
| session: "issue_cli_session ports caller cli_request st = (res, st') \<Longrightarrow> table_step now st st'"
| revoke: "now \<le> tp_row_now ports \<Longrightarrow> revoke_token ports actor token_id admin_authority st = (revoked, st') \<Longrightarrow> table_step now st st'"
| prune: "table_step now st (prune_expired instant st)"

definition row_evolves :: "timestamp \<Rightarrow> api_token \<Rightarrow> api_token \<Rightarrow> bool" where
  "row_evolves now t t' \<longleftrightarrow> t' = t \<or> tk_revoked_at t = None \<and> (\<exists>r\<ge>now. t' = t\<lparr>tk_revoked_at := Some r\<rparr>)"

lemma issue_inner_appends:
  "issue_inner ports actor caller subj target kind request st = (res, st') \<Longrightarrow> set (ts_tokens st) \<subseteq> set (ts_tokens st')"
  by (drule issue_inner_result) (auto simp: minted_def dest: refused_frame)

lemma table_step_rows:
  assumes "table_step now st st'" and "t \<in> set (ts_tokens st)"
  shows "\<exists>t'\<in>set (ts_tokens st'). row_evolves now t t'"
  using assms
proof cases
  case (self ports caller request res)
  then have "set (ts_tokens st) \<subseteq> set (ts_tokens st')"
    by (auto simp: issue_self_token_def split: if_splits elim!: find_user_cases dest!: issue_inner_appends deny_frame)
  then show ?thesis using assms(2) by (auto simp: row_evolves_def)
next
  case (service_account ports uuid_str admin target request res)
  then have "set (ts_tokens st) \<subseteq> set (ts_tokens st')"
    by (auto simp: issue_for_service_account_def split: if_splits elim!: find_user_cases dest!: issue_inner_appends deny_frame)
  then show ?thesis using assms(2) by (auto simp: row_evolves_def)
next
  case (system ports target request res)
  then have "set (ts_tokens st) \<subseteq> set (ts_tokens st')"
    using system_mint_result [OF system] by (auto simp: minted_def dest: redeem_frame)
  then show ?thesis using assms(2) by (auto simp: row_evolves_def)
next
  case (bootstrap ports target name perms n res)
  then have "set (ts_tokens st) \<subseteq> set (ts_tokens st')"
    using bootstrap_mint_result [OF bootstrap] by (auto simp: minted_def)
  then show ?thesis using assms(2) by (auto simp: row_evolves_def)
next
  case (session ports caller cli_request res)
  then show ?thesis using assms(2) cli_session_result by (fastforce simp: row_evolves_def)
next
  case (revoke ports actor token_id admin_authority revoked)
  let ?f = "\<lambda>t. if tk_id t = token_id \<and> tk_revoked_at t = None then t\<lparr>tk_revoked_at := Some (tp_row_now ports)\<rparr> else t"
  have "?f t \<in> set (ts_tokens (revoke_row (tp_row_now ports) token_id st))" and "row_evolves now t (?f t)"
    using assms(2) revoke(1) by (auto simp: row_evolves_def revoke_row_def)
  then show ?thesis using assms(2) revoke_result [OF revoke(2)] by (auto simp: row_evolves_def)
next
  case (prune instant)
  then show ?thesis using assms(2) by (auto simp: row_evolves_def prune_expired_def)
qed

section \<open>What one presentation does to the cache\<close>

lemma fail_with_frame:
  "fail_with port env keys err st = (res, st') \<Longrightarrow> vl_cache st' = vl_cache st \<and> \<not> is_ok res"
  by (auto simp: fail_with_def split: prod.splits sum.splits)

lemma recheck_result:
  assumes "recheck port env keys expires_at revoked_at user_id st = (res, st')"
  shows "vl_cache st' = vl_cache st"
    and "res = Inr x \<Longrightarrow> (\<forall>e. expires_at = Some e \<longrightarrow> ve_now env < e) \<and> revoked_at = None \<and>
      (\<exists>user. ve_find_user env user_id = Inr user \<and> us_is_active user)"
  using assms unfolding recheck_def
  by (auto split: if_splits sum.splits option.splits dest!: fail_with_frame)

lemma consult_frame: "consult_lockout port env keys st = (res, st') \<Longrightarrow> vl_cache st' = vl_cache st"
  by (auto simp: consult_lockout_def split: option.splits prod.splits sum.splits)

lemma emit_frame: "vl_cache (maybe_emit_token_use port env v st) = vl_cache st"
  by (auto simp: maybe_emit_token_use_def Let_def split: option.splits prod.splits sum.splits)

text \<open>A row that passed the verification and all checks.\<close>

definition accepts_row :: "validation_env \<Rightarrow> string \<Rightarrow> api_token \<Rightarrow> bool" where
  "accepts_row env plaintext t \<longleftrightarrow>
     ve_verify env plaintext (tk_token_hash t) \<and>
     (\<forall>e. tk_expires_at t = Some e \<longrightarrow> ve_now env < e) \<and> tk_revoked_at t = None \<and>
     (\<exists>user. ve_find_user env (tk_user_id t) = Inr user \<and> us_is_active user)"

lemma verify_lookup_result:
  assumes "verify_lookup port lru env keys plaintext lookup st = (res, st')"
  shows "\<not> is_ok res \<and> vl_cache st' = vl_cache st \<or>
    (\<exists>t. lookup = Some t \<and> accepts_row env plaintext t \<and> res = Inr (validation_of t) \<and>
       vl_cache st' = cache_insert lru (ve_insert_now env) (ve_digest env plaintext) (validation_of t) (vl_cache st))"
proof (cases lookup)
  case None
  then show ?thesis using assms by (auto simp: verify_lookup_def Let_def dest: fail_with_frame)
next
  case (Some t)
  show ?thesis
  proof (cases "ve_verify env plaintext (tk_token_hash t)")
    case False
    then show ?thesis using assms Some by (auto simp: verify_lookup_def Let_def dest: fail_with_frame)
  next
    case True
    obtain r st1 where check: "recheck port env keys (tk_expires_at t) (tk_revoked_at t) (tk_user_id t)
      (st\<lparr>vl_verifications := vl_verifications st + 1\<rparr>) = (r, st1)" by force
    have "vl_cache st1 = vl_cache st" using recheck_result(1) [OF check] by simp
    then show ?thesis
      using assms Some True check recheck_result(2) [OF check]
      by (cases r) (auto simp: verify_lookup_def Let_def and_then_st_def accepts_row_def)
  qed
qed

lemma begin_result:
  assumes "begin_validation port lru env keys plaintext st = (res, st')"
  shows "\<not> is_ok res \<and> vl_cache st' = vl_cache st \<or>
    (\<exists>got. res = Inr got \<and> cache_get lru (ve_get_now env) (ve_digest env plaintext) (vl_cache st) = (got, vl_cache st'))"
  using assms unfolding begin_validation_def
proof (rule and_then_st_cases)
  fix u st1
  assume consult: "consult_lockout port env keys st = (Inr u, st1)"
    and get: "(case cache_get lru (ve_get_now env) (ve_digest env plaintext) (vl_cache st1) of
      (got, c) \<Rightarrow> (Inr got, st1\<lparr>vl_cache := c\<rparr>)) = (res, st')"
  show ?thesis using get consult_frame [OF consult] by (auto split: prod.splits)
qed (use consult_frame in auto)

lemma finish_hit:
  assumes "finish_validation port lru env keys plaintext (Got (Some v)) st = (res, st')"
  shows "vl_cache st' = vl_cache st"
    and "res = Inr w \<Longrightarrow> w = v \<and> (\<forall>e. av_expires_at v = Some e \<longrightarrow> ve_now env < e) \<and>
      (\<exists>user. ve_find_user env (av_user_id v) = Inr user \<and> us_is_active user)"
proof -
  obtain r st1 where check: "recheck port env keys (av_expires_at v) (av_revoked_at v) (av_user_id v) st = (r, st1)" by force
  show "vl_cache st' = vl_cache st"
    and "res = Inr w \<Longrightarrow> w = v \<and> (\<forall>e. av_expires_at v = Some e \<longrightarrow> ve_now env < e) \<and>
      (\<exists>user. ve_find_user env (av_user_id v) = Inr user \<and> us_is_active user)"
    using assms check recheck_result [OF check]
    by (cases r; auto simp: finish_validation_def and_then_st_def)+
qed

section \<open>A deployment\<close>

text \<open>
  A token table and a validator that reads it, with the presentations under way and the last instant
  seen. The digest is SHA-256 and the verification Argon2. A presentation asks the cache, asks the table unless
  it hit, and finishes, and between these steps anything else may happen: operations on the table,
  steps of other presentations, notifications, which reach the cache at any time or never, and
  changes of the validator outside the cache. \<open>delay\<close> bounds how far the stamp of a revocation lies
  before the instant from which the lookups see it, \<open>latency\<close> how long a presentation takes from the cache's answer to
  its end on a hit, and from the lookup of the row to its end on a miss.
\<close>

record ('l, 's) deployment =
  dp_table :: token_store
  dp_validator :: "('l, 's) validator"
  dp_in_flight :: "(string \<times> stage \<times> timestamp) list"
  dp_clock :: timestamp

definition reads_table :: "token_store \<Rightarrow> validation_env \<Rightarrow> bool" where
  "reads_table st env \<longleftrightarrow>
     (\<exists>order. (\<forall>xs. set (order xs) = set xs) \<and>
        (\<forall>p. (\<exists>e. ve_find_by_prefix env p = Inl e) \<or> ve_find_by_prefix env p = Inr (find_token_by_prefix order p st)))"

inductive deployment_run ::
    "'s ephemeral_port \<Rightarrow> 'l lru \<Rightarrow> (string \<Rightarrow> string) \<Rightarrow> (string \<Rightarrow> string \<Rightarrow> bool) \<Rightarrow> string set \<Rightarrow> duration \<Rightarrow> duration \<Rightarrow> duration
     \<Rightarrow> ('l, 's) deployment \<Rightarrow> bool" for port lru digest verify presented ttl delay latency where
  start: "vl_cache v = new_cache l ttl \<Longrightarrow> lru_peek lru l = Map.empty \<Longrightarrow>
    deployment_run port lru digest verify presented ttl delay latency
      \<lparr>dp_table = st, dp_validator = v, dp_in_flight = [], dp_clock = now\<rparr>"
| table: "deployment_run port lru digest verify presented ttl delay latency d \<Longrightarrow> dp_clock d \<le> now \<Longrightarrow>
    table_step (now - delay) (dp_table d) st \<Longrightarrow>
    deployment_run port lru digest verify presented ttl delay latency (d\<lparr>dp_table := st, dp_clock := now\<rparr>)"
| ask_cache: "deployment_run port lru digest verify presented ttl delay latency d \<Longrightarrow> dp_clock d \<le> ve_get_now env \<Longrightarrow>
    ve_digest env = digest \<Longrightarrow> plaintext \<in> presented \<Longrightarrow>
    begin_validation port lru env keys plaintext (dp_validator d) = (res, v) \<Longrightarrow>
    deployment_run port lru digest verify presented ttl delay latency
      (d\<lparr>dp_validator := v, dp_clock := ve_get_now env,
         dp_in_flight := (case res of Inr got \<Rightarrow> [(plaintext, Got got, ve_get_now env)] | Inl e \<Rightarrow> []) @ dp_in_flight d\<rparr>)"
| ask_table: "deployment_run port lru digest verify presented ttl delay latency d \<Longrightarrow> dp_clock d \<le> now \<Longrightarrow>
    (plaintext, Got None, since) \<in> set (dp_in_flight d) \<Longrightarrow> reads_table (dp_table d) env \<Longrightarrow> lookup_row env plaintext = Inr row \<Longrightarrow>
    deployment_run port lru digest verify presented ttl delay latency
      (d\<lparr>dp_clock := now, dp_in_flight := (plaintext, Looked row, now) # remove1 (plaintext, Got None, since) (dp_in_flight d)\<rparr>)"
| finish: "deployment_run port lru digest verify presented ttl delay latency d \<Longrightarrow>
    (plaintext, stage, since) \<in> set (dp_in_flight d) \<Longrightarrow> stage \<noteq> Got None \<Longrightarrow> ve_digest env = digest \<Longrightarrow> ve_verify env = verify \<Longrightarrow>
    dp_clock d \<le> ve_insert_now env \<Longrightarrow> ve_now env \<le> ve_insert_now env \<Longrightarrow> ve_insert_now env \<le> since + latency \<Longrightarrow>
    finish_validation port lru env keys plaintext stage (dp_validator d) = (res, v) \<Longrightarrow>
    deployment_run port lru digest verify presented ttl delay latency
      (d\<lparr>dp_validator := v, dp_clock := ve_insert_now env, dp_in_flight := remove1 (plaintext, stage, since) (dp_in_flight d)\<rparr>)"
| notify: "deployment_run port lru digest verify presented ttl delay latency d \<Longrightarrow>
    f \<in> {invalidate_token lru i, invalidate_user lru i, drop_all lru} \<Longrightarrow>
    deployment_run port lru digest verify presented ttl delay latency
      (d\<lparr>dp_validator := dp_validator d\<lparr>vl_cache := f (vl_cache (dp_validator d))\<rparr>\<rparr>)"
| elsewhere: "deployment_run port lru digest verify presented ttl delay latency d \<Longrightarrow> vl_cache v = vl_cache (dp_validator d) \<Longrightarrow>
    deployment_run port lru digest verify presented ttl delay latency (d\<lparr>dp_validator := v\<rparr>)"

text \<open>What a row vouches for: the validation an accepted plaintext gives, up to the instant \<open>at\<close> of a revocation.\<close>

definition vouches :: "(string \<Rightarrow> string \<Rightarrow> bool) \<Rightarrow> string \<Rightarrow> api_token_validation \<Rightarrow> timestamp \<Rightarrow> api_token \<Rightarrow> bool" where
  "vouches verify plaintext v at t \<longleftrightarrow> verify plaintext (tk_token_hash t) \<and> v = (validation_of t)\<lparr>av_revoked_at := None\<rparr> \<and>
     (\<forall>r. tk_revoked_at t = Some r \<longrightarrow> at \<le> r)"

definition vouched ::
    "(string \<Rightarrow> string \<Rightarrow> bool) \<Rightarrow> token_store \<Rightarrow> string \<Rightarrow> api_token_validation \<Rightarrow> timestamp \<Rightarrow> bool" where
  "vouched verify st plaintext v at \<longleftrightarrow> (\<exists>t\<in>set (ts_tokens st). vouches verify plaintext v at t)"

lemma vouched_step:
  assumes "vouched verify st p v at" and "table_step low st st'" and "at \<le> low"
  shows "vouched verify st' p v at"
proof -
  obtain t where t: "t \<in> set (ts_tokens st)" "vouches verify p v at t" using assms(1) by (auto simp: vouched_def)
  obtain t' where "t' \<in> set (ts_tokens st')" "row_evolves low t t'" using table_step_rows [OF assms(2) t(1)] by blast
  then show ?thesis
    using t(2) assms(3) unfolding vouched_def by (intro bexI [of _ t']) (auto simp: vouches_def row_evolves_def validation_of_def)
qed

lemma vouched_mono: "vouched verify st p v at \<Longrightarrow> at' \<le> at \<Longrightarrow> vouched verify st p v at'"
  unfolding vouched_def vouches_def by fastforce

text \<open>The validation a stage can end in, if the checks at the end pass.\<close>

definition stage_vouched ::
    "(string \<Rightarrow> string \<Rightarrow> bool) \<Rightarrow> duration \<Rightarrow> duration \<Rightarrow> duration \<Rightarrow> token_store \<Rightarrow> timestamp \<Rightarrow> string \<times> stage \<times> timestamp \<Rightarrow> bool" where
  "stage_vouched verify ttl delay latency st clock x \<longleftrightarrow>
     (case x of (p, stage, since) \<Rightarrow> since \<le> clock \<and>
        (case stage of
           Got None \<Rightarrow> True
         | Got (Some v) \<Rightarrow> vouched verify st p v (since - max 0 ttl - latency - delay)
         | Looked None \<Rightarrow> True
         | Looked (Some t) \<Rightarrow> verify p (tk_token_hash t) \<and> tk_revoked_at t = None \<longrightarrow> vouched verify st p (validation_of t) (since - delay)))"

definition entry_vouched ::
    "(string \<Rightarrow> string) \<Rightarrow> (string \<Rightarrow> string \<Rightarrow> bool) \<Rightarrow> string set \<Rightarrow> duration \<Rightarrow> token_store \<Rightarrow> timestamp \<Rightarrow> string \<Rightarrow> cached_entry \<Rightarrow> bool" where
  "entry_vouched digest verify presented grace st clock k e \<longleftrightarrow> ce_inserted_at e \<le> clock \<and>
     (\<exists>p\<in>presented. digest p = k \<and> vouched verify st p (ce_validation e) (ce_inserted_at e - grace))"

lemma stage_vouched_step:
  assumes "stage_vouched verify ttl delay latency st clock x" and "table_step (now - delay) st st'" and "clock \<le> now" and "0 \<le> latency"
  shows "stage_vouched verify ttl delay latency st' now x"
proof -
  obtain p stage since where x: "x = (p, stage, since)" by (cases x)
  have "since \<le> clock" using assms(1) by (simp add: stage_vouched_def x)
  then have "since - max 0 ttl - latency - delay \<le> now - delay" "since - delay \<le> now - delay" "since \<le> now" using assms(3,4) by auto
  then show ?thesis
    using assms(1) vouched_step [OF _ assms(2)] by (auto simp: stage_vouched_def x split: stage.splits option.splits)
qed

lemma entry_vouched_step:
  assumes "entry_vouched digest verify presented (latency + delay) st clock k e" and "table_step (now - delay) st st'"
    and "clock \<le> now" and "0 \<le> latency"
  shows "entry_vouched digest verify presented (latency + delay) st' now k e"
proof -
  have "ce_inserted_at e - (latency + delay) \<le> now - delay" "ce_inserted_at e \<le> now"
    using assms(1,3,4) by (auto simp: entry_vouched_def)
  then show ?thesis using assms(1) vouched_step [OF _ assms(2)] by (auto simp: entry_vouched_def)
qed

lemma find_token_in_table: "find_token_by_prefix order p st = Some t \<Longrightarrow> set (order (ts_tokens st)) = set (ts_tokens st) \<Longrightarrow> t \<in> set (ts_tokens st)"
  unfolding find_token_by_prefix_def by (auto simp: find_Some_iff intro: nth_mem)

lemma looked_up_vouched:
  assumes "lookup_row env p = Inr (Some t)" and "reads_table st env" and "verify p (tk_token_hash t)" and "tk_revoked_at t = None"
  shows "vouched verify st p (validation_of t) at"
proof -
  obtain q where "ve_find_by_prefix env q = Inr (Some t)"
    using assms(1) by (auto simp: lookup_row_def split: sum.splits prod.splits)
  then have "t \<in> set (ts_tokens st)"
    using assms(2) find_token_in_table [of _ q st t] unfolding reads_table_def by (metis sum.inject(2) sum.distinct(1))
  then show ?thesis using assms(3,4) unfolding vouched_def by (intro bexI [of _ t]) (auto simp: vouches_def validation_of_def)
qed

definition deployment_inv ::
    "'l lru \<Rightarrow> (string \<Rightarrow> string) \<Rightarrow> (string \<Rightarrow> string \<Rightarrow> bool) \<Rightarrow> string set \<Rightarrow> duration \<Rightarrow> duration \<Rightarrow> duration
     \<Rightarrow> ('l, 's) deployment \<Rightarrow> bool" where
  "deployment_inv lru digest verify presented ttl delay latency d \<longleftrightarrow>
     pc_ttl (vl_cache (dp_validator d)) = ttl \<and> indexed lru (vl_cache (dp_validator d)) \<and>
     (\<forall>k e. cached lru (vl_cache (dp_validator d)) k = Some e \<longrightarrow>
        entry_vouched digest verify presented (latency + delay) (dp_table d) (dp_clock d) k e) \<and>
     (\<forall>x\<in>set (dp_in_flight d). fst x \<in> presented \<and> stage_vouched verify ttl delay latency (dp_table d) (dp_clock d) x)"

lemma stage_vouched_later:
  "stage_vouched verify ttl delay latency st clock x \<Longrightarrow> clock \<le> now \<Longrightarrow> stage_vouched verify ttl delay latency st now x"
  unfolding stage_vouched_def by auto

text \<open>A cache that only forgets keeps the invariant; the clock may move on, and presentations end.\<close>

lemma deployment_inv_mono:
  assumes "deployment_inv lru digest verify presented ttl delay latency d" and "indexed lru (vl_cache v)" and "pc_ttl (vl_cache v) = ttl"
    and "\<And>k e. cached lru (vl_cache v) k = Some e \<Longrightarrow> cached lru (vl_cache (dp_validator d)) k = Some e" and "dp_clock d \<le> clock"
    and "set flights \<subseteq> set (dp_in_flight d)"
  shows "deployment_inv lru digest verify presented ttl delay latency (d\<lparr>dp_validator := v, dp_clock := clock, dp_in_flight := flights\<rparr>)"
proof -
  have "entry_vouched digest verify presented (latency + delay) (dp_table d) clock k e" if "cached lru (vl_cache v) k = Some e" for k e
    using assms(1) assms(4) [OF that] assms(5) unfolding deployment_inv_def entry_vouched_def by fastforce
  moreover have "fst x \<in> presented \<and> stage_vouched verify ttl delay latency (dp_table d) clock x" if "x \<in> set flights" for x
    using that assms(1,5,6) stage_vouched_later unfolding deployment_inv_def by blast
  ultimately show ?thesis using assms(2,3) by (simp add: deployment_inv_def)
qed

lemma ask_cache_keeps_inv:
  assumes laws: "lru_laws lru" and inj: "inj_on digest presented"
    and inv: "deployment_inv lru digest verify presented ttl delay latency d"
    and env: "dp_clock d \<le> ve_get_now env" "ve_digest env = digest" "plaintext \<in> presented"
    and run: "begin_validation port lru env keys plaintext (dp_validator d) = (res, v)"
  shows "deployment_inv lru digest verify presented ttl delay latency
      (d\<lparr>dp_validator := v, dp_clock := ve_get_now env,
         dp_in_flight := (case res of Inr got \<Rightarrow> [(plaintext, Got got, ve_get_now env)] | Inl e \<Rightarrow> []) @ dp_in_flight d\<rparr>)"
proof -
  note ix = inv [unfolded deployment_inv_def, THEN conjunct2, THEN conjunct1] and len = inv [unfolded deployment_inv_def, THEN conjunct1]
  from begin_result [OF run] show ?thesis
  proof (elim disjE exE conjE)
    assume "\<not> is_ok res" "vl_cache v = vl_cache (dp_validator d)"
    then show ?thesis using deployment_inv_mono [OF inv, of v "ve_get_now env" "dp_in_flight d"] ix len env(1) by (cases res) auto
  next
    fix got
    assume res: "res = Inr got"
      and get: "cache_get lru (ve_get_now env) (ve_digest env plaintext) (vl_cache (dp_validator d)) = (got, vl_cache v)"
    note result = cache_get_result [OF laws get]
    have old: "deployment_inv lru digest verify presented ttl delay latency
        (d\<lparr>dp_validator := v, dp_clock := ve_get_now env, dp_in_flight := dp_in_flight d\<rparr>)"
      using deployment_inv_mono [OF inv, of v "ve_get_now env" "dp_in_flight d"] result(1,2) result(5) [OF ix] len env(1) by simp
    have "vouched verify (dp_table d) plaintext w (ve_get_now env - max 0 ttl - latency - delay)" if hit: "got = Some w" for w
    proof -
      obtain e where e: "cached lru (vl_cache (dp_validator d)) (digest plaintext) = Some e" "w = ce_validation e"
          "ve_get_now env - ce_inserted_at e \<le> max 0 ttl"
        using result(3) [OF hit] len env(2) by auto
      then obtain p where "p \<in> presented" "digest p = digest plaintext"
          "vouched verify (dp_table d) p w (ce_inserted_at e - (latency + delay))"
        using inv unfolding deployment_inv_def entry_vouched_def by metis
      moreover from this have "p = plaintext" using inj env(3) by (auto dest: inj_onD)
      ultimately show ?thesis using e(3) by (auto intro: vouched_mono)
    qed
    then show ?thesis
      using old env(3) unfolding res by (auto simp: deployment_inv_def stage_vouched_def split: option.split)
  qed
qed

lemma finish_keeps_inv:
  assumes laws: "lru_laws lru" and "0 \<le> latency" and inv: "deployment_inv lru digest verify presented ttl delay latency d"
    and flight: "(plaintext, stage, since) \<in> set (dp_in_flight d)" "stage \<noteq> Got None"
    and env: "ve_digest env = digest" "ve_verify env = verify" "dp_clock d \<le> ve_insert_now env" "ve_insert_now env \<le> since + latency"
    and run: "finish_validation port lru env keys plaintext stage (dp_validator d) = (res, v)"
  shows "deployment_inv lru digest verify presented ttl delay latency
      (d\<lparr>dp_validator := v, dp_clock := ve_insert_now env, dp_in_flight := remove1 (plaintext, stage, since) (dp_in_flight d)\<rparr>)"
    (is "deployment_inv _ _ _ _ _ _ _ ?d")
proof -
  note ix = inv [unfolded deployment_inv_def, THEN conjunct2, THEN conjunct1] and len = inv [unfolded deployment_inv_def, THEN conjunct1]
  have same: ?thesis if "vl_cache v = vl_cache (dp_validator d)"
    using deployment_inv_mono [OF inv, of v "ve_insert_now env" "remove1 (plaintext, stage, since) (dp_in_flight d)"] ix len env(3) that
      set_remove1_subset by fastforce
  show ?thesis
  proof (cases stage)
    case (Got got)
    then obtain w where "stage = Got (Some w)" using flight(2) by (cases got) auto
    then show ?thesis using same finish_hit(1) run by metis
  next
    case (Looked row)
    then have "verify_lookup port lru env keys plaintext row (dp_validator d) = (res, v)" using run by (simp add: finish_validation_def)
    from verify_lookup_result [OF this] show ?thesis
    proof (elim disjE exE conjE)
      fix t
      assume t: "row = Some t" "accepts_row env plaintext t"
        and c: "vl_cache v = cache_insert lru (ve_insert_now env) (ve_digest env plaintext) (validation_of t) (vl_cache (dp_validator d))"
      note ins = cache_insert_result [OF laws ix, of "ve_insert_now env" "ve_digest env plaintext" "validation_of t", folded c]
      have p: "plaintext \<in> presented" and "vouched verify (dp_table d) plaintext (validation_of t) (since - delay)"
        using inv flight(1) t env(2) unfolding deployment_inv_def Looked by (auto simp: stage_vouched_def accepts_row_def dest!: bspec)
      then have "vouched verify (dp_table d) plaintext (validation_of t) (ve_insert_now env - (latency + delay))"
        using env(4) by (auto intro: vouched_mono)
      then have "entry_vouched digest verify presented (latency + delay) (dp_table d) (ve_insert_now env) (digest plaintext)
          \<lparr>ce_validation = validation_of t, ce_inserted_at = ve_insert_now env\<rparr>"
        using p by (auto simp: entry_vouched_def)
      moreover have "deployment_inv lru digest verify presented ttl delay latency (d\<lparr>dp_validator := dp_validator d,
          dp_clock := ve_insert_now env, dp_in_flight := remove1 (plaintext, stage, since) (dp_in_flight d)\<rparr>)"
        using ix len env(3) by (intro deployment_inv_mono [OF inv] set_remove1_subset) auto
      ultimately show ?thesis
        using ins(1,4) len env(1) unfolding deployment_inv_def by (auto dest: ins(2))
    qed (use same in blast)
  qed
qed

lemma deployment_run_inv:
  assumes "lru_laws lru" and "inj_on digest presented" and "0 \<le> latency"
    and "deployment_run port lru digest verify presented ttl delay latency d"
  shows "deployment_inv lru digest verify presented ttl delay latency d"
  using assms(4)
proof induction
  case (start v l st now)
  then show ?case by (auto simp: deployment_inv_def new_cache_def indexed_def)
next
  case (table d now st)
  then show ?case
    using entry_vouched_step [OF _ table(3,2) assms(3)] stage_vouched_step [OF _ table(3,2) assms(3)]
    unfolding deployment_inv_def by simp
next
  case (ask_cache d env plaintext keys res v)
  then show ?case by (intro ask_cache_keeps_inv [OF assms(1,2) ask_cache.IH])
next
  case (ask_table d now plaintext since env row)
  have "deployment_inv lru digest verify presented ttl delay latency
      (d\<lparr>dp_validator := dp_validator d, dp_clock := now, dp_in_flight := remove1 (plaintext, Got None, since) (dp_in_flight d)\<rparr>)"
    using ask_table.IH ask_table.hyps(2)
    by (intro deployment_inv_mono [OF ask_table.IH] set_remove1_subset) (auto simp: deployment_inv_def)
  moreover have "plaintext \<in> presented" using ask_table.IH ask_table.hyps(3) by (auto simp: deployment_inv_def dest!: bspec)
  moreover have "stage_vouched verify ttl delay latency (dp_table d) now (plaintext, Looked row, now)"
    using looked_up_vouched [OF _ ask_table.hyps(4)] ask_table.hyps(5) by (auto simp: stage_vouched_def split: option.split)
  ultimately show ?case by (simp add: deployment_inv_def)
next
  case (finish d plaintext stage since env keys res v)
  then show ?case by (intro finish_keeps_inv [OF assms(1,3) finish.IH finish.hyps(2-6) finish.hyps(8,9)])
next
  case (notify d f i)
  let ?c = "vl_cache (dp_validator d)"
  have ix: "indexed lru ?c" and len: "pc_ttl ?c = ttl" using notify(3) by (auto simp: deployment_inv_def)
  have "indexed lru (f ?c) \<and> pc_ttl (f ?c) = ttl \<and> (\<forall>k e. cached lru (f ?c) k = Some e \<longrightarrow> cached lru ?c k = Some e)"
    using notify(2) len invalidate_token_result [OF assms(1) ix, of i] invalidate_user_result [OF assms(1) ix, of i]
      drop_all_result [OF assms(1), of ?c] by auto
  then show ?case
    using deployment_inv_mono [OF notify(3), of "dp_validator d\<lparr>vl_cache := f ?c\<rparr>" "dp_clock d" "dp_in_flight d"] by simp
next
  case (elsewhere d v)
  then show ?case by (simp add: deployment_inv_def)
qed

text \<open>A presentation about to finish, and the readings of the clock it finishes with.\<close>

definition about_to_finish ::
    "(string \<Rightarrow> string) \<Rightarrow> (string \<Rightarrow> string \<Rightarrow> bool) \<Rightarrow> duration \<Rightarrow> ('l, 's) deployment \<Rightarrow> string \<Rightarrow> stage \<Rightarrow> validation_env \<Rightarrow> bool" where
  "about_to_finish digest verify latency d plaintext stage env \<longleftrightarrow>
     stage \<noteq> Got None \<and> ve_digest env = digest \<and> ve_verify env = verify \<and>
     (\<exists>since. (plaintext, stage, since) \<in> set (dp_in_flight d) \<and> ve_now env \<le> since + latency)"

lemma accepted_backed:
  assumes "lru_laws lru" and "inj_on digest presented" and "0 \<le> latency"
    and "deployment_run port lru digest verify presented ttl delay latency d"
    and "about_to_finish digest verify latency d plaintext stage env"
    and "finish_validation port lru env keys plaintext stage (dp_validator d) = (Inr v, st')"
  shows "\<exists>t\<in>set (ts_tokens (dp_table d)). verify plaintext (tk_token_hash t) \<and> v = (validation_of t)\<lparr>av_revoked_at := None\<rparr> \<and>
    (\<forall>e. tk_expires_at t = Some e \<longrightarrow> ve_now env < e) \<and>
    (\<exists>user. ve_find_user env (tk_user_id t) = Inr user \<and> us_is_active user) \<and>
    (\<forall>r. tk_revoked_at t = Some r \<longrightarrow> ve_now env \<le> r + max 0 ttl + 2 * latency + delay)"
proof -
  obtain since where flight: "(plaintext, stage, since) \<in> set (dp_in_flight d)" "stage \<noteq> Got None" "ve_verify env = verify"
      "ve_now env \<le> since + latency"
    using assms(5) by (auto simp: about_to_finish_def)
  have sv: "stage_vouched verify ttl delay latency (dp_table d) (dp_clock d) (plaintext, stage, since)"
    using deployment_run_inv [OF assms(1-4)] flight(1) by (auto simp: deployment_inv_def)
  have "vouched verify (dp_table d) plaintext v (since - max 0 ttl - latency - delay) \<and>
      (\<forall>e. av_expires_at v = Some e \<longrightarrow> ve_now env < e) \<and> (\<exists>user. ve_find_user env (av_user_id v) = Inr user \<and> us_is_active user)"
  proof (cases stage)
    case (Got got)
    then show ?thesis
      using flight(2) sv finish_hit(2) [of port lru env keys plaintext _ "dp_validator d" "Inr v" st' v] assms(6)
      by (cases got) (auto simp: stage_vouched_def)
  next
    case (Looked row)
    then obtain t where "row = Some t" "accepts_row env plaintext t" "v = validation_of t"
      using verify_lookup_result [of port lru env keys plaintext row "dp_validator d" "Inr v" st'] assms(6)
      by (auto simp: finish_validation_def)
    then show ?thesis
      using sv flight(3) assms(3) unfolding Looked
      by (auto simp: stage_vouched_def accepts_row_def validation_of_def intro: vouched_mono)
  qed
  then show ?thesis
    using flight(4) unfolding vouched_def vouches_def by (auto simp: validation_of_def intro!: bexI)
qed

text \<open>
  C17. A token that is accepted is backed by its row. Over every interleaving of mints, revocations,
  prunings, cache notifications (delivered or lost) and the steps of concurrent presentations, when a
  presentation ends with acceptance, the table holds a row whose Argon2 hash the plaintext verifies; the
  validation returned is that row's, with the row's cap; the row is not expired at the instant of the
  expiry check and its user was found and active at the check; and if the row is already
  revoked, the check comes no later after the revocation's stamp than the cache lifetime, the delay until the lookups see
  a revocation, and twice the latency of a presentation, together. The hypotheses: the container obeys its
  documented laws, no two presented plaintexts collide under SHA-256, and the clocks of the
  servers agree (a skew counts towards the delay). Which row a lookup returns when several carry the prefix is left open.
\<close>

theorem accepted_token_is_backed:
  assumes "lru_laws lru" and "inj_on digest presented" and "0 \<le> latency"
    and "deployment_run port lru digest verify presented ttl delay latency d"
    and "about_to_finish digest verify latency d plaintext stage env"
    and "finish_validation port lru env keys plaintext stage (dp_validator d) = (Inr v, st')"
  shows "\<exists>t\<in>set (ts_tokens (dp_table d)). verify plaintext (tk_token_hash t) \<and> v = (validation_of t)\<lparr>av_revoked_at := None\<rparr> \<and>
    (\<forall>e. tk_expires_at t = Some e \<longrightarrow> ve_now env < e) \<and>
    (\<exists>user. ve_find_user env (tk_user_id t) = Inr user \<and> us_is_active user) \<and>
    (\<forall>r. tk_revoked_at t = Some r \<longrightarrow> ve_now env \<le> r + max 0 ttl + 2 * latency + delay)"
  using accepted_backed [OF assms] .

text \<open>
  A deployment with one token, used at instant 5, revoked with stamp 9 and visibly at 10, and presented again at
  100, when the cache still answers.
\<close>

definition sample_text :: string where
  "sample_text = ''hort_pat_abcdefghijklmnopqrstuvwxyz234567''"

definition sample_token_row :: api_token where
  "sample_token_row = token_row (sample_ports 1) sample_account Pat ''laptop'' None [PermRead] None (Some 1000) 7 sample_text ''abcdefgh''"

definition sample_token_table :: token_store where
  "sample_token_table = no_tokens\<lparr>ts_tokens := [sample_token_row]\<rparr>"

definition sample_revoked :: token_store where
  "sample_revoked = snd (revoke_token (sample_ports 2) 7 1 False sample_token_table)"

definition sample_reader :: "timestamp \<Rightarrow> token_store \<Rightarrow> validation_env" where
  "sample_reader now st = (sample_lookup_env now)\<lparr>ve_find_by_prefix := (\<lambda>q. Inr (find_token_by_prefix (\<lambda>xs. xs) q st)), ve_verify := (=)\<rparr>"

definition sample_asked :: "((string \<times> cached_entry) list, mem_store) validator" where
  "sample_asked = snd (begin_validation memory_port (list_lru 2) (sample_reader 5 sample_token_table) None sample_text sample_validator)"

definition sample_warm :: "((string \<times> cached_entry) list, mem_store) validator" where
  "sample_warm = snd (finish_validation memory_port (list_lru 2) (sample_reader 5 sample_token_table) None sample_text
     (Looked (Some sample_token_row)) sample_asked)"

definition sample_asked_again :: "((string \<times> cached_entry) list, mem_store) validator" where
  "sample_asked_again = snd (begin_validation memory_port (list_lru 2) (sample_reader 100 sample_revoked) None sample_text sample_warm)"

abbreviation sample_stage :: stage where
  "sample_stage \<equiv> Got (Some (validation_of sample_token_row))"

definition sample_token_deployment :: "((string \<times> cached_entry) list, mem_store) deployment" where
  "sample_token_deployment = \<lparr>dp_table = sample_revoked, dp_validator = sample_asked_again,
     dp_in_flight = [(sample_text, sample_stage, 100)], dp_clock = 100\<rparr>"

lemma sample_revoked_rows: "ts_tokens sample_revoked = [sample_token_row\<lparr>tk_revoked_at := Some 9\<rparr>]"
proof -
  have "tp_read_fault (sample_ports 2) = None" "tp_write_fault (sample_ports 2) = None" "tp_row_now (sample_ports 2) = 9"
    by (simp_all add: sample_ports_def)
  moreover have "tk_id sample_token_row = 1" "tk_user_id sample_token_row = 7" "tk_revoked_at sample_token_row = None"
    by (simp_all add: sample_token_row_def sample_ports_def sample_account_def)
  ultimately show ?thesis by (simp add: sample_revoked_def revoke_token_def sample_token_table_def find_token_by_id_def revoke_row_def no_tokens_def)
qed

lemma sample_reader_fields [simp]:
  "ve_get_now (sample_reader now st) = now" "ve_now (sample_reader now st) = now" "ve_insert_now (sample_reader now st) = now"
  "ve_digest (sample_reader now st) = (\<lambda>x. x)" "ve_verify (sample_reader now st) = (=)"
  "ve_find_user (sample_reader now st) u = Inr sample_account"
  by (simp_all add: sample_reader_def sample_lookup_env_def)

lemma sample_reader_reads [simp]: "reads_table st (sample_reader now st)"
  unfolding reads_table_def by (intro exI [of _ "\<lambda>xs. xs"]) (simp add: sample_reader_def sample_lookup_env_def)

lemma sample_asks:
  "fst (begin_validation memory_port (list_lru 2) (sample_reader 5 sample_token_table) None sample_text sample_validator) = Inr None"
  "lookup_row (sample_reader 5 sample_token_table) sample_text = Inr (Some sample_token_row)"
  "fst (begin_validation memory_port (list_lru 2) (sample_reader 100 sample_revoked) None sample_text sample_warm) =
     Inr (Some (validation_of sample_token_row))"
  "fst (finish_validation memory_port (list_lru 2) (sample_reader 100 sample_revoked) None sample_text sample_stage sample_asked_again) =
     Inr (validation_of sample_token_row)"
  by code_simp+

lemma sample_token_deployment_runs:
  "deployment_run memory_port (list_lru 2) (\<lambda>x. x) (=) {sample_text} 300 1 2 sample_token_deployment"
proof -
  let ?run = "deployment_run memory_port (list_lru 2) (\<lambda>x. x) (=) {sample_text} 300 1 2"
  have "?run \<lparr>dp_table = sample_token_table, dp_validator = sample_validator, dp_in_flight = [], dp_clock = 0\<rparr>"
    by (rule deployment_run.start [of _ "[]"]) (simp_all add: sample_validator_def list_lru_def fun_eq_iff)
  from deployment_run.ask_cache [OF this, of "sample_reader 5 sample_token_table" sample_text None "Inr None" sample_asked]
  have "?run \<lparr>dp_table = sample_token_table, dp_validator = sample_asked, dp_in_flight = [(sample_text, Got None, 5)], dp_clock = 5\<rparr>"
    using sample_asks(1) by (simp add: sample_asked_def prod_eq_iff)
  from deployment_run.ask_table [OF this, of 5 sample_text 5 "sample_reader 5 sample_token_table" "Some sample_token_row"]
  have "?run \<lparr>dp_table = sample_token_table, dp_validator = sample_asked,
      dp_in_flight = [(sample_text, Looked (Some sample_token_row), 5)], dp_clock = 5\<rparr>"
    using sample_asks(2) by simp
  from deployment_run.finish [OF this, of sample_text "Looked (Some sample_token_row)" 5 "sample_reader 5 sample_token_table" None _ sample_warm]
  have "?run \<lparr>dp_table = sample_token_table, dp_validator = sample_warm, dp_in_flight = [], dp_clock = 5\<rparr>"
    by (simp add: sample_warm_def prod_eq_iff)
  moreover have "table_step (10 - 1) sample_token_table sample_revoked"
    by (rule table_step.revoke [where ports = "sample_ports 2" and actor = 7 and token_id = 1 and admin_authority = False])
      (auto simp: sample_ports_def sample_revoked_def intro: prod.collapse [symmetric])
  ultimately have "?run \<lparr>dp_table = sample_revoked, dp_validator = sample_warm, dp_in_flight = [], dp_clock = 10\<rparr>"
    using deployment_run.table [of memory_port "list_lru 2" "\<lambda>x. x" "(=)" "{sample_text}" 300 1 2
      "\<lparr>dp_table = sample_token_table, dp_validator = sample_warm, dp_in_flight = [], dp_clock = 5\<rparr>" 10] by simp
  from deployment_run.ask_cache [OF this, of "sample_reader 100 sample_revoked" sample_text None "Inr (Some (validation_of sample_token_row))" sample_asked_again]
  show ?thesis
    using sample_asks(3) by (simp add: sample_token_deployment_def sample_asked_again_def prod_eq_iff)
qed

lemma sample_finishes:
  "about_to_finish (\<lambda>x. x) (=) 2 sample_token_deployment sample_text sample_stage (sample_reader 100 sample_revoked)"
  "\<exists>st'. finish_validation memory_port (list_lru 2) (sample_reader 100 sample_revoked) None sample_text sample_stage
     (dp_validator sample_token_deployment) = (Inr (validation_of sample_token_row), st')"
proof -
  show "about_to_finish (\<lambda>x. x) (=) 2 sample_token_deployment sample_text sample_stage (sample_reader 100 sample_revoked)"
    by (simp add: about_to_finish_def sample_token_deployment_def)
  show "\<exists>st'. finish_validation memory_port (list_lru 2) (sample_reader 100 sample_revoked) None sample_text sample_stage
     (dp_validator sample_token_deployment) = (Inr (validation_of sample_token_row), st')"
    using sample_asks(4) by (simp add: sample_token_deployment_def prod_eq_iff)
qed

theorem accepted_token_is_backed_witness:
  "\<exists>v st' t. finish_validation memory_port (list_lru 2) (sample_reader 100 sample_revoked) None sample_text sample_stage
       (dp_validator sample_token_deployment) = (Inr v, st') \<and>
     t \<in> set (ts_tokens (dp_table sample_token_deployment)) \<and> sample_text = tk_token_hash t \<and> tk_revoked_at t = Some 9 \<and>
     (100::int) \<le> 9 + max 0 300 + 2 * 2 + 1"
proof -
  obtain st' where run: "finish_validation memory_port (list_lru 2) (sample_reader 100 sample_revoked) None sample_text sample_stage
     (dp_validator sample_token_deployment) = (Inr (validation_of sample_token_row), st')"
    using sample_finishes(2) by blast
  have "\<exists>t\<in>set (ts_tokens (dp_table sample_token_deployment)). sample_text = tk_token_hash t \<and>
      (\<forall>r. tk_revoked_at t = Some r \<longrightarrow> ve_now (sample_reader 100 sample_revoked) \<le> r + max 0 300 + 2 * 2 + 1)"
    using accepted_token_is_backed [OF list_lru_laws _ _ sample_token_deployment_runs sample_finishes(1) run] by auto
  then show ?thesis using run by (auto simp: sample_token_deployment_def sample_revoked_rows)
qed

section \<open>What the principal may do\<close>

lemma token_principal_authority:
  assumes "pr_token_cap p = Some \<lparr>cap_permissions = perms, cap_repository_ids = repos, cap_per_repository_permissions = None\<rparr>"
    and "pr_claims p = add_admin_claim_if_admin [] adm" and "pr_user_id p = uid"
  shows "authorize grants p perm repo \<longleftrightarrow> perm \<in> set perms \<and>
    (case repos of None \<Rightarrow> True | Some ids \<Rightarrow> \<exists>r\<in>set ids. repo = Some r) \<and>
    (adm \<and> perm \<noteq> PermReadMetrics \<or>
     (\<exists>g\<in>set grants. pg_permission g = perm \<and> (pg_repository_id g = None \<or> pg_repository_id g = repo) \<and>
        subject_matches (pg_subject g) (add_admin_claim_if_admin [] adm) (Some uid)))"
proof -
  have cap: "cap_allows_optional_repo (pr_token_cap p) perm repo \<longleftrightarrow> perm \<in> set perms \<and>
      (case repos of None \<Rightarrow> True | Some ids \<Rightarrow> \<exists>r\<in>set ids. repo = Some r)"
    unfolding assms(1) by (auto simp: cap_allows_optional_repo_def split: option.splits)
  have adm: "is_admin_claims (add_admin_claim_if_admin [] adm) = adm" by (simp add: add_admin_claim_if_admin_def)
  have "user_grants_authorize grants p perm repo \<longleftrightarrow> adm \<and> perm \<noteq> PermReadMetrics \<or>
     (\<exists>g\<in>set grants. pg_permission g = perm \<and> (pg_repository_id g = None \<or> pg_repository_id g = repo) \<and>
        subject_matches (pg_subject g) (add_admin_claim_if_admin [] adm) (Some uid))"
    unfolding user_grants_authorize_iff assms(2,3) adm holds_cell_def using assms(1) by (cases "adm \<and> perm \<noteq> PermReadMetrics") auto
  then show ?thesis unfolding authorize_iff cap by blast
qed

text \<open>
  C18. What a token lets its bearer do. Take a presentation that is accepted, in any interleaving as
  above, and the principal that is built from its validation and the user row read at this request: it is
  authorised for a permission on a repository exactly if the token's row declares the permission and
  covers the repository, and the token's owner, as just read, is an administrator (for every
  permission but reading metrics) or is matched by a grant of that permission in force now. So a token never
  gives more than its row nor more than its owner has at the moment of use, and neither a stale cache
  entry nor a later change of the owner's grants widens it.
\<close>

theorem token_authority_is_exact:
  assumes "lru_laws lru" and "inj_on digest presented" and "0 \<le> latency"
    and "deployment_run port lru digest verify presented ttl delay latency d"
    and "about_to_finish digest verify latency d plaintext stage env"
    and "finish_validation port lru env keys plaintext stage (dp_validator d) = (Inr v, st')"
    and "live_user (av_user_id v) = Inr user" and "p = token_principal env' user v"
  shows "\<exists>t\<in>set (ts_tokens (dp_table d)). verify plaintext (tk_token_hash t) \<and> live_user (tk_user_id t) = Inr user \<and>
    (\<forall>grants perm repo. authorize grants p perm repo \<longleftrightarrow>
       perm \<in> set (tk_declared_permissions t) \<and>
       (case tk_repository_ids t of None \<Rightarrow> True | Some ids \<Rightarrow> \<exists>r\<in>set ids. repo = Some r) \<and>
       (us_is_admin user \<and> perm \<noteq> PermReadMetrics \<or>
        (\<exists>g\<in>set grants. pg_permission g = perm \<and> (pg_repository_id g = None \<or> pg_repository_id g = repo) \<and>
           subject_matches (pg_subject g) (add_admin_claim_if_admin [] (us_is_admin user)) (Some (us_id user)))))"
proof -
  obtain t where t: "t \<in> set (ts_tokens (dp_table d))" "verify plaintext (tk_token_hash t)" "v = (validation_of t)\<lparr>av_revoked_at := None\<rparr>"
    using accepted_backed [OF assms(1-6)] by blast
  have cap: "pr_token_cap p = Some \<lparr>cap_permissions = tk_declared_permissions t, cap_repository_ids = tk_repository_ids t,
      cap_per_repository_permissions = None\<rparr>"
    and "live_user (tk_user_id t) = Inr user"
    and p: "pr_claims p = add_admin_claim_if_admin [] (us_is_admin user)" "pr_user_id p = us_id user"
    using assms(7,8) t(3) by (simp_all add: token_principal_def validation_of_def)
  then show ?thesis using t(1,2) token_principal_authority [OF cap p] by blast
qed

theorem token_authority_is_exact_witness:
  "\<exists>v st'. finish_validation memory_port (list_lru 2) (sample_reader 100 sample_revoked) None sample_text sample_stage
       (dp_validator sample_token_deployment) = (Inr v, st') \<and>
     authorize [] (token_principal (sample_reader 100 sample_revoked) sample_account v) PermRead None \<and>
     \<not> authorize [] (token_principal (sample_reader 100 sample_revoked) sample_account v) PermWrite None"
proof -
  let ?p = "token_principal (sample_reader 100 sample_revoked) sample_account (validation_of sample_token_row)"
  obtain st' where run: "finish_validation memory_port (list_lru 2) (sample_reader 100 sample_revoked) None sample_text sample_stage
     (dp_validator sample_token_deployment) = (Inr (validation_of sample_token_row), st')"
    using sample_finishes(2) by blast
  have "authorize [] ?p PermRead None \<and> \<not> authorize [] ?p PermWrite None"
    using token_authority_is_exact [OF list_lru_laws _ _ sample_token_deployment_runs sample_finishes(1) run, of "\<lambda>_. Inr sample_account"]
    by (auto simp: sample_token_deployment_def sample_revoked_rows sample_token_row_def sample_account_def)
  then show ?thesis using run by blast
qed

section \<open>A minted token authenticates\<close>

lemma quintet_bound: "unat (and w (31 :: u32)) < 32"
proof -
  have "and w 31 = take_bit 5 w" by (simp add: take_bit_eq_mask mask_eq_exp_minus_1)
  then have "unat (and w 31) = take_bit 5 (unat w)" by (simp add: unsigned_take_bit_eq)
  then show ?thesis using take_bit_nat_less_exp [of 5 "unat w"] by simp
qed

lemma base32_flush_result:
  "length (fst (base32_flush buffer n out)) = length out + n div 5 \<and> snd (base32_flush buffer n out) = n mod 5 \<and>
   set (fst (base32_flush buffer n out)) \<subseteq> set out \<union> set base32_alphabet"
proof (induction buffer n out rule: base32_flush.induct)
  case (1 buffer n out)
  show ?case
  proof (cases "5 \<le> n")
    case True
    let ?i = "unat (and (drop_bit (n - 5) buffer) 31)"
    have "length base32_alphabet = 32" by (simp add: base32_alphabet_def)
    then have "base32_alphabet ! ?i \<in> set base32_alphabet" using quintet_bound [of "drop_bit (n - 5) buffer"] by (intro nth_mem) simp
    then show ?thesis using 1 [OF True] True by (subst (1 2 3) base32_flush.simps) (auto simp: le_div_geq le_mod_geq)
  next
    case False
    then show ?thesis by (subst (1 2 3) base32_flush.simps) auto
  qed
qed

lemma base32_loop_result:
  "length (base32_loop buffer n out bs) = length out + (n + 8 * length bs) div 5 \<and>
   set (base32_loop buffer n out bs) \<subseteq> set out \<union> set base32_alphabet" if "n < 5"
  using that
proof (induction bs arbitrary: buffer n out)
  case Nil
  then show ?case by simp
next
  case (Cons b bs)
  let ?buffer = "or (push_bit 8 buffer) (ucast b)"
  obtain out' n' where flush: "base32_flush ?buffer (n + 8) out = (out', n')" by force
  note step = base32_flush_result [of ?buffer "n + 8" out, unfolded flush fst_conv snd_conv]
  have "n' < 5" using step by simp
  note IH = Cons.IH [OF this, of ?buffer out']
  have "(n + 8) div 5 + ((n + 8) mod 5 + 8 * length bs) div 5 = (n + 8 * length (b # bs)) div 5" by simp presburger
  then show ?case using IH step by (simp add: flush) blast
qed

lemma base32_body:
  assumes "length bytes = 20"
  shows "length (encode_base32_lowercase bytes) = 32" and "list_all is_base32_char (encode_base32_lowercase bytes)"
proof -
  have "list_all is_base32_char base32_alphabet" by code_simp
  then show "length (encode_base32_lowercase bytes) = 32" "list_all is_base32_char (encode_base32_lowercase bytes)"
    using base32_loop_result [of 0 0 "[]" bytes] assms by (auto simp: encode_base32_lowercase_def list_all_iff)
qed

text \<open>Twenty random bytes give a text the parser takes apart again.\<close>

lemma parse_generated:
  assumes "length bytes = 20" and "kind \<noteq> CliSession" and "generate_token_plaintext bytes kind = (plaintext, body_prefix)"
  shows "parse_pat_token_format plaintext = Inr (kind, body_prefix)"
  using assms base32_body [OF assms(1)]
  by (cases kind) (auto simp: generate_token_plaintext_def parse_pat_token_format_def token_prefix_len_def Let_def)

lemma issue_inner_success:
  assumes "issue_inner ports actor caller subj target kind request st = (Inr it, st')"
  shows "\<exists>expiry h plaintext q. generate_token_plaintext (tp_random ports) kind = (plaintext, q) \<and> tp_hash_token ports plaintext = Some h \<and>
    it_plaintext it = plaintext \<and> it_expires_at it = expiry \<and>
    ts_tokens st' = ts_tokens st @ [token_row ports target kind (rq_name request) (rq_description request)
      (rq_declared_permissions request) (rq_repository_ids request) expiry actor h q]"
proof -
  obtain plaintext q where gen: "generate_token_plaintext (tp_random ports) kind = (plaintext, q)" by force
  from assms obtain expiry st1 where gates: "run_issuance_gates ports actor caller subj target kind request st = (Inr expiry, st1)"
    unfolding issue_inner_def by (auto elim: and_then_st_cases)
  have st1: "st1 = st" using gates gates_Inr by blast
  show ?thesis
    using assms unfolding issue_inner_def gates st1 and_then_st_def [of "(Inr expiry, st)"] prod.case sum.case gen Let_def
    by (cases "tp_hash_token ports plaintext")
      (auto simp: hash_plaintext_def issued_def elim!: and_then_st_cases dest!: insert_token_result append_user_event_result)
qed

lemma find_appended:
  assumes "q \<notin> tk_token_prefix ` set (ts_tokens st)" and "ts_tokens st' = ts_tokens st @ [t]" and "tk_token_prefix t = q"
    and "\<forall>xs. set (order xs) = set xs"
  shows "find_token_by_prefix order q st' = Some t"
proof -
  have only: "x = t" if "x \<in> set (order (ts_tokens st'))" "tk_token_prefix x = q" for x using that assms by auto
  have "t \<in> set (order (ts_tokens st'))" using assms(2,4) by simp
  then have "find (\<lambda>t. tk_token_prefix t = q) (order (ts_tokens st')) \<noteq> None" using assms(3) by (auto simp: find_None_iff)
  then obtain x where x: "find (\<lambda>t. tk_token_prefix t = q) (order (ts_tokens st')) = Some x" by blast
  then have "x \<in> set (order (ts_tokens st'))" "tk_token_prefix x = q" by (auto simp: find_Some_iff intro: nth_mem)
  then show ?thesis using only x by (simp add: find_token_by_prefix_def)
qed

lemma recheck_passes:
  assumes "accepts_row env plaintext t"
  shows "recheck port env keys (tk_expires_at t) (tk_revoked_at t) (tk_user_id t) st = (Inr (), st)"
  using assms unfolding recheck_def by (auto simp: accepts_row_def split: option.splits)

text \<open>An acceptable row that is not cached is accepted, unless the address is locked out.\<close>

lemma accepts_row_accepted:
  assumes "lookup_row env plaintext = Inr (Some t)" and "accepts_row env plaintext t"
    and "consult_lockout port env (map_option new_lockout_keys ip) st = (Inr (), st1)"
    and "cache_get lru (ve_get_now env) (ve_digest env plaintext) (vl_cache st) = (None, c)"
  shows "\<exists>st'. validate_pat port lru env plaintext ip st = (Inr (validation_of t), st')"
proof -
  have "ve_verify env plaintext (tk_token_hash t)" using assms(2) by (simp add: accepts_row_def)
  then show ?thesis
    using assms(1,3,4) consult_frame [OF assms(3)]
    by (simp add: validate_pat_def validate_pat_inner_def begin_validation_def finish_validation_def verify_lookup_def and_then_st_def
        recheck_passes [OF assms(2)])
qed

text \<open>
  C19. A token that was minted can be used. When a user mints a token for themselves from twenty random
  bytes, the text handed out has the shape the validator parses, its prefix finds the new row, and the
  hash verifies; so presenting it before it expires, while the user is active, the address is
  not locked out and the text not yet cached, authenticates as that user with exactly the declared
  permissions and repositories as the cap. The hypotheses: verification accepts the text a hash was
  made from, no other row carries the eight characters of the prefix (the index on it is not unique, and
  with a second row the lookup may return the wrong one), and the lookups reach the database as the mint left it.
\<close>

theorem minted_token_authenticates:
  assumes mint: "issue_self_token ports caller request st = (Inr it, st1)"
    and bytes: "length (tp_random ports) = 20"
    and fresh: "snd (generate_token_plaintext (tp_random ports) Pat) \<notin> tk_token_prefix ` set (ts_tokens st)"
    and argon2: "\<forall>x h. tp_hash_token ports x = Some h \<longrightarrow> ve_verify env x h"
    and users: "\<forall>u x. tp_find_user ports u = Inr x \<longrightarrow> us_id x = u"
    and reads: "\<forall>xs. set (order xs) = set xs" "\<forall>q. ve_find_by_prefix env q = Inr (find_token_by_prefix order q st1)"
    and live: "\<forall>e. it_expires_at it = Some e \<longrightarrow> ve_now env < e"
    and user: "ve_find_user env (pr_user_id caller) = Inr user" "us_is_active user" "live_user (pr_user_id caller) = Inr user"
    and unlocked: "fst (consult_lockout port env (map_option new_lockout_keys ip) v) = Inr ()"
    and uncached: "fst (cache_get lru (ve_get_now env) (ve_digest env (it_plaintext it)) (vl_cache v)) = None"
  shows "\<exists>p v'. authenticate_pat port lru env live_user (it_plaintext it) ip v = (Inr p, v') \<and>
    pr_user_id p = us_id user \<and> pr_token_kind p = Some Pat \<and>
    pr_token_cap p = Some \<lparr>cap_permissions = rq_declared_permissions request, cap_repository_ids = rq_repository_ids request,
      cap_per_repository_permissions = None\<rparr>"
proof -
  obtain target where target: "tp_find_user ports (pr_user_id caller) = Inr target"
      "issue_inner ports (pr_user_id caller) caller caller target Pat request st = (Inr it, st1)"
    using mint by (auto simp: issue_self_token_def split: if_splits elim!: find_user_cases)
  obtain h q where gen: "generate_token_plaintext (tp_random ports) Pat = (it_plaintext it, q)" "tp_hash_token ports (it_plaintext it) = Some h"
      and row: "ts_tokens st1 = ts_tokens st @ [token_row ports target Pat (rq_name request) (rq_description request)
        (rq_declared_permissions request) (rq_repository_ids request) (it_expires_at it) (pr_user_id caller) h q]" (is "_ = _ @ [?t]")
    using issue_inner_success [OF target(2)] by auto
  have t: "tk_token_prefix ?t = q" "tk_token_hash ?t = h" by (simp_all add: token_row_def)
  have "find_token_by_prefix order q st1 = Some ?t" using find_appended [OF _ row t(1) reads(1)] fresh gen(1) by simp
  then have look: "lookup_row env (it_plaintext it) = Inr (Some ?t)"
    using parse_generated [OF bytes _ gen(1)] reads(2) by (simp add: lookup_row_def)
  have "accepts_row env (it_plaintext it) ?t"
    using argon2 gen(2) live users target(1) user(1,2) by (simp add: accepts_row_def t)
  then obtain v' where "validate_pat port lru env (it_plaintext it) ip v = (Inr (validation_of ?t), v')"
    using accepts_row_accepted [OF look, of port ip v] unlocked uncached by (metis prod.collapse)
  then show ?thesis using user(3) users target(1) by (simp add: authenticate_pat_def token_principal_def validation_of_def)
qed

definition sample_issuer :: token_ports where
  "sample_issuer = (sample_ports 1)\<lparr>tp_random := replicate 20 0, tp_hash_token := Some\<rparr>"

lemma sample_issuer_text:
  "generate_token_plaintext (replicate 20 0) Pat = (''hort_pat_aaaaaaaaaaaaaaaaaaaaaaaaaaaaaaaa'', ''aaaaaaaa'')"
  by code_simp

lemma sample_issuer_mint:
  "\<exists>it st. issue_self_token sample_issuer sample_admin (sample_mint_request [PermRead] (Some 30) None) no_tokens = (Inr it, st) \<and>
     it_plaintext it = ''hort_pat_aaaaaaaaaaaaaaaaaaaaaaaaaaaaaaaa'' \<and> it_expires_at it = Some (5 + days 30)"
proof -
  have "trim ''laptop'' \<noteq> []" by code_simp
  then show ?thesis
    by (simp add: issue_self_token_def find_user_def issue_inner_def run_issuance_gates_def resolve_expiry_def
        failed_cells_def validate_request_def check_texts_def and_then_def and_then_st_def infra_def insert_token_def
        sample_issuer_text hash_plaintext_def authorize_iff issued_def max_expiry_days_def
        user_grants_authorize_def cap_allows_optional_repo_def max_token_name_len_def bootstrap_admin_username_def
        sample_account_def sample_issuer_def sample_ports_def sample_admin_def sample_mint_request_def
        no_tokens_def append_user_event_def append_any_with_conflict_retry.simps event_append_retry_attempts_def token_row_def Let_def)
qed

theorem minted_token_authenticates_witness:
  "\<exists>it st p v'. issue_self_token sample_issuer sample_admin (sample_mint_request [PermRead] (Some 30) None) no_tokens = (Inr it, st) \<and>
     authenticate_pat memory_port (list_lru 2) (sample_reader 100 st) (\<lambda>_. Inr sample_account) (it_plaintext it) None sample_validator = (Inr p, v') \<and>
     pr_user_id p = 7 \<and> pr_token_cap p = Some \<lparr>cap_permissions = [PermRead], cap_repository_ids = None, cap_per_repository_permissions = None\<rparr>"
proof -
  obtain it st where mint: "issue_self_token sample_issuer sample_admin (sample_mint_request [PermRead] (Some 30) None) no_tokens = (Inr it, st)"
      and it: "it_expires_at it = Some (5 + days 30)"
    using sample_issuer_mint by blast
  have "\<exists>p v'. authenticate_pat memory_port (list_lru 2) (sample_reader 100 st) (\<lambda>_. Inr sample_account) (it_plaintext it) None sample_validator = (Inr p, v') \<and>
    pr_user_id p = us_id sample_account \<and> pr_token_kind p = Some Pat \<and>
    pr_token_cap p = Some \<lparr>cap_permissions = rq_declared_permissions (sample_mint_request [PermRead] (Some 30) None),
      cap_repository_ids = rq_repository_ids (sample_mint_request [PermRead] (Some 30) None), cap_per_repository_permissions = None\<rparr>"
    by (rule minted_token_authenticates [OF mint, where order = "\<lambda>xs. xs"])
      (auto simp: it nanos_per_sec_def sample_issuer_def sample_ports_def sample_reader_def sample_lookup_env_def no_tokens_def consult_lockout_def
        cache_get_def sample_validator_def new_cache_def list_lru_def sample_account_def sample_robot_def split: if_splits)
  then show ?thesis using mint by (auto simp: sample_account_def sample_mint_request_def)
qed

end
