(* ===== verification/Spec2Isabelle.thy ===== *)
theory Spec2Isabelle
  imports Artifact_Stream Windows_Liveness Scan_Policy_Fold Retention Event_Reads Event_Anchor_Guarantees
    Token_Authority
begin

text \<open>
  A verification development for Hort, an artifact registry with a quarantine. The repository is a Rust
  workspace under \<^verbatim>\<open>src/crates\<close>. A package that is uploaded or fetched from an upstream is held back,
  scanned, judged against a policy and then released or rejected; everything that happens is an event
  of an append-only, hash-chained event store; who may act is decided by grants, and callers
  identify themselves with tokens the registry mints. Paths below are relative to \<^verbatim>\<open>src/crates\<close>.

  \<^bold>\<open>How the code is modelled.\<close> A \<^verbatim>\<open>Result<T, E>\<close> is \<open>'e + 'a\<close> with the error on the left. A method on
  \<^verbatim>\<open>&mut self\<close> returns its result with the new object, a use case that writes through ports returns
  it with the new state, and \<open>and_then\<close>, \<open>and_then_st\<close> are the question mark. Error messages are the
  constructors of a message datatype per component inside \<open>domain_error\<close>. Structs are records, enums
  datatypes, \<^verbatim>\<open>u32\<close>, \<^verbatim>\<open>u64\<close> and UUIDs words; timestamps and durations are integers counting nanoseconds.
  Strings are their UTF-8 bytes. What a port returns is an argument: rows found, clock readings,
  database faults, random bytes. Third-party code (SHA-256, Ed25519, Argon2, JWT verification,
  the JSON serialisation of payloads, Unicode lower-casing outside ASCII, the LRU container) is a
  function argument; where a property relies on it, the assumption is a named hypothesis of the
  property and its witness instantiates it.

  \<^bold>\<open>Prelude and value types.\<close> \<open>Hort_Prelude\<close>: the result type, folds with errors, strings and ASCII
  case, integers as text, and the interfaces \<open>wire_enum\<close> (an enum with text form), \<open>ranked_choice\<close> (the
  worse of two), \<open>escalation\<close> (a level that only rises) and \<open>bounded_retry\<close>. \<open>Hort_Types\<close>,
  \<open>Repository_Format\<close>, \<open>Findings\<close>: the enums, hashes and findings of \<^verbatim>\<open>hort-domain/src/types\<close> and
  \<^verbatim>\<open>entities\<close>, each enum an instance of \<open>wire_enum\<close>; validated summaries do not overflow.

  \<^bold>\<open>The artifact and its lifecycle.\<close> \<open>Quarantine_Transitions\<close> is the declared table of
  \<^verbatim>\<open>entities/quarantine_transitions.rs\<close> with the interface \<open>lifecycle_table\<close>; \<open>Artifact_Events\<close> the event
  payloads and their validation; \<open>Artifact_Aggregate\<close> the record of \<^verbatim>\<open>entities/artifact.rs\<close> with one
  function per transition (\<open>quarantine\<close>, \<open>release\<close>, \<open>reject_from_scan\<close>, \<open>re_evaluate\<close>,
  \<open>complete_provenance\<close>, \<open>tombstone_from_corruption\<close>, ...). \<open>Artifact_Lifecycle\<close> shows that the transitions
  implement the table, that an artifact becomes downloadable only by an authorised release or a cleared
  re-evaluation, that deletion is final, and which events are emitted and validate.
  \<open>Artifact_Stream\<close> models what the use cases read back from an artifact's stream
  (\<^verbatim>\<open>hort-app/src/use_cases/{scan_history,release_clearance,rejected_reevaluation,provenance_misrejection_repair}.rs\<close>)
  and shows that the state is what the stream records, on every history the commands can produce, and
  that a corruption stands until a provenance rejection is recorded over it.

  \<^bold>\<open>Policies.\<close> \<open>Glob\<close>: both glob matchers decide one declarative relation. \<open>Policy_Primitives\<close>,
  \<open>Policy_Exclusion\<close>, \<open>Policy_Scan\<close>, \<open>Policy_Decisions\<close>: the evaluators of \<^verbatim>\<open>hort-domain/src/policy\<close>, from
  thresholds to the scan gate; the gate's verdict is characterised, and re-evaluation agrees with it.
  \<open>Scan_Policy\<close>, \<open>Scan_Policy_Fold\<close>: the policy and its event stream, with the interface \<open>field_codec\<close>
  for the per-field updates; batches agree with replays. \<open>Windows_Liveness\<close>: the observation window and
  the probes that notice a periodic task that stopped (\<open>liveness_probe\<close>). \<open>Retention\<close>: the retention
  predicate language, its evaluation, reasons, age anchors and event-sourced policies.

  \<^bold>\<open>The event store.\<close> \<open>Event_Chain\<close>: canonical bytes, hash chain and verifying walk of
  \<^verbatim>\<open>hort-domain/src/events/chain.rs\<close>; a verified chain is tamper evident when no two hashed messages
  collide. \<open>Event_Streams\<close>: stream identifiers and actors with their columns. \<open>Event_Store\<close>: the Postgres
  adapter (\<^verbatim>\<open>hort-adapters-postgres/src/event_store.rs\<close>) over a table with its constraints. An
  operation takes the table as its transaction saw it and the table it writes to, so a concurrent
  writer in between is part of the model (READ COMMITTED). \<open>Event_Store_Chains\<close>,
  \<open>Event_Store_Guarantees\<close>, \<open>Event_Reads\<close>: over every history of appends and seals, appends are
  optimistic, stored chains verify, seals remove what their tombstone says, merged reads agree. Two
  kinds of history are used: in \<open>racing_history\<close> an operation may read the tail of a stream before a seal of it
  and write after it, and nothing is claimed of the streams this happened to; \<open>store_history\<close> leaves
  such operations out. \<open>late_append_breaks_chain\<close> shows what they do.
  \<open>Event_Anchor\<close>, \<open>Checkpoint_Store\<close>, \<open>Anchor_Findings\<close>, \<open>Event_Anchor_Guarantees\<close>: checkpoints, the
  anchor store, and the offline command \<^verbatim>\<open>verify-event-chain\<close>; an anchored history cannot be rewritten
  unnoticed, and an honest deployment in which no operation straddles a seal
  is reported as such.

  \<^bold>\<open>Access and tokens.\<close> \<open>Access_Control\<close>: grants, claims, caps and the evaluator of \<^verbatim>\<open>hort-app/src/rbac.rs\<close>;
  the enumeration of what is held agrees with the decision, and derived caps are exact. \<open>Api_Tokens\<close>:
  every mint path, revocation and the replay guard of \<^verbatim>\<open>use_cases/api_token_use_case.rs\<close> over the token
  table; \<open>Api_Token_Guarantees\<close>: over every run the tokens stay within the bounds of their kind, mints
  are authorised and audited, and a federated token is redeemed once. \<open>Ephemeral_Store\<close>: the port and
  the in-memory store of \<^verbatim>\<open>hort-adapters-ephemeral-memory\<close>; its laws are the locale \<open>ephemeral_store\<close>,
  interpreted on that store, and its bounded counter admits exactly its bound. \<open>Token_Validation\<close>: the
  cache (\<^verbatim>\<open>use_cases/pat_cache.rs\<close>), the validator with its lockout
  (\<^verbatim>\<open>use_cases/pat_validation_use_case.rs\<close>) and \<^verbatim>\<open>authenticate_pat\<close>. \<open>Token_Cache\<close>: invalidations are
  complete and hits fresh, for every container that obeys the documented laws of an LRU map.
  \<open>Token_Validation_Guarantees\<close>: failures engage the lockout. \<open>Token_Authority\<close> runs the token
  table and the validator together: an accepted token is backed by its row, its authority is exactly
  that of the row and of its live owner, and a minted token authenticates. There a presentation is three
  steps (ask the cache, ask the table, finish), with anything in between, every reading of a clock is a value of
  its own, and two parameters bound what the code leaves open: \<open>delay\<close>, from the stamp of a revocation until lookups see
  it, and \<open>latency\<close>, from one step of a presentation to its end. Argon2 and SHA-256 are parameters.

  \<^bold>\<open>How the parts meet.\<close> Transitions emit the events the artifact stream readers fold; the scan gate
  and the exclusions decide which transition a use case takes; audit events of tokens and the events of
  artifacts are rows of the event store, whose streams are hash-chained and anchored. This root
  holds what spans several parts: the policy fields the gate depends on and the two retry loops around
  the event store.

  \<^bold>\<open>Termination and bounds.\<close> All definitions are total. Loops over lists are structural; the glob
  matchers, the paged reads and the retry loops have explicit measures (pattern and text left, rows
  after the cursor, attempts left), so no fuel is used. The retry budgets are the code's constants,
  the sixteen rounds of the port's default counter included.

  \<^bold>\<open>Not modelled.\<close> HTTP handlers, SQL text, object storage, network clients, subprocess scanners, command
  line and composition are I/O over third-party libraries; the package-format parsers
  (\<^verbatim>\<open>hort-formats\<close>) work over XML, TOML and archive libraries. Most application use cases orchestrate
  ports around the decisions modelled here. Logging and metrics have no model. Subscriptions
  (listen/notify) and the listing queries of the token table are left out, as are the bearer routing,
  the identity-provider and the session paths of \<^verbatim>\<open>use_cases/authenticate_use_case.rs\<close>, which verify
  JSON web tokens by a third-party library, and the Redis store, whose operations are server scripts.
  Single-threaded interleaving is at the granularity stated with each component; Rust's memory safety
  is assumed.
\<close>

section \<open>Which policy fields the scan gate depends on\<close>

definition verdict_fields :: "policy_field set" where
  "verdict_fields = {FSeverityThreshold, FNegligibleAction, FEnforcement, FCompositeVerdictMode}"

text \<open>
  The verdict of the scan gate over stored findings depends on four policy fields only: the
  severity threshold, the negligible action, the enforcement mode and the composite verdict mode.
  Overwriting any other field, the license policy included, never changes whether the artifact is
  clean, rejected or recorded.
\<close>

theorem verdict_depends_on_four_fields:
  assumes "field \<notin> verdict_fields"
  shows "verdict_of (evaluate_scan_result uni coords kind findings (Some (copy_field field q p)) exclusions now)
    = verdict_of (evaluate_scan_result uni coords kind findings (Some p) exclusions now)"
  using assms
  by (cases field)
    (simp_all add: verdict_fields_def verdict_of_scan gate_blocked_def condemning_findings_def policy_or_def
      composite_verdict_mode_of_def)

theorem verdict_depends_on_four_fields_witness:
  "verdict_of (evaluate_scan_result id sample_coords OtherKind [sample_finding High]
       (Some (copy_field FLicensePolicy (sample_policy\<lparr>pol_license_policy := JBool True\<rparr>) sample_policy)) [] 0)
   = verdict_of (evaluate_scan_result id sample_coords OtherKind [sample_finding High] (Some sample_policy) [] 0)"
  by (rule verdict_depends_on_four_fields) (simp add: verdict_fields_def)

definition layer_finding :: finding where
  "layer_finding = (sample_finding Critical)\<lparr>f_statement := StatesFilesystem\<rparr>"

text \<open>
  The composite verdict mode re-interprets stored findings. For one stored finding about the
  filesystem of an image, on one of the image's layers, the observed mode rejects the layer and the
  promoted mode finds it clean, although the field is not classified as gate-affecting.
\<close>

theorem composite_mode_flips_stored_verdict:
  "verdict_of (evaluate_scan_result uni sample_coords OciBlob [layer_finding]
       (Some (sample_policy\<lparr>pol_composite_verdict_mode := Observed\<rparr>)) [] 0) = VerdictReject \<and>
   verdict_of (evaluate_scan_result uni sample_coords OciBlob [layer_finding]
       (Some (sample_policy\<lparr>pol_composite_verdict_mode := Promoted\<rparr>)) [] 0) = VerdictClean \<and>
   \<not> is_gate_affecting FCompositeVerdictMode"
  by (simp add: verdict_of_scan gate_blocked_findings condemning_findings_def may_condemn_artifact_def
      composite_verdict_mode_of_def policy_or_def layer_finding_def sample_finding_def sample_policy_def
      blocks_gate_def is_informational_def blocking_severity_def Let_def)

section \<open>The retry loops\<close>

text \<open>
  C25. Both retry loops end within their budget and say truly how. The conflict retry around an audit
  append returns the outcome of its \<open>n\<close>-th attempt with \<open>n\<close> at most five, every earlier attempt was a
  conflict, and a conflict is returned only when all five were spent. The contention retry around a
  transaction makes at most four attempts, each on the state the previous one left, and likewise
  returns a contention error only when all four were contended. Neither loop hides another error: it
  is returned at the attempt at which it occurs, which need not be the first.
\<close>

theorem retries_end_within_budget:
  "(\<exists>k<event_append_retry_attempts.
      append_any_with_conflict_retry try_append event_append_retry_attempts 1 = try_append (k + 1) \<and>
      (\<forall>i<k. is_conflict (try_append (i + 1))) \<and>
      (is_conflict (try_append (k + 1)) \<longrightarrow> k + 1 = event_append_retry_attempts)) \<and>
   (\<exists>k<contention_retry_attempts.
      with_contention_retry contention_retry_attempts 1 f s = f (((snd \<circ> f) ^^ k) s) \<and>
      (\<forall>i<k. is_contended (f (((snd \<circ> f) ^^ i) s))) \<and>
      (is_contended (f (((snd \<circ> f) ^^ k) s)) \<longrightarrow> k + 1 = contention_retry_attempts))"
  using conflict_attempts [of event_append_retry_attempts try_append]
    contention_attempts [of contention_retry_attempts f s]
  by (simp add: event_append_retry_attempts_def contention_retry_attempts_def)

theorem retries_end_within_budget_witness:
  "append_any_with_conflict_retry (\<lambda>n. if n < 3 then Inl (Conflict ()) else Inr n) event_append_retry_attempts 1 = Inr 3 \<and>
   is_contended (with_contention_retry contention_retry_attempts 1
     (\<lambda>n. (Inl (Contended (ContendedBy ''op'' ''40001'')) :: store_error + unit, Suc n)) 0)"
proof -
  let ?g = "\<lambda>n. if n < 3 then Inl (Conflict ()) else Inr n :: unit domain_error + nat"
  let ?f = "\<lambda>n. (Inl (Contended (ContendedBy ''op'' ''40001'')) :: store_error + unit, Suc n)"
  have contended: "is_contended (?f n)" for n by (simp add: is_contended_def)
  have conflict: "is_conflict (?g n) \<longleftrightarrow> n < 3" for n by (simp add: is_conflict_def)
  note budget = retries_end_within_budget [of ?g ?f 0, unfolded conflict]
  then obtain k where k: "append_any_with_conflict_retry ?g event_append_retry_attempts 1 = ?g (k + 1)"
      "\<forall>i<k. i + 1 < 3" "k + 1 < 3 \<longrightarrow> k + 1 = event_append_retry_attempts" by blast
  have "\<not> 2 < k" using k(2) [rule_format, of 2] by auto
  then have "k = 2" using k(3) by (simp add: event_append_retry_attempts_def)
  moreover obtain m where "with_contention_retry contention_retry_attempts 1 ?f 0 = ?f (((snd \<circ> ?f) ^^ m) 0)"
    using budget by blast
  ultimately show ?thesis using k(1) contended by simp
qed

end
